(* ===== verification/Cheti_Prelude.thy ===== *)
theory Cheti_Prelude
  imports Main "HOL-Library.Word"
begin

text \<open>
  Vocabulary shared by every component: the parts of Rust's standard library the sources use
  (strings as UTF-8 byte lists, decimal rendering and parsing, durations), fallible actions that
  thread a world, and the generic lemmas about them.
\<close>

named_theorems act_simps \<open>running world-passing actions\<close>
named_theorems str_simps \<open>rewriting of string operations\<close>

section \<open>Strings\<close>

text \<open>
  A Rust \<open>str\<close> is its UTF-8 encoding, so a \<^typ>\<open>string\<close> (a list of 8-bit characters) holds
  the bytes and \<open>length\<close> is \<open>str::len\<close>.
\<close>

abbreviation byte :: "char \<Rightarrow> nat" where
  "byte c \<equiv> of_char c"

abbreviation QUOTE :: char where
  "QUOTE \<equiv> CHR 0x22"

abbreviation DOT :: char where
  "DOT \<equiv> CHR ''.''"

definition is_ascii_alphanumeric :: "char \<Rightarrow> bool" where
  "is_ascii_alphanumeric c \<longleftrightarrow>
     (48 \<le> byte c \<and> byte c \<le> 57) \<or> (65 \<le> byte c \<and> byte c \<le> 90) \<or> (97 \<le> byte c \<and> byte c \<le> 122)"

definition ascii_lower :: "char \<Rightarrow> char" where
  "ascii_lower c = (if 65 \<le> byte c \<and> byte c \<le> 90 then char_of (byte c + 32) else c)"

definition to_ascii_lowercase :: "string \<Rightarrow> string" where
  "to_ascii_lowercase s = map ascii_lower s"

definition eq_ignore_ascii_case :: "string \<Rightarrow> string \<Rightarrow> bool" where
  "eq_ignore_ascii_case a b \<longleftrightarrow> to_ascii_lowercase a = to_ascii_lowercase b"

definition trim_start_matches :: "char \<Rightarrow> string \<Rightarrow> string" where
  "trim_start_matches c s = dropWhile (\<lambda>x. x = c) s"

definition trim_end_matches :: "char \<Rightarrow> string \<Rightarrow> string" where
  "trim_end_matches c s = rev (dropWhile (\<lambda>x. x = c) (rev s))"

definition trim_matches :: "char \<Rightarrow> string \<Rightarrow> string" where
  "trim_matches c s = trim_end_matches c (trim_start_matches c s)"

definition strip_prefix :: "string \<Rightarrow> string \<Rightarrow> string option" where
  "strip_prefix p s = (if take (length p) s = p then Some (drop (length p) s) else None)"

fun str_contains :: "string \<Rightarrow> string \<Rightarrow> bool" where
  "str_contains p [] \<longleftrightarrow> p = []"
| "str_contains p (c # cs) \<longleftrightarrow> take (length p) (c # cs) = p \<or> str_contains p cs"

definition strip_suffix :: "string \<Rightarrow> string \<Rightarrow> string option" where
  "strip_suffix p s =
     (if length p \<le> length s \<and> drop (length s - length p) s = p
      then Some (take (length s - length p) s) else None)"

fun split_char :: "char \<Rightarrow> string \<Rightarrow> string list" where
  "split_char d [] = [[]]"
| "split_char d (c # cs) =
     (if c = d then [] # split_char d cs
      else (case split_char d cs of [] \<Rightarrow> [[c]] | x # xs \<Rightarrow> (c # x) # xs))"

fun split_once :: "char \<Rightarrow> string \<Rightarrow> (string \<times> string) option" where
  "split_once d [] = None"
| "split_once d (c # cs) =
     (if c = d then Some ([], cs)
      else map_option (\<lambda>(a, b). (c # a, b)) (split_once d cs))"

fun join :: "string \<Rightarrow> string list \<Rightarrow> string" where
  "join sep [] = []"
| "join sep [x] = x"
| "join sep (x # y # ys) = x @ sep @ join sep (y # ys)"

text \<open>
  \<open>str::trim\<close> removes the characters with the Unicode \<open>White_Space\<close> property; \<open>ws_head\<close> is
  the encoded length of the white-space character a string starts with (0 when there is none), and
  \<open>ws_last\<close> the same for the end, read backwards.
\<close>

definition ws3 :: "nat \<Rightarrow> nat \<Rightarrow> nat \<Rightarrow> bool" where
  "ws3 a b c \<longleftrightarrow>
     (a = 0xE1 \<and> b = 0x9A \<and> c = 0x80) \<or>
     (a = 0xE2 \<and> b = 0x80 \<and> (0x80 \<le> c \<and> c \<le> 0x8A \<or> c = 0xA8 \<or> c = 0xA9 \<or> c = 0xAF)) \<or>
     (a = 0xE2 \<and> b = 0x81 \<and> c = 0x9F) \<or> (a = 0xE3 \<and> b = 0x80 \<and> c = 0x80)"

definition ws2 :: "nat \<Rightarrow> nat \<Rightarrow> bool" where
  "ws2 a b \<longleftrightarrow> a = 0xC2 \<and> (b = 0x85 \<or> b = 0xA0)"

definition ws1 :: "nat \<Rightarrow> bool" where
  "ws1 a \<longleftrightarrow> a = 32 \<or> (9 \<le> a \<and> a \<le> 13)"

definition ws_head :: "string \<Rightarrow> nat" where
  "ws_head s =
     (case s of
        [] \<Rightarrow> 0
      | a # r \<Rightarrow> if ws1 (byte a) then 1 else
         (case r of
            [] \<Rightarrow> 0
          | b # r' \<Rightarrow> if ws2 (byte a) (byte b) then 2 else
             (case r' of [] \<Rightarrow> 0 | c # _ \<Rightarrow> if ws3 (byte a) (byte b) (byte c) then 3 else 0)))"

definition ws_last :: "string \<Rightarrow> nat" where
  "ws_last s =
     (case s of
        [] \<Rightarrow> 0
      | c # r \<Rightarrow> if ws1 (byte c) then 1 else
         (case r of
            [] \<Rightarrow> 0
          | b # r' \<Rightarrow> if ws2 (byte b) (byte c) then 2 else
             (case r' of [] \<Rightarrow> 0 | a # _ \<Rightarrow> if ws3 (byte a) (byte b) (byte c) then 3 else 0)))"

function drop_ws :: "(string \<Rightarrow> nat) \<Rightarrow> string \<Rightarrow> string" where
  "drop_ws h s = (if s = [] \<or> h s = 0 then s else drop_ws h (drop (h s) s))"
  by pat_completeness auto
termination
  by (relation "measure (\<lambda>(h, s). length s)") auto

declare drop_ws.simps [simp del]

definition trim :: "string \<Rightarrow> string" where
  "trim s = rev (drop_ws ws_last (rev (drop_ws ws_head s)))"

text \<open>Decimal rendering (\<open>Display\<close> of the unsigned integers) and \<open>str::parse::<u64>\<close>.\<close>

fun show_nat :: "nat \<Rightarrow> string" where
  "show_nat n = (if n < 10 then [char_of (48 + n)] else show_nat (n div 10) @ [char_of (48 + n mod 10)])"

declare show_nat.simps [simp del]

definition show_int :: "int \<Rightarrow> string" where
  "show_int i = (if i < 0 then CHR ''-'' # show_nat (nat (- i)) else show_nat (nat i))"

fun parse_digits :: "nat \<Rightarrow> string \<Rightarrow> nat option" where
  "parse_digits acc [] = Some acc"
| "parse_digits acc (c # cs) =
     (if 48 \<le> byte c \<and> byte c \<le> 57 then parse_digits (10 * acc + (byte c - 48)) cs else None)"

definition parse_unsigned :: "nat \<Rightarrow> string \<Rightarrow> nat option" where
  "parse_unsigned bits s =
     (let digits = (if length s > 1 \<and> hd s = CHR ''+'' then tl s else s) in
      if digits = [] then None
      else case parse_digits 0 digits of
             None \<Rightarrow> None
           | Some n \<Rightarrow> if n < 2 ^ bits then Some n else None)"

text \<open>64-bit signed arithmetic, as it wraps around.\<close>

definition wrap_i64 :: "int \<Rightarrow> int" where
  "wrap_i64 x = signed_take_bit 63 x"

section \<open>Durations\<close>

text \<open>A \<open>std::time::Duration\<close> is a number of nanoseconds.\<close>

type_synonym duration = nat

definition from_secs :: "nat \<Rightarrow> duration" where
  "from_secs s = s * 1000000000"

definition from_millis :: "nat \<Rightarrow> duration" where
  "from_millis s = s * 1000000"

definition as_secs :: "duration \<Rightarrow> nat" where
  "as_secs d = d div 1000000000"

section \<open>Fallible actions on a world\<close>

text \<open>
  An \<open>async fn\<close> returning \<open>Result<T, E>\<close> is a function of the world it runs in; the
  question-mark operator is \<open>attempt\<close>: it stops at the first error and keeps the effects.
\<close>

type_synonym ('w, 'e, 'a) act = "'w \<Rightarrow> ('e + 'a) \<times> 'w"

definition done_ok :: "'a \<Rightarrow> ('w, 'e, 'a) act" where
  "done_ok x w = (Inr x, w)"

definition fail_with :: "'e \<Rightarrow> ('w, 'e, 'a) act" where
  "fail_with e w = (Inl e, w)"

definition from_result :: "'e + 'a \<Rightarrow> ('w, 'e, 'a) act" where
  "from_result r w = (r, w)"

definition attempt :: "('w, 'e, 'a) act \<Rightarrow> ('a \<Rightarrow> ('w, 'e, 'b) act) \<Rightarrow> ('w, 'e, 'b) act" where
  "attempt m f w = (case m w of (Inl e, w') \<Rightarrow> (Inl e, w') | (Inr x, w') \<Rightarrow> f x w')"

definition map_err :: "('e \<Rightarrow> 'f) \<Rightarrow> 'e + 'a \<Rightarrow> 'f + 'a" where
  "map_err f r = (case r of Inl e \<Rightarrow> Inl (f e) | Inr x \<Rightarrow> Inr x)"

definition act_map_err :: "('e \<Rightarrow> 'f) \<Rightarrow> ('w, 'e, 'a) act \<Rightarrow> ('w, 'f, 'a) act" where
  "act_map_err f m w = (case m w of (Inl e, w') \<Rightarrow> (Inl (f e), w') | (Inr x, w') \<Rightarrow> (Inr x, w'))"

definition ok_or :: "'e \<Rightarrow> 'a option \<Rightarrow> 'e + 'a" where
  "ok_or e x = (case x of None \<Rightarrow> Inl e | Some y \<Rightarrow> Inr y)"

definition and_then :: "'e + 'a \<Rightarrow> ('a \<Rightarrow> 'e + 'b) \<Rightarrow> 'e + 'b" where
  "and_then r f = (case r of Inl e \<Rightarrow> Inl e | Inr x \<Rightarrow> f x)"

lemma done_ok_run [act_simps, simp]: "done_ok x w = (Inr x, w)"
  by (simp add: done_ok_def)

lemma fail_with_run [act_simps, simp]: "fail_with e w = (Inl e, w)"
  by (simp add: fail_with_def)

lemma from_result_run [act_simps, simp]: "from_result r w = (r, w)"
  by (simp add: from_result_def)

lemma and_then_simps [simp]:
  "and_then (Inl e) f = Inl e"
  "and_then (Inr x) f = f x"
  by (simp_all add: and_then_def)

lemma map_err_simps [simp]:
  "map_err f (Inl e) = Inl (f e)"
  "map_err f (Inr x) = Inr x"
  by (simp_all add: map_err_def)

lemma map_err_eq_Inr [simp]: "map_err f r = Inr x \<longleftrightarrow> r = Inr x"
  by (cases r) simp_all

lemma ok_or_simps [simp]:
  "ok_or e None = Inl e"
  "ok_or e (Some x) = Inr x"
  by (simp_all add: ok_or_def)

lemma and_then_eq_Inr: "and_then r f = Inr y \<longleftrightarrow> (\<exists>x. r = Inr x \<and> f x = Inr y)"
  by (cases r) simp_all

lemma ok_or_eq_Inr [simp]: "ok_or e x = Inr y \<longleftrightarrow> x = Some y"
  by (cases x) simp_all

lemma attempt_Inr: "m w = (Inr x, w') \<Longrightarrow> attempt m f w = f x w'"
  by (simp add: attempt_def)

lemma attempt_Inl: "m w = (Inl e, w') \<Longrightarrow> attempt m f w = (Inl e, w')"
  by (simp add: attempt_def)

lemma attempt_from_result [act_simps, simp]:
  "attempt (from_result r) f w = (case r of Inl e \<Rightarrow> (Inl e, w) | Inr x \<Rightarrow> f x w)"
  by (cases r) (simp_all add: attempt_def)

lemma attempt_value: "attempt (from_result (Inr x)) f = f x"
  by (rule ext) simp

lemma attempt_assoc: "attempt (attempt m f) g = attempt m (\<lambda>x. attempt (f x) g)"
  by (rule ext) (auto simp: attempt_def split: prod.splits sum.splits)

lemma act_map_err_eq_Inr [act_simps]: "act_map_err f m w = (Inr x, w') \<longleftrightarrow> m w = (Inr x, w')"
  by (auto simp: act_map_err_def split: prod.splits sum.splits)

text \<open>A run of \<open>attempt\<close> ends either with the first action's error or with the second action.\<close>

lemma attempt_cases:
  assumes "attempt m f w = (r, w')"
  obtains (first_err) e where "m w = (Inl e, w')" "r = Inl e"
    | (second) x w1 where "m w = (Inr x, w1)" "f x w1 = (r, w')"
  using assms by (auto simp: attempt_def split: prod.splits sum.splits)

lemma attempt_ok_cases:
  assumes "attempt m f w = (Inr y, w')"
  obtains x w1 where "m w = (Inr x, w1)" "f x w1 = (Inr y, w')"
  using assms by (auto elim: attempt_cases)

section \<open>Lemmas on strings\<close>

lemma to_ascii_lowercase_Nil [simp]: "to_ascii_lowercase [] = []"
  by (simp add: to_ascii_lowercase_def)

lemma to_ascii_lowercase_Cons [simp]:
  "to_ascii_lowercase (c # s) = ascii_lower c # to_ascii_lowercase s"
  by (simp add: to_ascii_lowercase_def)

lemma to_ascii_lowercase_append [simp]:
  "to_ascii_lowercase (s @ t) = to_ascii_lowercase s @ to_ascii_lowercase t"
  by (simp add: to_ascii_lowercase_def)

lemma to_ascii_lowercase_empty [simp]: "to_ascii_lowercase s = [] \<longleftrightarrow> s = []"
  by (simp add: to_ascii_lowercase_def)

lemma length_to_ascii_lowercase [simp]: "length (to_ascii_lowercase s) = length s"
  by (simp add: to_ascii_lowercase_def)

lemma byte_ascii_lower: "byte (ascii_lower c) = (if 65 \<le> byte c \<and> byte c \<le> 90 then byte c + 32 else byte c)"
proof -
  have "byte c < 256" by (metis of_char_mod_256 mod_less_divisor zero_less_numeral)
  then show ?thesis
    by (auto simp: ascii_lower_def)
qed

lemma byte_eqD: "byte c = byte d \<Longrightarrow> c = d"
  by (metis char_of_char)

lemma ascii_lower_idem [simp]: "ascii_lower (ascii_lower c) = ascii_lower c"
  by (rule byte_eqD) (simp add: byte_ascii_lower)

lemma to_ascii_lowercase_idem [simp]:
  "to_ascii_lowercase (to_ascii_lowercase s) = to_ascii_lowercase s"
  by (simp add: to_ascii_lowercase_def)

lemma ascii_lower_DOT [simp]: "ascii_lower c = DOT \<longleftrightarrow> c = DOT"
proof -
  have "byte (ascii_lower c) = byte DOT \<longleftrightarrow> byte c = byte DOT"
    by (auto simp: byte_ascii_lower)
  then show ?thesis by (metis byte_eqD)
qed

lemma trim_end_matches_Nil [simp]: "trim_end_matches d [] = []"
  by (simp add: trim_end_matches_def)

lemma trim_end_matches_snoc:
  "trim_end_matches d (s @ [c]) = (if c = d then trim_end_matches d s else s @ [c])"
  by (simp add: trim_end_matches_def)

lemma trim_end_matches_idem [simp]:
  "trim_end_matches d (trim_end_matches d s) = trim_end_matches d s"
  by (simp add: trim_end_matches_def)

lemma trim_end_matches_last: "trim_end_matches d s \<noteq> [] \<Longrightarrow> last (trim_end_matches d s) \<noteq> d"
  by (induction s rule: rev_induct) (auto simp: trim_end_matches_snoc split: if_splits)

lemma trim_end_matches_id: "s \<noteq> [] \<Longrightarrow> last s \<noteq> d \<Longrightarrow> trim_end_matches d s = s"
  by (cases s rule: rev_cases) (simp_all add: trim_end_matches_snoc)

lemma trim_end_matches_replicate: "\<exists>n. s = trim_end_matches d s @ replicate n d"
proof (induction s rule: rev_induct)
  case Nil
  show ?case by simp
next
  case (snoc c s)
  then obtain n where "s = trim_end_matches d s @ replicate n d" by blast
  then have "s @ [d] = trim_end_matches d s @ replicate (Suc n) d"
    by (metis append_assoc replicate_append_same replicate_Suc)
  then show ?case
    by (metis (no_types, lifting) append_Nil2 replicate_0 trim_end_matches_snoc)
qed

lemma set_trim_end_matches: "set (trim_end_matches d s) \<subseteq> set s"
  unfolding trim_end_matches_def using set_dropWhileD by fastforce

lemma trim_end_matches_DOT_lower:
  "trim_end_matches DOT (to_ascii_lowercase s) = to_ascii_lowercase (trim_end_matches DOT s)"
  by (induction s rule: rev_induct) (simp_all add: trim_end_matches_snoc)

lemma strip_suffix_eq_Some [simp]: "strip_suffix p s = Some r \<longleftrightarrow> s = r @ p"
  by (auto simp: strip_suffix_def) (metis append_take_drop_id)

lemma strip_prefix_eq_Some [simp]: "strip_prefix p s = Some r \<longleftrightarrow> s = p @ r"
  by (auto simp: strip_prefix_def) (metis append_take_drop_id)

lemma split_char_not_Nil [simp]: "split_char d s \<noteq> []"
  by (induction s) (auto split: list.splits)

lemma join_split_char: "join [d] (split_char d s) = s"
proof (induction s)
  case Nil
  show ?case by simp
next
  case (Cons c s)
  have "join [d] ((c # x) # xs) = c # join [d] (x # xs)" for x xs
    by (cases xs) simp_all
  moreover have "join [d] ([] # split_char d s) = d # join [d] (split_char d s)"
    by (cases "split_char d s") simp_all
  ultimately show ?case using Cons by (cases "split_char d s") simp_all
qed

lemma split_char_no_sep: "x \<in> set (split_char d s) \<Longrightarrow> d \<notin> set x"
proof (induction s arbitrary: x)
  case Nil
  then show ?case by simp
next
  case (Cons c s)
  then show ?case by (cases "split_char d s") (auto split: if_splits)
qed

lemma split_once_Some: "split_once d s = Some (a, b) \<Longrightarrow> s = a @ d # b \<and> d \<notin> set a"
  by (induction s arbitrary: a) (auto split: if_splits)

lemma split_once_None: "split_once d s = None \<longleftrightarrow> d \<notin> set s"
  by (induction s) auto

lemma drop_ws_stop: "h s = 0 \<Longrightarrow> drop_ws h s = s"
  by (subst drop_ws.simps) simp

text \<open>Decimal numerals determine the number.\<close>

definition digits_value :: "string \<Rightarrow> nat" where
  "digits_value s = foldl (\<lambda>v c. 10 * v + (byte c - 48)) 0 s"

lemma digits_value_show_nat: "digits_value (show_nat n) = n"
proof (induction n rule: show_nat.induct)
  case (1 n)
  show ?case
  proof (cases "n < 10")
    case False
    with 1 show ?thesis by (subst show_nat.simps) (simp add: digits_value_def)
  qed (subst show_nat.simps, simp add: digits_value_def)
qed

lemma show_nat_inj [simp]: "show_nat m = show_nat n \<longleftrightarrow> m = n"
  by (metis digits_value_show_nat)

lemma minus_notin_show_nat: "CHR ''-'' \<notin> set (show_nat n)"
proof (induction n rule: show_nat.induct)
  case (1 n)
  have "char_of (48 + k) \<noteq> CHR ''-''" if "k < 10" for k :: nat
  proof
    assume "char_of (48 + k) = CHR ''-''"
    then have "of_char (char_of (48 + k)) = (of_char (CHR ''-'') :: nat)" by (simp only:)
    with that show False by simp
  qed
  with 1 show ?case by (subst show_nat.simps) (auto dest!: sym [of "CHR ''-''"])
qed

lemma show_int_inj [simp]: "show_int i = show_int j \<longleftrightarrow> i = j"
proof -
  have "show_nat m \<noteq> CHR ''-'' # t" for m t using minus_notin_show_nat [of m] by auto
  then show ?thesis by (auto simp: show_int_def dest: sym)
qed

lemma show_nat_small: "n < 10 \<Longrightarrow> show_nat n = [char_of (48 + n)]"
  by (simp add: show_nat.simps)

end
