(* ===== verification/Dns_Error.thy ===== *)
theory Dns_Error
  imports Cheti_Prelude
begin

text \<open>
  The error type every part of the crate returns (\<open>error.rs\<close>) and its \<open>Display\<close> text. A
  \<open>reqwest::Error\<close> and an \<open>instant_acme::Error\<close> are opaque values of other crates; the model
  carries the text they display.
\<close>

type_synonym reqwest_error = string
type_synonym acme_error = string

datatype DnsError =
    Auth string
  | ZoneNotFound string
  | Api string
  | Http reqwest_error
  | PropagationTimeout (timeout_fqdn: string) (timeout_secs: nat)
  | MissingCredentials string
  | Resolver string
  | Acme string
  | NoDns01Challenge string
  | UnexpectedOrderStatus string
  | ChallengeInvalid string
  | Storage string
  | CertParse string
  | Other string

type_synonym 'a result = "DnsError + 'a"
type_synonym ('w, 'a) io = "('w, DnsError, 'a) act"

fun error_display :: "DnsError \<Rightarrow> string" where
  "error_display (Auth s) = ''authentication failed: '' @ s"
| "error_display (ZoneNotFound s) = ''zone not found for '' @ s"
| "error_display (Api s) = ''API error: '' @ s"
| "error_display (Http e) = ''HTTP error: '' @ e"
| "error_display (PropagationTimeout fqdn secs) =
     ''propagation timeout after '' @ show_nat secs @ ''s for '' @ fqdn"
| "error_display (MissingCredentials s) = ''missing credentials: '' @ s"
| "error_display (Resolver s) = ''resolver error: '' @ s"
| "error_display (Acme s) = ''ACME error: '' @ s"
| "error_display (NoDns01Challenge s) = ''no DNS-01 challenge offered for '' @ s"
| "error_display (UnexpectedOrderStatus s) = ''ACME order is '' @ s @ '', expected Ready''"
| "error_display (ChallengeInvalid s) = ''ACME challenge invalid for '' @ s"
| "error_display (Storage s) = ''account store error: '' @ s"
| "error_display (CertParse s) = ''certificate parse error: '' @ s"
| "error_display (Other s) = ''other: '' @ s"

definition from_acme_error :: "acme_error \<Rightarrow> DnsError" where
  "from_acme_error e = Acme e"

end
