(* ===== verification/Http_Common.thy ===== *)
theory Http_Common
  imports Dns_Error
begin

text \<open>
  The helpers every HTTP provider shares (\<open>providers/common.rs\<close>): input validation, names relative
  to a zone, error bodies, and sending with bounded retries. The HTTP client, the URL parser and the
  percent encoder are other crates: they are the fields of the environment record \<open>http_env\<close>.
\<close>

section \<open>Requests, responses and the client\<close>

datatype http_method = GET | HEAD | OPTIONS | TRACE | CONNECT | POST | PUT | PATCH | DELETE

text \<open>Idempotent methods and success statuses as RFC 9110 (sections 9.2.2 and 15.3) defines them.\<close>

definition is_idempotent :: "http_method \<Rightarrow> bool" where
  "is_idempotent m \<longleftrightarrow> m \<in> {GET, HEAD, OPTIONS, TRACE, PUT, DELETE}"

definition is_success :: "nat \<Rightarrow> bool" where
  "is_success status \<longleftrightarrow> 200 \<le> status \<and> status < 300"

text \<open>
  A request keeps its body as the value given to \<open>json\<close> or \<open>body\<close>; a response keeps the raw body,
  read by the decoders of the environment. A header whose value is not visible ASCII reads as absent,
  which is what \<open>to_str().ok()\<close> makes of it.
\<close>

record 'b request =
  rq_method :: http_method
  rq_url :: string
  rq_query :: "(string \<times> string) list"
  rq_headers :: "(string \<times> string) list"
  rq_body :: "'b option"

record 'r response =
  rs_status :: nat
  rs_header :: "string \<Rightarrow> string option"
  rs_body :: 'r

record ('b, 'r, 'n) http_env =
  http_send :: "'b request \<Rightarrow> 'n \<Rightarrow> (reqwest_error + 'r response) \<times> 'n"
  http_clonable :: "'b request \<Rightarrow> bool"
  http_builds :: "'b request \<Rightarrow> bool"
  http_sleep :: "duration \<Rightarrow> 'n \<Rightarrow> 'n"
  http_text :: "'r \<Rightarrow> reqwest_error + string"
  status_display :: "nat \<Rightarrow> string"
  pct_encode :: "(char \<Rightarrow> bool) \<Rightarrow> string \<Rightarrow> string"

section \<open>Sending with retries\<close>

definition MAX_ATTEMPTS :: nat where
  "MAX_ATTEMPTS = 3"

definition MAX_RETRY_WAIT :: duration where
  "MAX_RETRY_WAIT = from_secs 10"

definition RETRY_BACKOFF :: duration where
  "RETRY_BACKOFF = from_secs 1"

definition retry_backoff :: "nat \<Rightarrow> duration" where
  "retry_backoff att = RETRY_BACKOFF * 2 ^ (att - 1)"

definition retry_delay ::
  "http_method \<Rightarrow> nat \<Rightarrow> (string \<Rightarrow> string option) \<Rightarrow> nat \<Rightarrow> duration option" where
  "retry_delay meth status headers att =
     (let retryable = (if status = 429 then True
                       else if status = 503 then is_idempotent meth
                       else False) in
      if \<not> retryable then None
      else
        let retry_after =
              map_option from_secs
                (Option.bind (headers ''retry-after'') (\<lambda>v. parse_unsigned 64 (trim v))) in
        case retry_after of
          Some wait \<Rightarrow> if wait > MAX_RETRY_WAIT then None else Some wait
        | None \<Rightarrow> Some (retry_backoff att))"

function send_loop ::
  "('b, 'r, 'n, 'z) http_env_scheme \<Rightarrow> http_method option \<Rightarrow> 'b request \<Rightarrow> nat \<Rightarrow> 'n \<Rightarrow>
   (reqwest_error + 'r response) \<times> 'n" where
  "send_loop E meth request att n =
     (case http_send E request n of
        (Inl e, n1) \<Rightarrow> (Inl e, n1)
      | (Inr response, n1) \<Rightarrow>
          (case meth of
             None \<Rightarrow> (Inr response, n1)
           | Some m \<Rightarrow>
               if \<not> http_clonable E request then (Inr response, n1)
               else if att \<ge> MAX_ATTEMPTS then (Inr response, n1)
               else (case retry_delay m (rs_status response) (rs_header response) att of
                       None \<Rightarrow> (Inr response, n1)
                     | Some wait \<Rightarrow>
                         send_loop E meth request (att + 1) (http_sleep E wait n1))))"
  by pat_completeness auto
termination
  by (relation "measure (\<lambda>(E, meth, request, att, n). MAX_ATTEMPTS - att)") auto

declare send_loop.simps [simp del]

definition send_retrying ::
  "('b, 'r, 'n, 'z) http_env_scheme \<Rightarrow> 'b request \<Rightarrow> 'n \<Rightarrow> (reqwest_error + 'r response) \<times> 'n" where
  "send_retrying E request n =
     send_loop E
       (if http_clonable E request \<and> http_builds E request then Some (rq_method request) else None)
       request 1 n"

section \<open>Paths\<close>

definition PATH_SEGMENT :: "char \<Rightarrow> bool" where
  "PATH_SEGMENT c \<longleftrightarrow>
     byte c < 32 \<or> byte c = 127 \<or>
     c \<in> {CHR '' '', QUOTE, CHR ''#'', CHR ''%'', CHR ''/'', CHR ''<'', CHR ''>'', CHR ''?'',
          CHR 0x5C, CHR ''^'', CHR 0x60, CHR ''{'', CHR ''|'', CHR ''}''}"

definition encode_path :: "('b, 'r, 'n, 'z) http_env_scheme \<Rightarrow> string \<Rightarrow> string" where
  "encode_path E segment = pct_encode E PATH_SEGMENT segment"

section \<open>Validation\<close>

definition base64url_byte :: "char \<Rightarrow> bool" where
  "base64url_byte b \<longleftrightarrow> is_ascii_alphanumeric b \<or> b = CHR ''-'' \<or> b = CHR ''_''"

definition validate_acme_value :: "string \<Rightarrow> unit result" where
  "validate_acme_value v =
     (if v = [] \<or> length v > 128
      then Inl (Other (''invalid ACME value length: '' @ show_nat (length v)))
      else if \<not> list_all base64url_byte v
      then Inl (Other ''ACME value must be base64url (A-Z a-z 0-9 - _)'')
      else Inr ())"

fun validate_labels :: "string \<Rightarrow> string list \<Rightarrow> unit result" where
  "validate_labels fqdn [] = Inr ()"
| "validate_labels fqdn (label # labels) =
     (if label = [] \<or> length label > 63 then Inl (Other (''invalid label in '' @ fqdn))
      else if CHR 0x00 \<in> set label then Inl (Other ''fqdn contains null byte'')
      else if \<not> list_all base64url_byte label then Inl (Other (''invalid character in '' @ fqdn))
      else validate_labels fqdn labels)"

definition validate_fqdn :: "string \<Rightarrow> unit result" where
  "validate_fqdn fqdn =
     (let trimmed = trim_end_matches DOT fqdn in
      if trimmed = [] \<or> length trimmed > 253
      then Inl (Other (''invalid fqdn length: '' @ fqdn))
      else validate_labels fqdn (split_char DOT trimmed))"

definition validate_zone :: "string \<Rightarrow> unit result" where
  "validate_zone zone =
     and_then (validate_fqdn zone) (\<lambda>_.
       if DOT \<notin> set (trim_end_matches DOT zone)
       then Inl (Other (''zone must have at least two labels, got '' @ zone))
       else Inr ())"

definition MAX_TTL :: nat where
  "MAX_TTL = 2 ^ 31 - 1"

definition validate_ttl_range :: "nat \<Rightarrow> nat \<Rightarrow> nat \<Rightarrow> nat result" where
  "validate_ttl_range ttl lo hi =
     (if \<not> (lo \<le> ttl \<and> ttl \<le> hi)
      then Inl (Other (''TTL must be between '' @ show_nat lo @ '' and '' @ show_nat hi @
                       '', got '' @ show_nat ttl))
      else Inr ttl)"

definition validate_ttl :: "nat \<Rightarrow> nat result" where
  "validate_ttl ttl = validate_ttl_range ttl 0 MAX_TTL"

definition relative_name :: "string \<Rightarrow> string \<Rightarrow> string result" where
  "relative_name fqdn zone =
     (let fqdn = trim_end_matches DOT fqdn; zone = trim_end_matches DOT zone in
      if fqdn = zone then Inr ''@''
      else ok_or (Other (''fqdn '' @ fqdn @ '' is not within zone '' @ zone))
             (strip_suffix (DOT # zone) fqdn))"

text \<open>\<open>Url::parse\<close> belongs to the url crate; what it returns is used through these two accessors.\<close>

record url =
  url_scheme :: string
  url_host_str :: "string option"

definition validate_https_base :: "(string \<Rightarrow> url option) \<Rightarrow> string \<Rightarrow> string \<Rightarrow> unit result" where
  "validate_https_base url_parse base provider =
     and_then (ok_or (Other (provider @ '' api_base is not a valid URL: '' @ base)) (url_parse base))
       (\<lambda>parsed.
          let scheme_ok =
                url_scheme parsed = ''https'' \<or>
                (url_scheme parsed = ''http'' \<and>
                 url_host_str parsed \<in> {Some ''localhost'', Some ''127.0.0.1'', Some ''::1''}) in
          if \<not> scheme_ok
          then Inl (Other (provider @ '' api_base must use https:// (got '' @ base @ '')''))
          else Inr ())"

section \<open>Error bodies\<close>

definition MAX_ERROR_BODY :: nat where
  "MAX_ERROR_BODY = 512"

text \<open>The UTF-8 bytes of the horizontal ellipsis, then \<open>(truncated)\<close>.\<close>

definition TRUNCATED :: string where
  "TRUNCATED = [CHR 0xE2, CHR 0x80, CHR 0xA6] @ ''(truncated)''"

definition is_char_boundary :: "string \<Rightarrow> nat \<Rightarrow> bool" where
  "is_char_boundary s i \<longleftrightarrow>
     i = 0 \<or> i = length s \<or> (i < length s \<and> \<not> (0x80 \<le> byte (s ! i) \<and> byte (s ! i) \<le> 0xBF))"

fun floor_boundary :: "string \<Rightarrow> nat \<Rightarrow> nat" where
  "floor_boundary s 0 = 0"
| "floor_boundary s (Suc n) = (if is_char_boundary s (Suc n) then Suc n else floor_boundary s n)"

definition truncate_error_body :: "string \<Rightarrow> string" where
  "truncate_error_body raw =
     (if length raw \<le> MAX_ERROR_BODY then raw
      else take (floor_boundary raw MAX_ERROR_BODY) raw @ TRUNCATED)"

definition api_error ::
  "('b, 'r, 'n, 'z) http_env_scheme \<Rightarrow> string \<Rightarrow> string \<Rightarrow> string \<Rightarrow> nat \<Rightarrow> 'r response \<Rightarrow> DnsError" where
  "api_error E provider meth path status response =
     (let text = truncate_error_body
                   (case http_text E (rs_body response) of Inl _ \<Rightarrow> [] | Inr t \<Rightarrow> t) in
      Api (provider @ '' '' @ meth @ '' '' @ path @ '' returned '' @ status_display E status @
           '': '' @ text))"

section \<open>What sending with retries does\<close>

text \<open>
  To count requests and waits, the client is run with a log: \<open>logged E\<close> behaves as \<open>E\<close> and
  appends every request with its answer and every sleep.
\<close>

datatype ('b, 'r) http_event = Sent "'b request" "reqwest_error + 'r response" | Waited duration

definition logged ::
  "('b, 'r, 'n) http_env \<Rightarrow> ('b, 'r, 'n \<times> ('b, 'r) http_event list) http_env" where
  "logged E =
     \<lparr>http_send = (\<lambda>rq (n, evs). let (r, n') = http_send E rq n in (r, (n', evs @ [Sent rq r]))),
      http_clonable = http_clonable E, http_builds = http_builds E,
      http_sleep = (\<lambda>d (n, evs). (http_sleep E d n, evs @ [Waited d])),
      http_text = http_text E, status_display = status_display E, pct_encode = pct_encode E\<rparr>"

fun sent :: "('b, 'r) http_event list \<Rightarrow> ('b request \<times> (reqwest_error + 'r response)) list" where
  "sent [] = []"
| "sent (Sent q a # evs) = (q, a) # sent evs"
| "sent (Waited d # evs) = sent evs"

fun waits :: "('b, 'r) http_event list \<Rightarrow> duration list" where
  "waits [] = []"
| "waits (Sent q a # evs) = waits evs"
| "waits (Waited d # evs) = d # waits evs"

lemma logged_fields [simp]:
  "http_clonable (logged E) = http_clonable E"
  "http_builds (logged E) = http_builds E"
  "http_sleep (logged E) d (n, evs) = (http_sleep E d n, evs @ [Waited d])"
  by (simp_all add: logged_def)

lemma logged_send [simp]:
  "http_send (logged E) rq (n, evs) =
     (fst (http_send E rq n), snd (http_send E rq n), evs @ [Sent rq (fst (http_send E rq n))])"
  by (simp add: logged_def split_beta Let_def)

definition transient :: "http_method \<Rightarrow> 'r response \<Rightarrow> bool" where
  "transient m resp \<longleftrightarrow> rs_status resp = 429 \<or> rs_status resp = 503 \<and> is_idempotent m"

lemma retry_backoff_bound: "att < MAX_ATTEMPTS \<Longrightarrow> retry_backoff att \<le> MAX_RETRY_WAIT"
proof -
  assume "att < MAX_ATTEMPTS"
  then have "att - 1 \<le> 1" by (simp add: MAX_ATTEMPTS_def)
  then have "(2::nat) ^ (att - 1) \<le> 2 ^ 1" by (rule power_increasing) simp
  then show ?thesis
    by (simp add: retry_backoff_def RETRY_BACKOFF_def MAX_RETRY_WAIT_def from_secs_def)
qed

lemma retry_delay_Some:
  assumes "retry_delay m (rs_status resp) h att = Some d" "att < MAX_ATTEMPTS"
  shows "transient m resp \<and> d \<le> MAX_RETRY_WAIT"
  using assms retry_backoff_bound [OF assms(2)]
  by (auto simp: retry_delay_def transient_def Let_def not_less split: if_splits option.splits)

lemma retry_delay_None: "\<not> transient m resp \<Longrightarrow> retry_delay m (rs_status resp) h att = None"
  by (auto simp: retry_delay_def transient_def)

text \<open>The shape of a retrying exchange: answered, or transient, waited for and tried again.\<close>

inductive retry_trace ::
  "'b request \<Rightarrow> (reqwest_error + 'r response) \<Rightarrow> nat \<Rightarrow> ('b, 'r) http_event list \<Rightarrow> bool"
  for rq r where
  last_try: "retry_trace rq r (Suc 0) [Sent rq r]"
| again: "retry_trace rq r k evs \<Longrightarrow> transient (rq_method rq) resp \<Longrightarrow> d \<le> MAX_RETRY_WAIT \<Longrightarrow>
     retry_trace rq r (Suc k) (Sent rq (Inr resp) # Waited d # evs)"

lemma retry_trace_facts:
  assumes "retry_trace rq r k evs"
  shows "length (sent evs) = k \<and> sent evs \<noteq> [] \<and> fst ` set (sent evs) = {rq} \<and> snd (last (sent evs)) = r
    \<and> (\<forall>a \<in> set (map snd (butlast (sent evs))). \<exists>resp. a = Inr resp \<and> transient (rq_method rq) resp)
    \<and> (\<forall>d \<in> set (waits evs). d \<le> MAX_RETRY_WAIT)"
  using assms by induction auto

text \<open>One turn of the loop either sends again after a wait or ends with the answer it got.\<close>

definition sends_again ::
  "('b, 'r, 'n, 'z) http_env_scheme \<Rightarrow> http_method option \<Rightarrow> 'b request \<Rightarrow> nat \<Rightarrow>
   reqwest_error + 'r response \<Rightarrow> duration \<Rightarrow> bool" where
  "sends_again E meth rq att a d \<longleftrightarrow>
     (\<exists>resp m. a = Inr resp \<and> meth = Some m \<and> http_clonable E rq \<and> att < MAX_ATTEMPTS \<and>
        retry_delay m (rs_status resp) (rs_header resp) att = Some d)"

lemma send_loop_again:
  assumes "http_send E rq n = (a, n1)" "sends_again E meth rq att a d"
  shows "send_loop E meth rq att n = send_loop E meth rq (att + 1) (http_sleep E d n1)"
  using assms by (auto simp: sends_again_def send_loop.simps [of E meth rq att n])

lemma send_loop_stop:
  assumes "http_send E rq n = (a, n1)" "\<nexists>d. sends_again E meth rq att a d"
  shows "send_loop E meth rq att n = (a, n1)"
  using assms
  by (auto simp: sends_again_def send_loop.simps [of E meth rq att n]
      split: sum.splits option.splits)

lemma sends_again_logged [simp]: "sends_again (logged E) = sends_again E"
  by (intro ext) (simp add: sends_again_def)

lemma sends_again_transient:
  assumes "sends_again E meth rq att a d" "meth = None \<or> meth = Some (rq_method rq)"
  obtains resp where "a = Inr resp" "transient (rq_method rq) resp" "d \<le> MAX_RETRY_WAIT"
    "att < MAX_ATTEMPTS"
  using assms by (auto simp: sends_again_def dest: retry_delay_Some)

lemma send_loop_trace:
  assumes "send_loop (logged E) meth rq att (n, evs0) = (r, (n', evs))"
    and "att \<le> MAX_ATTEMPTS" "meth = None \<or> meth = Some (rq_method rq)"
  shows "\<exists>k tl_evs. evs = evs0 @ tl_evs \<and> att + k \<le> Suc MAX_ATTEMPTS \<and> retry_trace rq r k tl_evs"
  using assms
proof (induction "MAX_ATTEMPTS - att" arbitrary: att n evs0 rule: less_induct)
  case less
  obtain a n1 where send: "http_send E rq n = (a, n1)" by fastforce
  then have lsend: "http_send (logged E) rq (n, evs0) = (a, (n1, evs0 @ [Sent rq a]))" by simp
  show ?case
  proof (cases "\<exists>d. sends_again E meth rq att a d")
    case True
    then obtain d where d: "sends_again E meth rq att a d" by blast
    from sends_again_transient [OF d less.prems(3)] obtain resp where
      resp: "a = Inr resp" "transient (rq_method rq) resp" "d \<le> MAX_RETRY_WAIT" "att < MAX_ATTEMPTS" .
    have "send_loop (logged E) meth rq (att + 1)
        (http_sleep E d n1, (evs0 @ [Sent rq a]) @ [Waited d]) = (r, (n', evs))"
      using less.prems(1) send_loop_again [OF lsend, of meth att d] d by simp
    from less.hyps [OF _ this _ less.prems(3)] resp obtain k tl_evs where
      "evs = ((evs0 @ [Sent rq a]) @ [Waited d]) @ tl_evs" "att + 1 + k \<le> Suc MAX_ATTEMPTS"
      "retry_trace rq r k tl_evs" by fastforce
    with resp show ?thesis
      by (intro exI [of _ "Suc k"] exI [of _ "Sent rq (Inr resp) # Waited d # tl_evs"])
        (simp add: again)
  next
    case False
    then have "a = r \<and> evs = evs0 @ [Sent rq a]"
      using less.prems(1) send_loop_stop [OF lsend, of meth att] by auto
    then show ?thesis using less.prems(2)
      by (intro exI [of _ 1] exI [of _ "[Sent rq r]"]) (simp add: last_try)
  qed
qed

text \<open>The log is a ghost: it changes neither the answer nor the network.\<close>

lemma send_loop_logged_erase:
  "send_loop (logged E) meth rq att (n, evs) = (r, (n', evs')) \<Longrightarrow>
   send_loop E meth rq att n = (r, n')"
proof (induction "MAX_ATTEMPTS - att" arbitrary: att n evs rule: less_induct)
  case less
  obtain a n1 where send: "http_send E rq n = (a, n1)" by fastforce
  then have lsend: "http_send (logged E) rq (n, evs) = (a, (n1, evs @ [Sent rq a]))" by simp
  show ?case
  proof (cases "\<exists>d. sends_again E meth rq att a d")
    case True
    then obtain d where d: "sends_again E meth rq att a d" by blast
    then have "MAX_ATTEMPTS - (att + 1) < MAX_ATTEMPTS - att" by (auto simp: sends_again_def)
    from less.hyps [OF this] less.prems d show ?thesis
      by (simp add: send_loop_again [OF lsend, of meth att d] send_loop_again [OF send d])
  next
    case False
    with less.prems show ?thesis
      by (simp add: send_loop_stop [OF lsend, of meth att] send_loop_stop [OF send, of meth att])
  qed
qed

text \<open>C29: sending with retries issues the same request at most three times, returns the last answer
  unchanged, and resends only after a 429, or after a 503 to an idempotent request; no single wait is
  longer than ten seconds.\<close>

theorem send_retrying_bounded:
  assumes "send_retrying (logged E) rq (n, []) = (r, (n', evs))"
  shows "sent evs \<noteq> [] \<and> length (sent evs) \<le> 3 \<and> fst ` set (sent evs) = {rq}
    \<and> snd (last (sent evs)) = r
    \<and> (\<forall>a \<in> set (map snd (butlast (sent evs))). \<exists>resp. a = Inr resp \<and>
         (rs_status resp = 429 \<or> rs_status resp = 503 \<and> is_idempotent (rq_method rq)))
    \<and> (\<forall>d \<in> set (waits evs). d \<le> from_secs 10)
    \<and> send_retrying E rq n = (r, n')"
proof -
  define meth where "meth = (if http_clonable E rq \<and> http_builds E rq then Some (rq_method rq) else None)"
  have loop: "send_loop (logged E) meth rq 1 (n, []) = (r, (n', evs))"
    using assms by (simp add: send_retrying_def meth_def)
  have "1 \<le> MAX_ATTEMPTS" by (simp add: MAX_ATTEMPTS_def)
  moreover have "meth = None \<or> meth = Some (rq_method rq)" by (simp add: meth_def)
  ultimately obtain k where "1 + k \<le> Suc MAX_ATTEMPTS" "retry_trace rq r k evs"
    using send_loop_trace [OF loop] by auto
  with retry_trace_facts [of rq r k evs] send_loop_logged_erase [OF loop] show ?thesis
    by (auto simp: MAX_ATTEMPTS_def MAX_RETRY_WAIT_def transient_def send_retrying_def meth_def)
qed

text \<open>Two concrete clients for the witnesses: one that always answers with the same status.\<close>

definition fixed_response :: "nat \<Rightarrow> string option \<Rightarrow> string response" where
  "fixed_response st retry_after = \<lparr>rs_status = st,
     rs_header = (\<lambda>h. if h = ''retry-after'' then retry_after else None), rs_body = []\<rparr>"

definition fixed_client :: "nat \<Rightarrow> string option \<Rightarrow> (unit, string, nat) http_env" where
  "fixed_client st retry_after =
     \<lparr>http_send = (\<lambda>_ n. (Inr (fixed_response st retry_after), Suc n)),
      http_clonable = (\<lambda>_. True), http_builds = (\<lambda>_. True), http_sleep = (\<lambda>_ n. n),
      http_text = Inr, status_display = show_nat, pct_encode = (\<lambda>_ s. s)\<rparr>"

definition a_request :: "http_method \<Rightarrow> unit request" where
  "a_request m = \<lparr>rq_method = m, rq_url = ''u'', rq_query = [], rq_headers = [], rq_body = None\<rparr>"

theorem send_retrying_bounded_witness:
  "\<exists>evs. send_retrying (logged (fixed_client 429 None)) (a_request POST) (0, []) =
           (Inr (fixed_response 429 None), (3, evs)) \<and> length (sent evs) \<le> 3 \<and> waits evs = [from_secs 1, from_secs 2]"
proof -
  let ?evs = "[Sent (a_request POST) (Inr (fixed_response 429 None)), Waited (from_secs 1),
     Sent (a_request POST) (Inr (fixed_response 429 None)), Waited (from_secs 2),
     Sent (a_request POST) (Inr (fixed_response 429 None))]"
  have run: "send_retrying (logged (fixed_client 429 None)) (a_request POST) (0, []) =
      (Inr (fixed_response 429 None), (3, ?evs))"
    by (simp add: send_retrying_def send_loop.simps fixed_client_def fixed_response_def logged_def
        retry_delay_def retry_backoff_def RETRY_BACKOFF_def MAX_ATTEMPTS_def from_secs_def a_request_def)
  show ?thesis
    using send_retrying_bounded [OF run] run
    by (intro exI [of _ ?evs]) simp
qed



end
