(* ===== verification/Common_Facts.thy ===== *)
theory Common_Facts
  imports Http_Common
begin

text \<open>
  What the validators, the relative names, the URL check and the error-body truncation of
  \<open>providers/common.rs\<close> guarantee to the providers.
\<close>

section \<open>Host names\<close>

definition host_label :: "string \<Rightarrow> bool" where
  "host_label l \<longleftrightarrow> l \<noteq> [] \<and> length l \<le> 63 \<and> list_all base64url_byte l"

lemma base64url_byte_cases:
  "base64url_byte c \<longleftrightarrow> byte c = 45 \<or> byte c = 95 \<or> (48 \<le> byte c \<and> byte c \<le> 57) \<or>
     (65 \<le> byte c \<and> byte c \<le> 90) \<or> (97 \<le> byte c \<and> byte c \<le> 122)"
proof -
  have "c = CHR ''-'' \<longleftrightarrow> byte c = 45" "c = CHR ''_'' \<longleftrightarrow> byte c = 95"
    using byte_eqD [of c "CHR ''-''"] byte_eqD [of c "CHR ''_''"] by auto
  then show ?thesis by (auto simp: base64url_byte_def is_ascii_alphanumeric_def)
qed

lemma base64url_byte_simps [simp]:
  "\<not> base64url_byte DOT" "\<not> base64url_byte QUOTE" "\<not> base64url_byte (CHR 0x00)"
  "\<not> base64url_byte (CHR ''@'')" "\<not> base64url_byte (CHR ''|'')"
  by (simp_all add: base64url_byte_cases)

lemma validate_labels_iff: "validate_labels f ls = Inr () \<longleftrightarrow> list_all host_label ls"
proof (induction ls)
  case Nil
  show ?case by simp
next
  case (Cons l ls)
  have "CHR 0x00 \<in> set l \<Longrightarrow> \<not> list_all base64url_byte l"
    by (auto simp: list_all_iff intro: bexI [of _ "CHR 0x00"])
  with Cons show ?case by (auto simp: host_label_def not_less)
qed

lemma validate_fqdn_labels:
  "validate_fqdn f = Inr () \<longleftrightarrow>
     (let t = trim_end_matches DOT f in
      t \<noteq> [] \<and> length t \<le> 253 \<and> list_all host_label (split_char DOT t))"
  by (auto simp: validate_fqdn_def Let_def validate_labels_iff not_less)

lemma set_split_char: "set s \<subseteq> insert d (\<Union> (set ` set (split_char d s)))"
proof (induction s)
  case Nil
  show ?case by simp
next
  case (Cons c s)
  then show ?case by (cases "split_char d s") auto
qed

lemma validate_fqdn_bytes:
  assumes "validate_fqdn f = Inr ()" "c \<in> set f"
  shows "c = DOT \<or> base64url_byte c"
proof -
  let ?t = "trim_end_matches DOT f"
  obtain n where "f = ?t @ replicate n DOT" using trim_end_matches_replicate by blast
  then have "set f \<subseteq> insert DOT (set ?t)" by (metis Un_insert_right set_append set_replicate_conv_if subset_insertI2 sup_bot_right subsetI Un_iff insertCI singletonD)
  moreover have "set ?t \<subseteq> insert DOT (\<Union> (set ` set (split_char DOT ?t)))" by (rule set_split_char)
  moreover have "\<forall>l \<in> set (split_char DOT ?t). \<forall>x \<in> set l. base64url_byte x"
    using assms(1) by (auto simp: validate_fqdn_labels Let_def list_all_iff host_label_def)
  ultimately show ?thesis using assms(2) by blast
qed

text \<open>Lower-casing commutes with splitting at dots, so it keeps a valid name valid.\<close>

lemma split_char_lower:
  "split_char DOT (to_ascii_lowercase s) = map to_ascii_lowercase (split_char DOT s)"
proof (induction s)
  case Nil
  show ?case by simp
next
  case (Cons c s)
  then show ?case by (cases "split_char DOT s") auto
qed

lemma base64url_byte_lower: "base64url_byte c \<Longrightarrow> base64url_byte (ascii_lower c)"
  by (auto simp: base64url_byte_cases byte_ascii_lower)

lemma host_label_lower: "host_label l \<Longrightarrow> host_label (to_ascii_lowercase l)"
  by (auto simp: host_label_def list_all_iff to_ascii_lowercase_def base64url_byte_lower)

lemma validate_fqdn_lower:
  "validate_fqdn f = Inr () \<Longrightarrow> validate_fqdn (to_ascii_lowercase f) = Inr ()"
  by (auto simp: validate_fqdn_labels Let_def trim_end_matches_DOT_lower split_char_lower
      list_all_iff host_label_lower)

text \<open>\<open>validate_fqdn\<close> accepts exactly the names that, without trailing dots, have 1 to 253 bytes
  and whose dot-separated labels have 1 to 63 bytes of letters, digits, hyphen and underscore; so an
  accepted name contains no byte that \<open>encode_path\<close> would escape and no query metacharacter, and stays
  accepted when lower-cased.\<close>

theorem validate_fqdn_sound:
  "(validate_fqdn f = Inr () \<longleftrightarrow>
      trim_end_matches DOT f \<noteq> [] \<and> length (trim_end_matches DOT f) \<le> 253 \<and>
      list_all (\<lambda>l. l \<noteq> [] \<and> length l \<le> 63 \<and> list_all base64url_byte l)
        (split_char DOT (trim_end_matches DOT f)))
   \<and> (if validate_fqdn f = Inr ()
      then list_all (\<lambda>c. \<not> PATH_SEGMENT c \<and> c \<noteq> CHR ''&'' \<and> c \<noteq> CHR ''='' \<and> byte c < 128) f
         \<and> validate_fqdn (to_ascii_lowercase f) = Inr ()
      else True)"
proof -
  have safe: "\<not> PATH_SEGMENT c \<and> c \<noteq> CHR ''&'' \<and> c \<noteq> CHR ''='' \<and> byte c < 128"
    if "c = DOT \<or> base64url_byte c" for c
    using that by (auto simp: PATH_SEGMENT_def base64url_byte_cases)
  have "list_all (\<lambda>c. \<not> PATH_SEGMENT c \<and> c \<noteq> CHR ''&'' \<and> c \<noteq> CHR ''='' \<and> byte c < 128) f"
    if "validate_fqdn f = Inr ()"
    unfolding list_all_iff using safe validate_fqdn_bytes [OF that] by blast
  then show ?thesis
    using validate_fqdn_lower [of f] validate_fqdn_labels [of f]
    by (simp add: Let_def flip: host_label_def)
qed

section \<open>Relative names\<close>

definition qualify :: "string \<Rightarrow> string \<Rightarrow> string" where
  "qualify rname zone = (if rname = ''@'' then zone else rname @ DOT # zone)"

lemma relative_name_Inr:
  "relative_name f z = Inr r \<longleftrightarrow>
     (if trim_end_matches DOT f = trim_end_matches DOT z then r = ''@''
      else trim_end_matches DOT f = r @ DOT # trim_end_matches DOT z)"
  by (auto simp: relative_name_def Let_def)

lemma relative_name_not_at:
  assumes "validate_fqdn f = Inr ()"
    and "trim_end_matches DOT f = r @ DOT # z" shows "r \<noteq> ''@''"
  using validate_fqdn_bytes [OF assms(1), of "CHR ''@''"] set_trim_end_matches [of DOT f] assms(2)
  by auto

lemma relative_name_qualify:
  assumes "validate_fqdn f = Inr ()" "relative_name f z = Inr r"
  shows "trim_end_matches DOT f = qualify r (trim_end_matches DOT z)"
  using relative_name_not_at [OF assms(1)] assms(2) by (auto simp: relative_name_Inr qualify_def split: if_splits)

text \<open>C31: for a valid name, \<open>relative_name\<close> succeeds exactly when the name is the zone or lies below
  it, and the relative name together with the zone gives the name back; so two names of a zone with the
  same relative name are the same name.\<close>

theorem relative_name_roundtrip:
  assumes "validate_fqdn f = Inr ()"
  shows "relative_name f z = Inr r \<longleftrightarrow>
     trim_end_matches DOT f = qualify r (trim_end_matches DOT z)"
proof
  assume "relative_name f z = Inr r"
  with assms show "trim_end_matches DOT f = qualify r (trim_end_matches DOT z)" by (rule relative_name_qualify)
next
  assume "trim_end_matches DOT f = qualify r (trim_end_matches DOT z)"
  then show "relative_name f z = Inr r"
    by (auto simp: relative_name_Inr qualify_def split: if_splits)
qed

theorem relative_name_roundtrip_witness:
  "validate_fqdn ''_acme-challenge.api.example.com.'' = Inr () \<and>
   relative_name ''_acme-challenge.api.example.com.'' ''example.com'' = Inr ''_acme-challenge.api''"
proof -
  have v: "validate_fqdn ''_acme-challenge.api.example.com.'' = Inr ()"
    by (simp add: validate_fqdn_labels Let_def trim_end_matches_def host_label_def base64url_byte_cases)
  show ?thesis
    using v relative_name_roundtrip [OF v, of "''example.com''" "''_acme-challenge.api''"]
    by (simp add: qualify_def trim_end_matches_def)
qed

lemma validate_zone_Inr:
  "validate_zone z = Inr () \<longleftrightarrow> validate_fqdn z = Inr () \<and> DOT \<in> set (trim_end_matches DOT z)"
  by (cases "validate_fqdn z") (auto simp: validate_zone_def)

lemma validate_ttl_range_Inr [simp]:
  "validate_ttl_range t lo hi = Inr u \<longleftrightarrow> lo \<le> t \<and> t \<le> hi \<and> u = t"
  by (auto simp: validate_ttl_range_def)

lemma validate_acme_value_Inr:
  "validate_acme_value v = Inr () \<longleftrightarrow> v \<noteq> [] \<and> length v \<le> 128 \<and> list_all base64url_byte v"
  by (auto simp: validate_acme_value_def)

section \<open>API base URLs\<close>

text \<open>Credentials only ever travel to an \<open>https\<close> URL, or over plain \<open>http\<close> to a loopback host:
  \<open>validate_https_base\<close> accepts nothing else, whatever the URL parser returns. The IPv6 loopback is
  accepted only when the parser reports its host without brackets.\<close>

theorem validate_https_base_iff:
  "validate_https_base url_parse base p = Inr () \<longleftrightarrow>
     (\<exists>u. url_parse base = Some u \<and>
        (url_scheme u = ''https'' \<or> url_scheme u = ''http'' \<and>
          (url_host_str u = Some ''localhost'' \<or> url_host_str u = Some ''127.0.0.1'' \<or>
           url_host_str u = Some ''::1'')))"
  by (cases "url_parse base") (auto simp: validate_https_base_def Let_def)

section \<open>Error bodies\<close>

text \<open>Well-formed UTF-8, as far as lead and continuation bytes go.\<close>

definition continuation :: "char \<Rightarrow> bool" where
  "continuation c \<longleftrightarrow> 0x80 \<le> byte c \<and> byte c \<le> 0xBF"

definition utf8_char :: "string \<Rightarrow> bool" where
  "utf8_char c \<longleftrightarrow> c \<noteq> [] \<and> length c \<le> 4 \<and> \<not> continuation (hd c) \<and> list_all continuation (tl c)"

inductive utf8 :: "string \<Rightarrow> bool" where
  utf8_Nil: "utf8 []"
| utf8_Cons: "utf8_char c \<Longrightarrow> utf8 s \<Longrightarrow> utf8 (c @ s)"

lemma utf8_append: "utf8 s \<Longrightarrow> utf8 t \<Longrightarrow> utf8 (s @ t)"
  by (induction rule: utf8.induct) (auto intro: utf8.intros)

lemma utf8_char_inner:
  assumes "utf8_char c" "0 < i" "i < length c"
  shows "continuation (c ! i)"
  using assms by (cases c) (auto simp: utf8_char_def list_all_length nth_Cons')

lemma is_char_boundary_shift:
  assumes "utf8_char c" "is_char_boundary (c @ s) i"
  shows "i = 0 \<or> length c \<le> i \<and> is_char_boundary s (i - length c)"
proof (cases "i < length c")
  case True
  with assms utf8_char_inner [OF assms(1), of i] show ?thesis
    by (auto simp: is_char_boundary_def nth_append continuation_def)
next
  case False
  with assms(2) show ?thesis by (auto simp: is_char_boundary_def nth_append)
qed

lemma utf8_take_boundary: "utf8 s \<Longrightarrow> is_char_boundary s i \<Longrightarrow> utf8 (take i s)"
proof (induction arbitrary: i rule: utf8.induct)
  case utf8_Nil
  show ?case by (simp add: utf8.utf8_Nil)
next
  case (utf8_Cons c s)
  from is_char_boundary_shift [OF utf8_Cons.hyps(1) utf8_Cons.prems] show ?case
    using utf8_Cons by (auto intro: utf8.intros)
qed

lemma floor_boundary_spec:
  "is_char_boundary s (floor_boundary s n) \<and> floor_boundary s n \<le> n
   \<and> (\<forall>j \<le> n. is_char_boundary s j \<longrightarrow> j \<le> floor_boundary s n)"
proof (induction n)
  case 0
  show ?case by (simp add: is_char_boundary_def)
next
  case (Suc n)
  then show ?case by (auto simp: le_Suc_eq)
qed

lemma utf8_head: "utf8 (x # s) \<Longrightarrow> \<not> continuation x"
  by (erule utf8.cases) (auto simp: utf8_char_def Cons_eq_append_conv)

lemma boundary_dense:
  "utf8 s \<Longrightarrow> i \<le> length s \<Longrightarrow> \<exists>j \<le> i. i < j + 4 \<and> is_char_boundary s j"
proof (induction arbitrary: i rule: utf8.induct)
  case utf8_Nil
  then show ?case by (auto simp: is_char_boundary_def)
next
  case (utf8_Cons c s)
  show ?case
  proof (cases "i < length c")
    case True
    with utf8_Cons.hyps(1) show ?thesis
      by (intro exI [of _ 0]) (auto simp: is_char_boundary_def utf8_char_def)
  next
    case False
    with utf8_Cons.prems have "i - length c \<le> length s" by simp
    then obtain j where j: "j \<le> i - length c" "i - length c < j + 4" "is_char_boundary s j"
      using utf8_Cons.IH by blast
    then have "is_char_boundary (c @ s) (j + length c) \<or> j = 0"
      by (auto simp: is_char_boundary_def nth_append)
    moreover have "is_char_boundary (c @ s) (length c)"
    proof (cases s)
      case Nil
      then show ?thesis by (simp add: is_char_boundary_def)
    next
      case (Cons x s')
      from utf8_Cons.hyps(2) Cons have "\<not> continuation x" by (simp add: utf8_head)
      with Cons show ?thesis by (simp add: is_char_boundary_def continuation_def)
    qed
    ultimately have "is_char_boundary (c @ s) (j + length c)" by auto
    with j False show ?thesis by (intro exI [of _ "j + length c"]) auto
  qed
qed

lemma utf8_TRUNCATED: "utf8 TRUNCATED"
proof -
  have "utf8_char [CHR 0xE2, CHR 0x80, CHR 0xA6]" by (simp add: utf8_char_def continuation_def)
  moreover have "utf8 s" if "list_all (\<lambda>c. byte c < 128) s" for s
    using that
  proof (induction s)
    case Nil
    show ?case by (rule utf8_Nil)
  next
    case (Cons c s)
    then have "utf8_char [c]" by (simp add: utf8_char_def continuation_def)
    from utf8_Cons [OF this] Cons show ?case by simp
  qed
  then have "utf8 ''(truncated)''" by simp
  ultimately show ?thesis unfolding TRUNCATED_def by (rule utf8_Cons)
qed

text \<open>Truncating a provider-supplied error text keeps well-formed UTF-8 well formed (the slice
  never splits a character), never yields more than 526 bytes, keeps a text of up to 512 bytes as it
  is, and otherwise keeps at least 509 bytes of it.\<close>

theorem truncate_error_body_utf8:
  assumes "utf8 raw"
  shows "utf8 (truncate_error_body raw) \<and> length (truncate_error_body raw) \<le> 526 \<and>
    (if length raw \<le> 512 then truncate_error_body raw = raw
     else \<exists>cut. 509 \<le> cut \<and> cut \<le> 512 \<and> truncate_error_body raw = take cut raw @ TRUNCATED)"
proof (cases "length raw \<le> 512")
  case True
  with assms show ?thesis by (simp add: truncate_error_body_def MAX_ERROR_BODY_def)
next
  case False
  define cut where "cut = floor_boundary raw 512"
  have b: "is_char_boundary raw cut" "cut \<le> 512" and
    mx: "\<forall>j \<le> 512. is_char_boundary raw j \<longrightarrow> j \<le> cut"
    using floor_boundary_spec [of raw 512] by (auto simp: cut_def)
  obtain j where "j \<le> 512" "512 < j + 4" "is_char_boundary raw j"
    using boundary_dense [OF assms, of 512] False by auto
  with mx have "509 \<le> cut" by fastforce
  moreover have "utf8 (take cut raw @ TRUNCATED)"
    using utf8_take_boundary [OF assms b(1)] utf8_TRUNCATED by (rule utf8_append)
  ultimately show ?thesis using False b
    by (auto simp: truncate_error_body_def MAX_ERROR_BODY_def TRUNCATED_def simp flip: cut_def)
qed

lemma utf8_replicate: "utf8 (replicate n (CHR ''a''))"
proof (induction n)
  case 0
  show ?case by (simp add: utf8_Nil)
next
  case (Suc n)
  have "utf8_char ''a''" by (simp add: utf8_char_def continuation_def)
  from utf8_Cons [OF this Suc] show ?case by simp
qed

theorem truncate_error_body_utf8_witness:
  "utf8 (truncate_error_body (replicate 600 (CHR ''a''))) \<and>
   length (truncate_error_body (replicate 600 (CHR ''a''))) \<le> 526"
  using truncate_error_body_utf8 [OF utf8_replicate, of 600] by blast

section \<open>Trimming\<close>

lemma trim_no_ws: "ws_head s = 0 \<Longrightarrow> ws_last (rev s) = 0 \<Longrightarrow> trim s = s"
  by (simp add: trim_def drop_ws_stop)

text \<open>The values of a challenge have nothing to trim.\<close>

lemma base64url_ws [simp]:
  "base64url_byte c \<Longrightarrow> \<not> ws1 (byte c)" "base64url_byte c \<Longrightarrow> \<not> ws2 (byte c) b" "base64url_byte c \<Longrightarrow> \<not> ws2 b (byte c)"
  "base64url_byte c \<Longrightarrow> \<not> ws3 (byte c) b b'" "base64url_byte c \<Longrightarrow> \<not> ws3 b b' (byte c)"
  by (auto simp: base64url_byte_cases ws1_def ws2_def ws3_def)

lemma trim_acme_value:
  assumes "validate_acme_value v = Inr ()"
  shows "trim v = v"
proof (rule trim_no_ws)
  have bytes: "list_all base64url_byte v" "list_all base64url_byte (rev v)"
    using assms by (simp_all add: validate_acme_value_Inr)
  show "ws_head v = 0" using bytes(1) by (cases v) (simp_all add: ws_head_def split: list.splits)
  show "ws_last (rev v) = 0" using bytes(2) by (cases "rev v") (simp_all add: ws_last_def split: list.splits)
qed

lemma trim_matches_free: "c \<notin> set v \<Longrightarrow> trim_matches c v = v" "c \<notin> set v \<Longrightarrow> trim_matches c (c # v @ [c]) = v"
proof -
  assume c: "c \<notin> set v"
  have drop: "dropWhile (\<lambda>x. x = c) v = v" "dropWhile (\<lambda>x. x = c) (rev v) = rev v"
    using c hd_in_set [of v] hd_in_set [of "rev v"] by (auto simp: dropWhile_eq_self_iff)
  then have start: "trim_start_matches c v = v" "trim_end_matches c v = v"
    by (simp_all add: trim_start_matches_def trim_end_matches_def)
  then show "trim_matches c v = v" by (simp add: trim_matches_def)
  have "trim_start_matches c (v @ [c]) = (if v = [] then [] else v @ [c])"
    using c by (cases v) (auto simp: trim_start_matches_def)
  then have "trim_start_matches c (c # v @ [c]) = (if v = [] then [] else v @ [c])"
    by (simp add: trim_start_matches_def)
  then show "trim_matches c (c # v @ [c]) = v"
    using drop(2) by (simp add: trim_matches_def trim_end_matches_def)
qed

lemma acme_value_no_quote: "validate_acme_value v = Inr () \<Longrightarrow> QUOTE \<notin> set v"
  by (auto simp: validate_acme_value_Inr list_all_iff)

end
