(* ===== verification/Dns_Zone.thy ===== *)
theory Dns_Zone
  imports Common_Facts
begin

text \<open>
  Finding the zone that owns a name (\<open>dns/zone.rs\<close>): the shared system resolver and the walk up the
  labels until a name has an SOA record. The resolver crate is a parameter: a handle is the
  configuration it was built from, and \<open>dns_env\<close> gives what building and querying it do.
\<close>

section \<open>Resolvers and the world\<close>

record SocketAddr =
  sa_ip :: string
  sa_port :: nat

datatype TokioResolver = SystemResolver | ConfiguredResolver "SocketAddr list"

datatype RecordType = SOA | NS | TXT

datatype RData = RD_TXT "string list" | RD_NS string | RD_Other

record 'n dns_env =
  read_system_conf :: "'n \<Rightarrow> (string + unit) \<times> 'n"
  resolver_build :: "TokioResolver \<Rightarrow> 'n \<Rightarrow> (string + unit) \<times> 'n"
  dns_lookup :: "TokioResolver \<Rightarrow> string \<Rightarrow> RecordType \<Rightarrow> 'n \<Rightarrow> (string + RData list) \<times> 'n"
  dns_lookup_ip :: "TokioResolver \<Rightarrow> string \<Rightarrow> 'n \<Rightarrow> (string + string list) \<times> 'n"
  parse_socket_addr :: "string \<Rightarrow> string + SocketAddr"
  dns_now :: "'n \<Rightarrow> nat"
  dns_sleep :: "duration \<Rightarrow> 'n \<Rightarrow> 'n"

text \<open>
  The process-wide state of the crate's DNS layer (the \<open>RESOLVER\<close> cell) beside everything outside the
  process: servers, resolvers and the clock. Providers extend this record with their own caches.
\<close>

record 'n world =
  RESOLVER :: "TokioResolver option"
  net :: 'n

definition on_net :: "('n \<Rightarrow> 'a \<times> 'n) \<Rightarrow> ('n, 'z) world_scheme \<Rightarrow> 'a \<times> ('n, 'z) world_scheme" where
  "on_net f w = (let (a, n) = f (net w) in (a, w\<lparr>net := n\<rparr>))"

section \<open>The code\<close>

definition shared_resolver ::
  "'n dns_env \<Rightarrow> (('n, 'z) world_scheme, TokioResolver) io" where
  "shared_resolver D w =
     (case RESOLVER w of
        Some resolver \<Rightarrow> (Inr resolver, w)
      | None \<Rightarrow>
          (case on_net (read_system_conf D) w of
             (Inl e, w1) \<Rightarrow> (Inl (Resolver (''read system DNS configuration: '' @ e)), w1)
           | (Inr _, w1) \<Rightarrow>
               (case on_net (resolver_build D SystemResolver) w1 of
                  (Inl e, w2) \<Rightarrow> (Inl (Resolver (''build system DNS resolver: '' @ e)), w2)
                | (Inr _, w2) \<Rightarrow> (Inr SystemResolver, w2\<lparr>RESOLVER := Some SystemResolver\<rparr>))))"

definition has_answers :: "string + RData list \<Rightarrow> bool" where
  "has_answers r = (case r of Inl _ \<Rightarrow> False | Inr answers \<Rightarrow> answers \<noteq> [])"

function zone_walk ::
  "'n dns_env \<Rightarrow> TokioResolver \<Rightarrow> string \<Rightarrow> string \<Rightarrow> 'n \<Rightarrow> string result \<times> 'n" where
  "zone_walk D resolver fqdn candidate n =
     (if candidate = [] \<or> DOT \<notin> set candidate then (Inl (ZoneNotFound fqdn), n)
      else
        (case dns_lookup D resolver candidate SOA n of
           (response, n1) \<Rightarrow>
             if has_answers response then (Inr candidate, n1)
             else
               (case split_once DOT candidate of
                  None \<Rightarrow> (Inl (ZoneNotFound fqdn), n1)
                | Some (label, rest) \<Rightarrow>
                    if rest = [] \<or> hd rest = DOT then (Inl (ZoneNotFound fqdn), n1)
                    else zone_walk D resolver fqdn rest n1)))"
  by pat_completeness auto
termination
proof (relation "measure (\<lambda>(D, resolver, fqdn, candidate, n). length candidate)", goal_cases)
  case 1
  show ?case by simp
next
  case (2 D resolver fqdn candidate n)
  then show ?case using split_once_Some [of DOT candidate] by fastforce
qed

declare zone_walk.simps [simp del]

definition find_zone :: "'n dns_env \<Rightarrow> string \<Rightarrow> (('n, 'z) world_scheme, string) io" where
  "find_zone D fqdn =
     attempt (shared_resolver D) (\<lambda>resolver.
       on_net (zone_walk D resolver fqdn (trim_end_matches DOT fqdn)))"

section \<open>The names the walk tries\<close>

text \<open>
  The suffixes of a name that have at least two labels, longest first. The providers that ask their
  API instead of the DNS walk the same list.
\<close>

definition zone_candidates :: "string list \<Rightarrow> string list" where
  "zone_candidates labels = map (\<lambda>start. join [DOT] (drop start labels)) [0..<length labels - 1]"

lemma zone_candidates_simps [simp]:
  "zone_candidates [] = []"
  "zone_candidates [l] = []"
  "zone_candidates (l # m # ls) = join [DOT] (l # m # ls) # zone_candidates (m # ls)"
  by (simp_all add: zone_candidates_def upt_conv_Cons del: upt_Suc
      flip: map_Suc_upt)

lemma join_Cons: "ls \<noteq> [] \<Longrightarrow> join [DOT] (l # ls) = l @ DOT # join [DOT] ls"
  by (cases ls) simp_all

lemma join_eq_Nil: "list_all (\<lambda>l. l \<noteq> []) ls \<Longrightarrow> join [DOT] ls = [] \<longleftrightarrow> ls = []"
  by (cases ls rule: list.exhaust, simp) (cases "tl ls", auto simp: join_Cons)

lemma hd_join_not_DOT:
  "list_all (\<lambda>l. l \<noteq> [] \<and> DOT \<notin> set l) ls \<Longrightarrow> ls \<noteq> [] \<Longrightarrow> hd (join [DOT] ls) \<noteq> DOT"
  by (cases ls; cases "tl ls") (auto simp: hd_append neq_Nil_conv)

lemma split_once_join:
  assumes "DOT \<notin> set l" "ls \<noteq> []"
  shows "split_once DOT (join [DOT] (l # ls)) = Some (l, join [DOT] ls)"
proof -
  have "split_once DOT (l @ DOT # r) = Some (l, r)" for r
    using assms(1) by (induction l) auto
  then show ?thesis by (simp add: join_Cons assms(2))
qed

lemma DOT_in_join: "DOT \<in> set (join [DOT] (l # m # ls))"
  by simp

lemma split_labels_ok:
  "validate_fqdn f = Inr () \<Longrightarrow>
   list_all (\<lambda>l. l \<noteq> [] \<and> DOT \<notin> set l) (split_char DOT (trim_end_matches DOT f))"
  using split_char_no_sep by (fastforce simp: validate_fqdn_labels Let_def list_all_iff host_label_def)

text \<open>Every candidate is the name itself or what follows one of its dots, and has a dot itself.\<close>

lemma zone_candidates_suffix:
  assumes "z \<in> set (zone_candidates ls)" "list_all (\<lambda>l. l \<noteq> [] \<and> DOT \<notin> set l) ls"
  shows "z = join [DOT] ls \<or> (\<exists>r. r \<noteq> [] \<and> join [DOT] ls = r @ DOT # z)" and "DOT \<in> set z"
proof -
  have "(z = join [DOT] ls \<or> (\<exists>r. r \<noteq> [] \<and> join [DOT] ls = r @ DOT # z)) \<and> DOT \<in> set z"
    using assms
  proof (induction ls rule: induct_list012)
    case (3 l m ls)
    show ?case
    proof (cases "z = join [DOT] (l # m # ls)")
      case False
      with 3 have IH: "z = join [DOT] (m # ls) \<or> (\<exists>r. r \<noteq> [] \<and> join [DOT] (m # ls) = r @ DOT # z)"
        "DOT \<in> set z" by simp_all
      then have "\<exists>r. r \<noteq> [] \<and> join [DOT] (l # m # ls) = r @ DOT # z"
      proof (elim disjE exE conjE)
        fix r assume "r \<noteq> []" "join [DOT] (m # ls) = r @ DOT # z"
        then show ?thesis by (intro exI [of _ "l @ DOT # r"]) (simp add: join_Cons)
      qed (use 3(4) in \<open>auto simp: join_Cons\<close>)
      with IH(2) show ?thesis by blast
    qed simp
  qed simp_all
  then show "z = join [DOT] ls \<or> (\<exists>r. r \<noteq> [] \<and> join [DOT] ls = r @ DOT # z)" "DOT \<in> set z"
    by simp_all
qed

section \<open>What the walk finds\<close>

abbreviation proper_labels :: "string list \<Rightarrow> bool" where
  "proper_labels ls \<equiv> list_all (\<lambda>l. l \<noteq> [] \<and> DOT \<notin> set l) ls"

lemma zone_walk_step:
  assumes "proper_labels (l # m # ls)"
    and "dns_lookup D r (join [DOT] (l # m # ls)) SOA n = (resp, n1)"
  shows "zone_walk D r f (join [DOT] (l # m # ls)) n =
      (if has_answers resp then (Inr (join [DOT] (l # m # ls)), n1)
       else zone_walk D r f (join [DOT] (m # ls)) n1)"
proof -
  have split: "split_once DOT (join [DOT] (l # m # ls)) = Some (l, join [DOT] (m # ls))"
    using assms(1) by (intro split_once_join) simp_all
  have rest: "join [DOT] (m # ls) \<noteq> []" "hd (join [DOT] (m # ls)) \<noteq> DOT"
    using assms(1) hd_join_not_DOT [of "m # ls"] join_eq_Nil [of "m # ls"] by (auto simp: list_all_iff)
  have dot: "\<not> (join [DOT] (l # m # ls) = [] \<or> DOT \<notin> set (join [DOT] (l # m # ls)))"
    by simp
  show ?thesis
    by (subst zone_walk.simps) (simp only: if_not_P [OF dot] assms(2) split rest prod.case option.case
        if_False simp_thms)
qed

lemma zone_walk_single: "proper_labels [l] \<Longrightarrow> zone_walk D r f (join [DOT] [l]) n = (Inl (ZoneNotFound f), n)"
  by (simp add: zone_walk.simps)

lemma zone_walk_result:
  assumes "proper_labels ls"
  shows "(\<exists>z \<in> set (zone_candidates ls). fst (zone_walk D r f (join [DOT] ls) n) = Inr z)
       \<or> fst (zone_walk D r f (join [DOT] ls) n) = Inl (ZoneNotFound f)"
  using assms
proof (induction ls arbitrary: n rule: induct_list012)
  case (3 l m ls)
  obtain resp n1 where "dns_lookup D r (join [DOT] (l # m # ls)) SOA n = (resp, n1)"
    by fastforce
  from zone_walk_step [OF 3(3) this] 3(2) [of n1] 3(3) show ?case by (auto simp del: join.simps)
qed (simp_all add: zone_walk.simps)

text \<open>
  When the answers of the resolver do not change while the walk runs, the walk is the search for the
  first candidate that has an SOA record.
\<close>

lemma zone_walk_search:
  assumes "proper_labels ls"
    and "\<And>c n. fst (dns_lookup D r c SOA n) = soa c"
  shows "fst (zone_walk D r f (join [DOT] ls) n) =
    (case find (\<lambda>c. has_answers (soa c)) (zone_candidates ls) of
       None \<Rightarrow> Inl (ZoneNotFound f) | Some z \<Rightarrow> Inr z)"
  using assms(1)
proof (induction ls arbitrary: n rule: induct_list012)
  case (3 l m ls)
  obtain n1 where
    "dns_lookup D r (join [DOT] (l # m # ls)) SOA n = (soa (join [DOT] (l # m # ls)), n1)"
    using assms(2) [of "join [DOT] (l # m # ls)" n] by (metis prod.collapse)
  from zone_walk_step [OF 3(3) this] 3(2) [of n1] 3(3) show ?case by (auto simp del: join.simps)
qed (simp_all add: zone_walk.simps)

lemma shared_resolver_cases:
  obtains e w' where "shared_resolver D w = (Inl (Resolver e), w')"
  | r where "shared_resolver D w = (Inr r, w)" "RESOLVER w = Some r"
  | w' where "shared_resolver D w = (Inr SystemResolver, w')" "RESOLVER w = None"
      "RESOLVER w' = Some SystemResolver"
proof (cases "RESOLVER w")
  case None
  obtain a w1 where conf: "on_net (read_system_conf D) w = (a, w1)" by fastforce
  obtain b w2 where build: "on_net (resolver_build D SystemResolver) w1 = (b, w2)" by fastforce
  show ?thesis
    using that(1,3) None conf build by (cases a; cases b) (simp_all add: shared_resolver_def)
qed (simp add: shared_resolver_def that(2))

lemma fst_on_net [simp]: "fst (on_net f w) = fst (f (net w))"
  by (simp add: on_net_def split: prod.splits)

lemma net_on_net [simp]: "net (snd (on_net f w)) = snd (f (net w))"
  by (simp add: on_net_def split: prod.splits)

lemma RESOLVER_on_net [simp]: "RESOLVER (snd (on_net f w)) = RESOLVER w"
  by (simp add: on_net_def split: prod.splits)

lemma find_zone_cases:
  assumes "validate_fqdn f = Inr ()"
  obtains e where "fst (find_zone D f w) = Inl (Resolver e)"
  | "fst (find_zone D f w) = Inl (ZoneNotFound f)"
  | z where "fst (find_zone D f w) = Inr z"
      "z \<in> set (zone_candidates (split_char DOT (trim_end_matches DOT f)))"
proof (cases rule: shared_resolver_cases [of D w])
  case (1 e w')
  then show ?thesis by (intro that(1)) (simp add: find_zone_def attempt_def)
next
  case (2 r)
  then show ?thesis
    using zone_walk_result [OF split_labels_ok [OF assms], of D r f "net w"] that(2,3)
    by (auto simp: find_zone_def attempt_def join_split_char)
next
  case (3 w')
  then show ?thesis
    using zone_walk_result [OF split_labels_ok [OF assms], of D SystemResolver f "net w'"] that(2,3)
    by (auto simp: find_zone_def attempt_def join_split_char)
qed

text \<open>A found zone is a dot-suffix of the name, so the relative name of the record exists.\<close>

lemma candidate_relative:
  assumes "validate_fqdn f = Inr ()"
    and "z \<in> set (zone_candidates (split_char DOT (trim_end_matches DOT f)))"
  shows "trim_end_matches DOT z = z" "DOT \<in> set z" "\<exists>r. relative_name f z = Inr r"
proof -
  let ?t = "trim_end_matches DOT f"
  note suf = zone_candidates_suffix [OF assms(2) split_labels_ok [OF assms(1)], unfolded join_split_char]
  show dot: "DOT \<in> set z" by (rule suf(2))
  have "?t \<noteq> []" "last z = last ?t" using suf(1) dot by auto
  then have "z \<noteq> []" "last z \<noteq> DOT" using trim_end_matches_last [of DOT f] dot by auto
  then show z: "trim_end_matches DOT z = z" by (rule trim_end_matches_id)
  show "\<exists>r. relative_name f z = Inr r"
    using suf(1) by (auto simp: relative_name_Inr z)
qed

text \<open>The zone \<open>find_zone\<close> returns for a valid name has at least two labels and is the name or
  one of its parents, whatever the resolver answers: the relative name the providers compute from it
  exists, and together with the zone spells the name. Every other outcome is \<open>ZoneNotFound\<close> for this
  name or a resolver that could not be set up.\<close>

theorem find_zone_in_zone:
  assumes "validate_fqdn f = Inr ()"
  shows "case fst (find_zone D f w) of
      Inr z \<Rightarrow> DOT \<in> set z \<and>
        (\<exists>r. relative_name f z = Inr r \<and> trim_end_matches DOT f = qualify r z)
    | Inl e \<Rightarrow> e = ZoneNotFound f \<or> (\<exists>msg. e = Resolver msg \<and> RESOLVER w = None)"
proof (cases rule: find_zone_cases [OF assms, of D w])
  case (1 e)
  then show ?thesis
  proof (cases rule: shared_resolver_cases [of D w])
    case (2 r)
    with 1 zone_walk_result [OF split_labels_ok [OF assms], of D r f "net w"] show ?thesis
      by (auto simp: find_zone_def attempt_def join_split_char)
  qed (auto simp: shared_resolver_def split: option.splits)
next
  case (3 z)
  then show ?thesis
    using candidate_relative [OF assms 3(2)] relative_name_not_at [OF assms]
    by (auto simp: relative_name_Inr qualify_def split: if_splits)
qed simp

text \<open>C7: as long as the resolver gives the same answer to the same SOA question, \<open>find_zone\<close> returns
  the longest suffix of the name, of two labels or more, that has an SOA record, and \<open>ZoneNotFound\<close>
  when no such suffix has one.\<close>

theorem find_zone_longest:
  assumes "validate_fqdn f = Inr ()"
    and "shared_resolver D w = (Inr r, w1)"
    and "\<And>c n. fst (dns_lookup D r c SOA n) = soa c"
  shows "fst (find_zone D f w) =
    (case find (\<lambda>c. has_answers (soa c)) (zone_candidates (split_char DOT (trim_end_matches DOT f))) of
       None \<Rightarrow> Inl (ZoneNotFound f) | Some z \<Rightarrow> Inr z)"
  using zone_walk_search [OF split_labels_ok [OF assms(1)] assms(3), of f "net w1"] assms(2)
  by (simp add: find_zone_def attempt_def join_split_char)

section \<open>A resolver to run the walk on\<close>

definition example_dns :: "string list \<Rightarrow> unit dns_env" where
  "example_dns zones =
     \<lparr>read_system_conf = (\<lambda>n. (Inr (), n)), resolver_build = (\<lambda>_ n. (Inr (), n)),
      dns_lookup = (\<lambda>_ name ty n.
        if ty = SOA then (if name \<in> set zones then Inr [RD_Other] else Inl ''no records'', n)
        else (Inl ''no records'', n)),
      dns_lookup_ip = (\<lambda>_ _ n. (Inl ''no records'', n)),
      parse_socket_addr = (\<lambda>s. Inl ''invalid socket address syntax''),
      dns_now = (\<lambda>_. 0), dns_sleep = (\<lambda>_ n. n)\<rparr>"

definition acme_name :: string where
  "acme_name = ''_acme-challenge.www.example.org.''"

lemma acme_name_valid: "validate_fqdn acme_name = Inr ()"
  by code_simp

lemma acme_name_candidates:
  "zone_candidates (split_char DOT (trim_end_matches DOT acme_name)) =
     [''_acme-challenge.www.example.org'', ''www.example.org'', ''example.org'']"
  by code_simp

theorem find_zone_longest_witness:
  "fst (find_zone (example_dns [''org'', ''example.org'']) acme_name \<lparr>RESOLVER = None, net = ()\<rparr>)
     = Inr ''example.org''"
proof -
  let ?D = "example_dns [''org'', ''example.org'']"
  have r: "shared_resolver ?D \<lparr>RESOLVER = None, net = ()\<rparr>
      = (Inr SystemResolver, \<lparr>RESOLVER = Some SystemResolver, net = ()\<rparr>)"
    by (simp add: shared_resolver_def on_net_def example_dns_def)
  have "fst (dns_lookup ?D SystemResolver c SOA n) =
      (if c \<in> set [''org'', ''example.org''] then Inr [RD_Other] else Inl ''no records'')" for c n
    by (simp add: example_dns_def)
  from find_zone_longest [OF acme_name_valid r this] show ?thesis
    by (simp add: acme_name_candidates has_answers_def)
qed

theorem find_zone_in_zone_witness:
  "validate_fqdn acme_name = Inr () \<and>
   (case fst (find_zone (example_dns [''example.org'']) acme_name \<lparr>RESOLVER = None, net = ()\<rparr>) of
      Inr z \<Rightarrow> DOT \<in> set z \<and>
        (\<exists>r. relative_name acme_name z = Inr r \<and> trim_end_matches DOT acme_name = qualify r z)
    | Inl e \<Rightarrow> e = ZoneNotFound acme_name \<or> (\<exists>msg. e = Resolver msg \<and>
        RESOLVER \<lparr>RESOLVER = None, net = ()\<rparr> = None))"
  using find_zone_in_zone [OF acme_name_valid, where D = "example_dns [''example.org'']" and
      w = "\<lparr>RESOLVER = None, net = ()\<rparr>"] acme_name_valid by simp

end
