(* ===== verification/Provider_Spec.thy ===== *)
theory Provider_Spec
  imports Dns_Zone
begin

text \<open>
  The provider interface (\<open>provider.rs\<close>): polling timing, the \<open>DnsProvider\<close> trait as a record of its
  methods, the forwarding implementation for boxed providers, and the contract the trait's
  documentation asks of an implementation, as a locale.
\<close>

record PropagationTiming =
  timeout :: duration
  interval :: duration

definition PropagationTiming_default :: PropagationTiming where
  "PropagationTiming_default = \<lparr>timeout = from_secs 120, interval = from_secs 5\<rparr>"

record 'w DnsProvider =
  present :: "string \<Rightarrow> string \<Rightarrow> ('w, unit) io"
  cleanup :: "string \<Rightarrow> string \<Rightarrow> ('w, unit) io"
  provider_timing :: PropagationTiming

definition Box_DnsProvider :: "'w DnsProvider \<Rightarrow> 'w DnsProvider" where
  "Box_DnsProvider this =
     \<lparr>present = (\<lambda>fqdn v. present this fqdn v),
      cleanup = (\<lambda>fqdn v. cleanup this fqdn v),
      provider_timing = provider_timing this\<rparr>"

lemma Box_DnsProvider_forwards [simp]: "Box_DnsProvider p = p"
  by (simp add: Box_DnsProvider_def)

section \<open>The contract\<close>

text \<open>
  \<open>txts w k\<close> are the TXT values the DNS serves for the owner key \<open>k\<close> in the world \<open>w\<close>, and \<open>key f\<close> is the
  owner a name denotes. A call that returns \<open>Ok\<close> did its work, and no call, failed or not, touches any
  other value: concurrent validations of a name keep theirs.
\<close>

locale dns_provider =
  fixes P :: "'w DnsProvider"
    and txts :: "'w \<Rightarrow> 'k \<Rightarrow> string set"
    and key :: "string \<Rightarrow> 'k"
    and good :: "'w \<Rightarrow> bool"
  assumes present_good: "good w \<Longrightarrow> good (snd (present P f v w))"
    and cleanup_good: "good w \<Longrightarrow> good (snd (cleanup P f v w))"
    and present_ok: "good w \<Longrightarrow> present P f v w = (Inr (), w') \<Longrightarrow> v \<in> txts w' (key f)"
    and cleanup_ok: "good w \<Longrightarrow> cleanup P f v w = (Inr (), w') \<Longrightarrow> v \<notin> txts w' (key f)"
    and present_frame: "good w \<Longrightarrow> (k, u) \<noteq> (key f, v) \<Longrightarrow>
      u \<in> txts (snd (present P f v w)) k \<longleftrightarrow> u \<in> txts w k"
    and cleanup_frame: "good w \<Longrightarrow> (k, u) \<noteq> (key f, v) \<Longrightarrow>
      u \<in> txts (snd (cleanup P f v w)) k \<longleftrightarrow> u \<in> txts w k"
begin

lemma present_exact:
  assumes "good w" "present P f v w = (Inr (), w')"
  shows "txts w' k = (if k = key f then insert v (txts w k) else txts w k)"
  using present_ok [OF assms] present_frame [OF assms(1), where f = f and v = v] assms(2) by force

lemma cleanup_exact:
  assumes "good w" "cleanup P f v w = (Inr (), w')"
  shows "txts w' k = (if k = key f then txts w k - {v} else txts w k)"
  using cleanup_ok [OF assms] cleanup_frame [OF assms(1), where f = f and v = v] assms(2) by force

lemma present_cleanup:
  assumes "good w" "present P f v w = (Inr (), w1)" "cleanup P f v w1 = (Inr (), w2)"
    and "v \<notin> txts w (key f)"
  shows "txts w2 = txts w"
proof
  fix k
  have "good w1" using present_good [OF assms(1), of f v] assms(2) by simp
  then show "txts w2 k = txts w k"
    using cleanup_exact assms(3,4) present_exact [OF assms(1,2)] by auto
qed

lemma round_trip:
  assumes "good w" "fst (present P f v w) = Inr ()" "fst (cleanup P f v (snd (present P f v w))) = Inr ()"
    and "v \<notin> txts w (key f)"
  shows "\<exists>w1 w2. present P f v w = (Inr (), w1) \<and> v \<in> txts w1 (key f) \<and>
    cleanup P f v w1 = (Inr (), w2) \<and> txts w2 = txts w"
proof -
  obtain w1 w2 where "present P f v w = (Inr (), w1)" "cleanup P f v w1 = (Inr (), w2)"
    using assms(2,3) by (metis prod.collapse)
  with present_ok [OF assms(1)] present_cleanup [OF assms(1) _ _ assms(4)] show ?thesis by blast
qed

end

text \<open>Running the same method over a list of placed records, as far as it goes.\<close>

fun run_all :: "('a \<Rightarrow> 'w \<Rightarrow> 'r \<times> 'w) \<Rightarrow> 'a list \<Rightarrow> 'w \<Rightarrow> 'r list \<times> 'w" where
  "run_all m [] w = ([], w)"
| "run_all m (x # xs) w = (let (r, w1) = m x w; (rs, w2) = run_all m xs w1 in (r # rs, w2))"

lemma run_all_Cons [simp]:
  "fst (run_all m (x # xs) w) = fst (m x w) # fst (run_all m xs (snd (m x w)))"
  "snd (run_all m (x # xs) w) = snd (run_all m xs (snd (m x w)))"
  by (simp_all split: prod.splits)

declare run_all.simps(2) [simp del]

context dns_provider
begin

lemma cleanup_all_good: "good w \<Longrightarrow> good (snd (run_all (\<lambda>(f, v). cleanup P f v) rs w))"
proof (induction rs arbitrary: w)
  case (Cons r rs)
  then show ?case
    using cleanup_good [of w "fst r" "snd r"] by (cases r) simp
qed simp

lemma cleanup_all_frame:
  assumes "good w" "(k, u) \<notin> (\<lambda>(f, v). (key f, v)) ` set rs"
  shows "u \<in> txts (snd (run_all (\<lambda>(f, v). cleanup P f v) rs w)) k \<longleftrightarrow> u \<in> txts w k"
  using assms
proof (induction rs arbitrary: w)
  case (Cons r rs)
  obtain f v where r: "r = (f, v)" by fastforce
  obtain x w1 where c: "cleanup P f v w = (x, w1)" by fastforce
  have "good w1" using cleanup_good [OF Cons(2), of f v] c by simp
  moreover have "u \<in> txts w1 k \<longleftrightarrow> u \<in> txts w k"
    using cleanup_frame [OF Cons(2), of k u f v] Cons(3) c r by auto
  ultimately show ?case using Cons c r by auto
qed simp

lemma cleanup_all_ok:
  assumes "good w" "set (fst (run_all (\<lambda>(f, v). cleanup P f v) rs w)) \<subseteq> {Inr ()}"
    and "(k, v) \<in> (\<lambda>(f, v). (key f, v)) ` set rs"
  shows "v \<notin> txts (snd (run_all (\<lambda>(f, v). cleanup P f v) rs w)) k"
  using assms
proof (induction rs arbitrary: w)
  case (Cons r rs)
  obtain g u where r: "r = (g, u)" by fastforce
  obtain x w1 where c: "cleanup P g u w = (x, w1)" by fastforce
  have good: "good w1" using cleanup_good [OF Cons(2), of g u] c by simp
  have ok: "x = Inr ()" "set (fst (run_all (\<lambda>(f, v). cleanup P f v) rs w1)) \<subseteq> {Inr ()}"
    using Cons(3) r c by auto
  show ?case
  proof (cases "(k, v) \<in> (\<lambda>(f, v). (key f, v)) ` set rs")
    case True
    then show ?thesis using Cons(1) [OF good ok(2)] r c by auto
  next
    case False
    with Cons(4) r have "key g = k" "u = v" by auto
    then have "v \<notin> txts w1 k" using cleanup_ok [OF Cons(2)] c ok(1) by blast
    then show ?thesis
      using cleanup_all_frame [OF good False] r c by auto
  qed
qed simp

end

text \<open>Outside \<open>K\<close> the DNS serves the same values.\<close>

definition same_except :: "('k \<times> string) set \<Rightarrow> ('k \<Rightarrow> string set) \<Rightarrow> ('k \<Rightarrow> string set) \<Rightarrow> bool" where
  "same_except K t t' \<longleftrightarrow> (\<forall>k u. (k, u) \<notin> K \<longrightarrow> (u \<in> t' k \<longleftrightarrow> u \<in> t k))"

lemma same_except_refl [simp]: "same_except K t t"
  by (simp add: same_except_def)

lemma same_except_trans: "same_except K t t' \<Longrightarrow> same_except K' t' t'' \<Longrightarrow> K \<subseteq> M \<Longrightarrow> K' \<subseteq> M \<Longrightarrow> same_except M t t''"
  unfolding same_except_def by blast

end
