(* ===== verification/Propagation.thy ===== *)
theory Propagation
  imports Provider_Spec "HOL-Library.List_Lexorder" "HOL-Library.Char_ord"
begin

text \<open>
  Waiting for a TXT record to be visible (\<open>dns/propagation.rs\<close>): finding the authoritative
  nameservers, querying them, and polling until each has confirmed or the timeout expires. The poll may
  run forever if the clock does not advance, so it is a partial function; it is shown to return
  whenever sleeping moves the clock.
\<close>

section \<open>The code\<close>

definition DEFAULT_RESOLVERS :: "string list" where
  "DEFAULT_RESOLVERS = [''1.1.1.1:53'', ''8.8.8.8:53'']"

text \<open>One pass over the pending targets; the ones that do not confirm stay pending, in order.\<close>

fun poll_round :: "('t \<Rightarrow> 'w \<Rightarrow> bool \<times> 'w) \<Rightarrow> 't list \<Rightarrow> 'w \<Rightarrow> 't list \<times> 'w" where
  "poll_round check [] w = ([], w)"
| "poll_round check (target # pending) w =
     (let (confirmed, w1) = check target w;
          (still_pending, w2) = poll_round check pending w1
      in (if confirmed then still_pending else target # still_pending, w2))"

partial_function (option) poll_loop ::
  "('w \<Rightarrow> nat) \<Rightarrow> (duration \<Rightarrow> 'w \<Rightarrow> 'w) \<Rightarrow> ('t \<Rightarrow> 'w \<Rightarrow> bool \<times> 'w) \<Rightarrow> string \<Rightarrow>
   PropagationTiming \<Rightarrow> nat \<Rightarrow> 't list \<Rightarrow> 'w \<Rightarrow> (unit result \<times> 'w) option" where
  [code]: "poll_loop now sleep check fqdn timing start pending w =
     (let r = poll_round check pending w in
      if fst r = [] then Some (Inr (), snd r)
      else if now (snd r) - start \<ge> timeout timing
      then Some (Inl (PropagationTimeout fqdn (as_secs (timeout timing))), snd r)
      else poll_loop now sleep check fqdn timing start (fst r) (sleep (interval timing) (snd r)))"

definition poll_until_all_confirm ::
  "('w \<Rightarrow> nat) \<Rightarrow> (duration \<Rightarrow> 'w \<Rightarrow> 'w) \<Rightarrow> 't list \<Rightarrow> string \<Rightarrow> PropagationTiming \<Rightarrow>
   ('t \<Rightarrow> 'w \<Rightarrow> bool \<times> 'w) \<Rightarrow> 'w \<Rightarrow> (unit result \<times> 'w) option" where
  "poll_until_all_confirm now sleep targets fqdn timing check w =
     poll_loop now sleep check fqdn timing (now w) targets w"

definition serves_value ::
  "'n dns_env \<Rightarrow> TokioResolver \<Rightarrow> string \<Rightarrow> string \<Rightarrow> ('n, 'z) world_scheme \<Rightarrow> bool \<times> ('n, 'z) world_scheme" where
  "serves_value D resolver fqdn expected w =
     (case on_net (dns_lookup D resolver fqdn TXT) w of
        (Inl _, w1) \<Rightarrow> (False, w1)
      | (Inr answers, w1) \<Rightarrow>
          (list_ex (\<lambda>record. case record of
              RD_TXT txt_data \<Rightarrow> list_ex (\<lambda>data. data = expected) txt_data
            | _ \<Rightarrow> False) answers, w1))"

definition build_resolver ::
  "'n dns_env \<Rightarrow> SocketAddr list \<Rightarrow> (('n, 'z) world_scheme, TokioResolver) io" where
  "build_resolver D addrs w =
     (case on_net (resolver_build D (ConfiguredResolver addrs)) w of
        (Inl e, w1) \<Rightarrow> (Inl (Resolver (''resolver build: '' @ e)), w1)
      | (Inr _, w1) \<Rightarrow> (Inr (ConfiguredResolver addrs), w1))"

fun parse_resolvers :: "'n dns_env \<Rightarrow> string list \<Rightarrow> SocketAddr list result" where
  "parse_resolvers D [] = Inr []"
| "parse_resolvers D (addr # resolvers) =
     (case parse_socket_addr D addr of
        Inl e \<Rightarrow> Inl (Resolver (''invalid resolver address '' @ addr @ '': '' @ e))
      | Inr a \<Rightarrow> map_sum id (\<lambda>as. a # as) (parse_resolvers D resolvers))"

fun ns_names :: "RData list \<Rightarrow> string list" where
  "ns_names [] = []"
| "ns_names (RD_NS ns # answers) = to_ascii_lowercase ns # ns_names answers"
| "ns_names (_ # answers) = ns_names answers"

fun nameserver_resolvers ::
  "'n dns_env \<Rightarrow> TokioResolver \<Rightarrow> string list \<Rightarrow> (('n, 'z) world_scheme, TokioResolver list) io" where
  "nameserver_resolvers D resolver [] w = (Inr [], w)"
| "nameserver_resolvers D resolver (name # names) w =
     (case on_net (dns_lookup_ip D resolver name) w of
        (Inl _, w1) \<Rightarrow> nameserver_resolvers D resolver names w1
      | (Inr ips, w1) \<Rightarrow>
          (let addrs = map (\<lambda>ip. \<lparr>sa_ip = ip, sa_port = 53\<rparr>) ips in
           if addrs \<noteq> [] then
             attempt (build_resolver D addrs) (\<lambda>r.
               attempt (nameserver_resolvers D resolver names) (\<lambda>rs. done_ok (r # rs))) w1
           else nameserver_resolvers D resolver names w1))"

definition authoritative_nameservers ::
  "'n dns_env \<Rightarrow> string \<Rightarrow> (('n, 'z) world_scheme, TokioResolver list) io" where
  "authoritative_nameservers D fqdn =
     attempt (find_zone D fqdn) (\<lambda>zone.
     attempt (act_map_err (\<lambda>e. Resolver (''system resolver init: '' @ e)) (on_net (read_system_conf D))) (\<lambda>_.
     attempt (act_map_err (\<lambda>e. Resolver (''system resolver build: '' @ e))
       (on_net (resolver_build D SystemResolver))) (\<lambda>_.
     attempt (act_map_err (\<lambda>e. Resolver (''NS lookup for '' @ zone @ '': '' @ e))
       (on_net (dns_lookup D SystemResolver zone NS))) (\<lambda>answers.
     attempt (nameserver_resolvers D SystemResolver (remdups_adj (sort (ns_names answers))))
       (\<lambda>nameservers.
     if nameservers = []
     then fail_with (Resolver (''no authoritative NS found for zone '' @ zone))
     else done_ok nameservers)))))"

definition wait_for_propagation ::
  "'n dns_env \<Rightarrow> string \<Rightarrow> string \<Rightarrow> string list \<Rightarrow> PropagationTiming \<Rightarrow> ('n, 'z) world_scheme \<Rightarrow>
   (unit result \<times> ('n, 'z) world_scheme) option" where
  "wait_for_propagation D fqdn expected fallback_resolvers timing w =
     (let fqdn_trimmed = trim_end_matches DOT fqdn;
          poll = (\<lambda>targets. poll_until_all_confirm (\<lambda>w. dns_now D (net w))
            (\<lambda>d w. w\<lparr>net := dns_sleep D d (net w)\<rparr>) targets fqdn timing
            (\<lambda>resolver. serves_value D resolver fqdn_trimmed expected))
      in case authoritative_nameservers D fqdn_trimmed w of
           (Inr nameservers, w1) \<Rightarrow> poll nameservers w1
         | (Inl _, w1) \<Rightarrow>
             (case attempt (from_result (parse_resolvers D fallback_resolvers)) (build_resolver D) w1 of
                (Inl e, w2) \<Rightarrow> Some (Inl e, w2)
              | (Inr resolver, w2) \<Rightarrow> poll [resolver] w2))"

section \<open>Every target confirms, none is asked again\<close>

text \<open>A check that keeps a log of its questions and answers beside the world.\<close>

definition logged_check ::
  "('t \<Rightarrow> 'w \<Rightarrow> bool \<times> 'w) \<Rightarrow> 't \<Rightarrow> 'w \<times> ('t \<times> bool) list \<Rightarrow> bool \<times> 'w \<times> ('t \<times> bool) list" where
  "logged_check check t wl = (let (b, w1) = check t (fst wl) in (b, w1, snd wl @ [(t, b)]))"

definition asks :: "'t \<Rightarrow> ('t \<times> bool) list \<Rightarrow> bool list" where
  "asks t l = map snd (filter (\<lambda>a. fst a = t) l)"

lemma asks_append [simp]: "asks t (l @ m) = asks t l @ asks t m"
  by (simp add: asks_def)

lemma asks_round: "distinct ts \<Longrightarrow>
  asks t (map (\<lambda>u. (u, ans u)) ts) = (if t \<in> set ts then [ans t] else [])"
  by (induction ts) (auto simp: asks_def)

lemma poll_round_log:
  assumes "distinct ts"
  shows "\<exists>ans w'. poll_round (logged_check check) ts (w, l) =
    (filter (\<lambda>t. \<not> ans t) ts, w', l @ map (\<lambda>t. (t, ans t)) ts)"
  using assms
proof (induction ts arbitrary: w l)
  case (Cons t ts)
  obtain b w1 where c: "check t w = (b, w1)" by fastforce
  obtain ans w' where IH: "poll_round (logged_check check) ts (w1, l @ [(t, b)]) =
    (filter (\<lambda>t. \<not> ans t) ts, w', (l @ [(t, b)]) @ map (\<lambda>t. (t, ans t)) ts)"
    using Cons(1) [of w1 "l @ [(t, b)]"] Cons(2) by auto
  let ?ans = "ans(t := b)"
  have same: "filter (\<lambda>u. \<not> ?ans u) ts = filter (\<lambda>u. \<not> ans u) ts"
    "map (\<lambda>u. (u, ?ans u)) ts = map (\<lambda>u. (u, ans u)) ts"
    using Cons(2) by (auto intro: filter_cong)
  have head: "logged_check check t (w, l) = (b, w1, l @ [(t, b)])"
    by (simp add: logged_check_def c)
  have "poll_round (logged_check check) (t # ts) (w, l) =
    (filter (\<lambda>t. \<not> ?ans t) (t # ts), w', l @ map (\<lambda>t. (t, ?ans t)) (t # ts))"
    by (simp add: head IH same del: fun_upd_apply) simp
  then show ?case by blast
qed simp

definition confirmed_once :: "bool list \<Rightarrow> bool" where
  "confirmed_once as \<longleftrightarrow> (\<exists>k. as = replicate k False @ [True])"

definition never_confirmed :: "bool list \<Rightarrow> bool" where
  "never_confirmed as \<longleftrightarrow> (\<exists>k. as = replicate (Suc k) False)"

lemma confirmed_once_simps [simp]:
  "confirmed_once [b] \<longleftrightarrow> b" "confirmed_once (False # as) \<longleftrightarrow> confirmed_once as"
proof -
  show "confirmed_once [b] \<longleftrightarrow> b"
    by (auto simp: confirmed_once_def append_eq_Cons_conv Cons_eq_append_conv intro: exI [of _ 0])
  have "False # as = replicate k False @ [True] \<longleftrightarrow> (\<exists>j. k = Suc j \<and> as = replicate j False @ [True])" for k
    by (cases k) auto
  then show "confirmed_once (False # as) \<longleftrightarrow> confirmed_once as" by (auto simp: confirmed_once_def)
qed

lemma never_confirmed_simps [simp]:
  "never_confirmed [b] \<longleftrightarrow> \<not> b" "never_confirmed as \<Longrightarrow> never_confirmed (False # as)"
  by (auto simp: never_confirmed_def intro: exI [of _ 0] exI [of _ "Suc _"])

definition poll_outcome ::
  "('w \<Rightarrow> nat) \<Rightarrow> string \<Rightarrow> PropagationTiming \<Rightarrow> nat \<Rightarrow> 't list \<Rightarrow> unit result \<Rightarrow> 'w \<Rightarrow> ('t \<times> bool) list \<Rightarrow> bool" where
  "poll_outcome now fqdn timing start targets r w l \<longleftrightarrow>
     (\<forall>t. t \<notin> set targets \<longrightarrow> asks t l = []) \<and>
     (case r of
        Inr _ \<Rightarrow> (\<forall>t \<in> set targets. confirmed_once (asks t l))
      | Inl e \<Rightarrow> e = PropagationTimeout fqdn (as_secs (timeout timing)) \<and>
          timeout timing \<le> now w - start \<and>
          (\<forall>t \<in> set targets. confirmed_once (asks t l) \<or> never_confirmed (asks t l)) \<and>
          (\<exists>t \<in> set targets. never_confirmed (asks t l)))"

lemma poll_outcome_step:
  fixes ans :: "'t \<Rightarrow> bool" and ts :: "'t list"
  defines "l \<equiv> map (\<lambda>t. (t, ans t)) ts"
  assumes "distinct ts" "poll_outcome now fqdn timing start (filter (\<lambda>t. \<not> ans t) ts) r w m"
  shows "poll_outcome now fqdn timing start ts r w (l @ m)"
proof -
  have asks: "asks t l @ asks t m =
      (if t \<in> set ts then ans t # (if ans t then [] else asks t m) else [])" for t
    using assms(2,3) by (auto simp: poll_outcome_def l_def asks_round)
  have "t \<notin> set ts \<Longrightarrow> asks t l = []" for t
    using assms(2) by (simp add: l_def asks_round)
  then show ?thesis
    using assms(3) by (cases r) (auto simp: poll_outcome_def asks intro!: bexI)
qed

text \<open>The rule for properties of what the poll returns.\<close>

lemma poll_loop_induct [consumes 1, case_names confirmed timed_out again]:
  assumes "poll_loop now sleep check fqdn timing start ts w = Some y"
    and "\<And>ts w. fst (poll_round check ts w) = [] \<Longrightarrow> P ts w (Inr (), snd (poll_round check ts w))"
    and "\<And>ts w. fst (poll_round check ts w) \<noteq> [] \<Longrightarrow>
      timeout timing \<le> now (snd (poll_round check ts w)) - start \<Longrightarrow>
      P ts w (Inl (PropagationTimeout fqdn (as_secs (timeout timing))), snd (poll_round check ts w))"
    and "\<And>ts w y. fst (poll_round check ts w) \<noteq> [] \<Longrightarrow>
      P (fst (poll_round check ts w)) (sleep (interval timing) (snd (poll_round check ts w))) y \<Longrightarrow>
      P ts w y"
  shows "P ts w y"
proof -
  have "now = now \<and> sleep = sleep \<and> check = check \<and> fqdn = fqdn \<and> timing = timing \<and> start = start
    \<longrightarrow> P ts w y"
    by (rule poll_loop.raw_induct [OF _ assms(1), where P = "\<lambda>n s c f t st ts w y.
        n = now \<and> s = sleep \<and> c = check \<and> f = fqdn \<and> t = timing \<and> st = start \<longrightarrow> P ts w y"])
      (auto simp: Let_def intro: assms(2-) split: if_splits)
  then show ?thesis by simp
qed

lemma poll_loop_log:
  assumes "poll_loop (now \<circ> fst) (\<lambda>d. map_prod (sleep d) id) (logged_check check) fqdn timing start ts wl = Some y"
    and "distinct ts"
  shows "\<exists>m. snd (snd y) = snd wl @ m \<and> poll_outcome (now \<circ> fst) fqdn timing start ts (fst y) (snd y) m"
  using assms
proof (induction rule: poll_loop_induct)
  case (confirmed ts wl)
  obtain ans w' where "poll_round (logged_check check) ts (fst wl, snd wl) =
    (filter (\<lambda>t. \<not> ans t) ts, w', snd wl @ map (\<lambda>t. (t, ans t)) ts)"
    using poll_round_log [OF confirmed(2), of check "fst wl" "snd wl"] by blast
  with confirmed show ?case
    by (auto simp: filter_empty_conv poll_outcome_def asks_round)
next
  case (timed_out ts wl)
  obtain ans w' where "poll_round (logged_check check) ts (fst wl, snd wl) =
    (filter (\<lambda>t. \<not> ans t) ts, w', snd wl @ map (\<lambda>t. (t, ans t)) ts)"
    using poll_round_log [OF timed_out(3), of check "fst wl" "snd wl"] by blast
  with timed_out show ?case
    by (auto simp: filter_empty_conv poll_outcome_def asks_round)
next
  case (again ts wl y)
  obtain ans w' where round: "poll_round (logged_check check) ts (fst wl, snd wl) =
    (filter (\<lambda>t. \<not> ans t) ts, w', snd wl @ map (\<lambda>t. (t, ans t)) ts)"
    using poll_round_log [OF again(3), of check "fst wl" "snd wl"] by blast
  with again obtain m where "snd (snd y) = (snd wl @ map (\<lambda>t. (t, ans t)) ts) @ m"
    "poll_outcome (now \<circ> fst) fqdn timing start (filter (\<lambda>t. \<not> ans t) ts) (fst y) (snd y) m"
    by (auto simp: comp_def)
  with poll_outcome_step [OF again(3)] show ?case by fastforce
qed

text \<open>Polling distinct targets asks only them. When it returns \<open>Ok\<close>, every target has answered
  no for a while and then yes exactly once, so none is asked again after it confirmed. When it returns
  an error, that is the timeout error with the configured seconds, the timeout has elapsed, and some
  target never confirmed although it was asked.\<close>

theorem poll_until_all_confirm_log:
  assumes "poll_until_all_confirm (now \<circ> fst) (\<lambda>d. map_prod (sleep d) id) targets fqdn timing
      (logged_check check) (w, []) = Some (r, w', l)"
    and "distinct targets"
  shows "(\<forall>t. t \<notin> set targets \<longrightarrow> asks t l = []) \<and>
     (case r of
        Inr _ \<Rightarrow> (\<forall>t \<in> set targets. \<exists>k. asks t l = replicate k False @ [True])
      | Inl e \<Rightarrow> e = PropagationTimeout fqdn (as_secs (timeout timing)) \<and>
          timeout timing \<le> now w' - now w \<and>
          (\<exists>t \<in> set targets. \<exists>k. asks t l = replicate (Suc k) False))"
proof -
  have "poll_outcome (now \<circ> fst) fqdn timing (now w) targets r (w', l) l"
    using poll_loop_log [OF assms(1) [unfolded poll_until_all_confirm_def] assms(2)] by simp
  then show ?thesis
    unfolding poll_outcome_def confirmed_once_def never_confirmed_def
    by (cases r) (simp_all del: replicate_Suc)
qed

section \<open>The poll returns\<close>

lemma poll_round_Cons:
  "fst (poll_round check (t # ts) w) =
     (let rest = fst (poll_round check ts (snd (check t w))) in if fst (check t w) then rest else t # rest)"
  "snd (poll_round check (t # ts) w) = snd (poll_round check ts (snd (check t w)))"
  by (simp_all split: prod.splits)

declare poll_round.simps(2) [simp del]

lemma poll_round_now:
  assumes "\<And>t w. now w \<le> (now (snd (check t w)) :: nat)"
  shows "now w \<le> now (snd (poll_round check ts w))"
proof (induction ts arbitrary: w)
  case (Cons t ts)
  show ?case using le_trans [OF assms Cons] by (simp add: poll_round_Cons)
qed simp

lemma poll_loop_returns:
  assumes "0 < interval timing" "\<And>t w. now w \<le> now (snd (check t w))"
    and "\<And>d w. now w + d \<le> now (sleep d w)" "start \<le> now w"
  shows "\<exists>y. poll_loop now sleep check fqdn timing start ts w = Some y"
  using assms(4)
proof (induction "timeout timing + start - now w" arbitrary: ts w rule: less_induct)
  case less
  let ?r = "poll_round check ts w"
  let ?w = "sleep (interval timing) (snd ?r)"
  have clock: "now w < now ?w" "now w \<le> now (snd ?r)"
    using poll_round_now [of now check w ts, OF assms(2)] assms(1) assms(3) [of "snd ?r" "interval timing"]
    by linarith+
  show ?case
  proof (cases "fst ?r = [] \<or> timeout timing \<le> now (snd ?r) - start")
    case True
    then show ?thesis by (subst poll_loop.simps) (auto simp: Let_def)
  next
    case False
    then have "timeout timing + start - now ?w < timeout timing + start - now w"
      using clock by linarith
    from less(1) [OF this] clock less(2) False show ?thesis
      by (subst poll_loop.simps) (simp add: Let_def)
  qed
qed

text \<open>Polling returns, whatever the targets answer, as long as the poll interval is positive,
  sleeping advances the clock by the time slept and a query does not turn the clock back.\<close>

theorem poll_until_all_confirm_returns:
  assumes "0 < interval timing"
    and "\<And>t w. now w \<le> now (snd (check t w))"
    and "\<And>d w. now w + d \<le> now (sleep d w)"
  shows "\<exists>y. poll_until_all_confirm now sleep targets fqdn timing check w = Some y"
  unfolding poll_until_all_confirm_def by (rule poll_loop_returns [OF assms]) simp

theorem poll_until_all_confirm_log_witness:
  "case poll_until_all_confirm ((\<lambda>w. w) \<circ> fst) (\<lambda>d. map_prod ((+) d) id) [0, 3]
      ''_acme-challenge.example.org'' \<lparr>timeout = 10, interval = 2\<rparr>
      (logged_check (\<lambda>t w. (t \<le> w, w))) (0 :: nat, []) of
     Some (Inr _, w, l) \<Rightarrow> (\<exists>k. asks 3 l = replicate k False @ [True]) \<and> w = 4
   | _ \<Rightarrow> False"
proof -
  let ?l = "[(0 :: nat, True), (3, False), (3, False), (3, True)]"
  have run: "poll_until_all_confirm ((\<lambda>w. w) \<circ> fst) (\<lambda>d. map_prod ((+) d) id) [0, 3]
      ''_acme-challenge.example.org'' \<lparr>timeout = 10, interval = 2\<rparr>
      (logged_check (\<lambda>t w. (t \<le> w, w))) (0 :: nat, []) = Some (Inr (), 4, ?l)"
    by code_simp
  show ?thesis using poll_until_all_confirm_log [OF run] run by simp
qed

theorem poll_until_all_confirm_returns_witness:
  "\<exists>y. poll_until_all_confirm (\<lambda>w. w) (+) [(), ()] ''_acme-challenge.example.org''
     PropagationTiming_default (\<lambda>_ w. (False, w)) 0 = Some y"
proof -
  have "0 < interval PropagationTiming_default"
    by (simp add: PropagationTiming_default_def from_secs_def)
  then show ?thesis
    by (rule poll_until_all_confirm_returns) simp_all
qed

text \<open>A clock that sleeping moves on and that no query turns back.\<close>

definition advancing_clock :: "'n dns_env \<Rightarrow> bool" where
  "advancing_clock D \<longleftrightarrow>
     (\<forall>d n. dns_now D n + d \<le> dns_now D (dns_sleep D d n)) \<and>
     (\<forall>res name ty n. dns_now D n \<le> dns_now D (snd (dns_lookup D res name ty n)))"

lemma wait_for_propagation_returns:
  assumes "advancing_clock D" "0 < interval timing"
  shows "\<exists>y. wait_for_propagation D fqdn v fallback timing w = Some y"
proof -
  have "dns_now D (net w) \<le> dns_now D (net (snd (serves_value D res f v w)))" for res f w
    using assms(1) by (simp add: advancing_clock_def serves_value_def on_net_def split: prod.splits sum.splits)
      (metis snd_conv)
  then have poll: "\<exists>y. poll_until_all_confirm (\<lambda>w. dns_now D (net w))
      (\<lambda>d w. w\<lparr>net := dns_sleep D d (net w)\<rparr>) targets fqdn timing
      (\<lambda>resolver. serves_value D resolver f v) w = Some y" for targets f w
    unfolding poll_until_all_confirm_def
    by (intro poll_loop_returns) (use assms in \<open>simp_all add: advancing_clock_def\<close>)
  show ?thesis
    unfolding wait_for_propagation_def Let_def using poll by (auto split: prod.splits sum.splits)
qed

section \<open>What a finished wait has seen\<close>

lemma poll_round_seen:
  assumes "\<And>t w w'. check t w = (True, w') \<Longrightarrow> seen t w'"
    and "\<And>t u w. seen t w \<Longrightarrow> seen t (snd (check u w))"
  shows "seen t w \<Longrightarrow> seen t (snd (poll_round check ts w))"
    and "t \<in> set ts \<Longrightarrow> t \<notin> set (fst (poll_round check ts w)) \<Longrightarrow> seen t (snd (poll_round check ts w))"
proof -
  have keep: "seen t w \<Longrightarrow> seen t (snd (poll_round check ts w))" for w t ts
  proof (induction ts arbitrary: w)
    case (Cons u ts)
    obtain b w1 where c: "check u w = (b, w1)" by fastforce
    with assms(2) [OF Cons(2), of u] Cons(1) [of w1] show ?case
      by (simp add: poll_round_Cons)
  qed simp
  then show "seen t w \<Longrightarrow> seen t (snd (poll_round check ts w))" .
  show "t \<in> set ts \<Longrightarrow> t \<notin> set (fst (poll_round check ts w)) \<Longrightarrow> seen t (snd (poll_round check ts w))"
  proof (induction ts arbitrary: w)
    case (Cons u ts)
    obtain b w1 where c: "check u w = (b, w1)" by fastforce
    show ?case
    proof (cases "u = t \<and> b")
      case True
      then have "seen t w1" using assms(1) [of t w w1] c by simp
      then show ?thesis using keep [of t w1 ts] c by (simp add: poll_round_Cons)
    next
      case False
      then show ?thesis using Cons c by (auto simp: poll_round_Cons Let_def split: if_splits)
    qed
  qed simp
qed

lemma poll_loop_seen:
  assumes "poll_loop now sleep check fqdn timing start ts w = Some y"
    and "\<And>t w w'. check t w = (True, w') \<Longrightarrow> seen t w'"
    and "\<And>t u w. seen t w \<Longrightarrow> seen t (snd (check u w))"
    and "\<And>t d w. seen t w \<Longrightarrow> seen t (sleep d w)"
    and "fst y = Inr ()"
  shows "\<forall>t. t \<in> set ts \<or> seen t w \<longrightarrow> seen t (snd y)"
proof -
  have keep: "seen t w \<Longrightarrow> seen t (snd (poll_round check ts w))" for t w ts
    by (rule poll_round_seen(1)) (use assms(2,3) in auto)
  have new: "t \<in> set ts \<Longrightarrow> t \<notin> set (fst (poll_round check ts w)) \<Longrightarrow> seen t (snd (poll_round check ts w))"
    for t w ts
    by (rule poll_round_seen(2)) (use assms(2,3) in auto)
  show ?thesis
    using assms(1,5)
  proof (induction rule: poll_loop_induct)
    case (confirmed ts w)
    then show ?case using keep new [of _ ts w] by auto
  next
    case (again ts w y)
    then show ?case using keep [of _ w ts] new [of _ ts w] assms(4) by blast
  qed simp
qed

text \<open>A resolver environment that keeps a log of its questions and answers.\<close>

type_synonym 'n dns_log = "'n \<times> (TokioResolver \<times> string \<times> RecordType \<times> (string + RData list)) list"

definition logged_dns :: "'n dns_env \<Rightarrow> 'n dns_log dns_env" where
  "logged_dns D =
     \<lparr>read_system_conf = (\<lambda>(n, l). let (r, n1) = read_system_conf D n in (r, n1, l)),
      resolver_build = (\<lambda>res (n, l). let (r, n1) = resolver_build D res n in (r, n1, l)),
      dns_lookup = (\<lambda>res name ty (n, l).
        let (r, n1) = dns_lookup D res name ty n in (r, n1, l @ [(res, name, ty, r)])),
      dns_lookup_ip = (\<lambda>res name (n, l). let (r, n1) = dns_lookup_ip D res name n in (r, n1, l)),
      parse_socket_addr = parse_socket_addr D,
      dns_now = (\<lambda>(n, l). dns_now D n),
      dns_sleep = (\<lambda>d (n, l). (dns_sleep D d n, l))\<rparr>"

definition saw_value :: "string \<Rightarrow> string \<Rightarrow> TokioResolver \<Rightarrow> ('n dns_log, 'z) world_scheme \<Rightarrow> bool" where
  "saw_value f v res w \<longleftrightarrow> (\<exists>answers data.
     (res, f, TXT, Inr answers) \<in> set (snd (net w)) \<and> RD_TXT data \<in> set answers \<and> v \<in> set data)"

lemma list_ex_RD_TXT:
  "list_ex (case_RData (list_ex (\<lambda>data. data = v)) (\<lambda>_. False) False) answers \<longleftrightarrow>
     (\<exists>data. RD_TXT data \<in> set answers \<and> v \<in> set data)"
proof (induction answers)
  case (Cons a answers)
  then show ?case by (cases a) (auto simp: list_ex_iff)
qed simp

lemma serves_value_logged:
  "serves_value (logged_dns D) res f v w = (True, w') \<Longrightarrow> saw_value f v res w'"
  "saw_value f v t w \<Longrightarrow> saw_value f v t (snd (serves_value (logged_dns D) res f v w))"
  unfolding serves_value_def on_net_def logged_dns_def saw_value_def list_ex_RD_TXT
  by (auto simp: list_ex_RD_TXT split: prod.splits sum.splits)

lemma nameservers_nonempty:
  "authoritative_nameservers D f w = (Inr ns, w') \<Longrightarrow> ns \<noteq> []"
  unfolding authoritative_nameservers_def
  by (elim attempt_ok_cases) (auto split: if_splits)

text \<open>C6: when \<open>wait_for_propagation\<close> returns \<open>Ok\<close>, there was at least one server to ask and each of
  them, queried for the TXT records of the name without its trailing dots, has answered with the
  expected value. The servers are all the authoritative nameservers found for the zone; only when these
  could not be found is it the resolver built from the configured fallback addresses.\<close>

theorem wait_for_propagation_confirmed:
  assumes "wait_for_propagation (logged_dns D) fqdn v fallback timing w = Some (Inr (), w')"
  shows "\<exists>targets. targets \<noteq> [] \<and>
    (\<forall>res \<in> set targets. \<exists>answers data. (res, trim_end_matches DOT fqdn, TXT, Inr answers) \<in> set (snd (net w')) \<and>
        RD_TXT data \<in> set answers \<and> v \<in> set data) \<and>
    (case fst (authoritative_nameservers (logged_dns D) (trim_end_matches DOT fqdn) w) of
       Inr nameservers \<Rightarrow> targets = nameservers
     | Inl _ \<Rightarrow> \<exists>addrs. parse_resolvers (logged_dns D) fallback = Inr addrs \<and> targets = [ConfiguredResolver addrs])"
proof -
  let ?f = "trim_end_matches DOT fqdn"
  let ?poll = "\<lambda>targets. poll_until_all_confirm (\<lambda>w. dns_now (logged_dns D) (net w))
    (\<lambda>d w. w\<lparr>net := dns_sleep (logged_dns D) d (net w)\<rparr>) targets fqdn timing
    (\<lambda>resolver. serves_value (logged_dns D) resolver ?f v)"
  have sleep: "saw_value ?f v t w \<Longrightarrow>
      saw_value ?f v t (w\<lparr>net := dns_sleep (logged_dns D) d (net w)\<rparr>)" for t d w
    by (auto simp: saw_value_def logged_dns_def split: prod.splits)
  have seen: "\<forall>res \<in> set targets. saw_value ?f v res w'" if "?poll targets w1 = Some (Inr (), w')" for targets w1
  proof -
    have "\<forall>t. t \<in> set targets \<or> saw_value ?f v t w1 \<longrightarrow> saw_value ?f v t (snd (Inr () :: unit result, w'))"
      by (rule poll_loop_seen [OF that [unfolded poll_until_all_confirm_def]])
        (simp_all only: serves_value_logged sleep fst_conv)
    then show ?thesis by simp
  qed
  obtain a w1 where auth: "authoritative_nameservers (logged_dns D) ?f w = (a, w1)" by fastforce
  show ?thesis
  proof (cases a)
    case (Inr nameservers)
    have "?poll nameservers w1 = Some (Inr (), w')"
      using assms unfolding wait_for_propagation_def Let_def auth Inr by (simp only: prod.case sum.case)
    from seen [OF this] have "\<forall>res \<in> set nameservers. saw_value ?f v res w'" .
    moreover have "nameservers \<noteq> []" using nameservers_nonempty auth Inr by blast
    ultimately show ?thesis
      unfolding auth Inr fst_conv sum.case saw_value_def by blast
  next
    case (Inl e)
    obtain addrs w2 where addrs: "parse_resolvers (logged_dns D) fallback = Inr addrs"
      and poll: "?poll [ConfiguredResolver addrs] w2 = Some (Inr (), w')"
      using assms unfolding wait_for_propagation_def Let_def auth Inl prod.case sum.case
      by (cases "parse_resolvers (logged_dns D) fallback")
        (auto simp only: attempt_from_result build_resolver_def prod.case sum.case option.inject prod.inject
          sum.distinct split: sum.splits prod.splits)
    show ?thesis
      using seen [OF poll] addrs unfolding auth Inl fst_conv sum.case saw_value_def by force
  qed
qed

text \<open>A zone with two nameservers, the second of which serves the value only after eight nanoseconds.\<close>

definition lagging_dns :: "string \<Rightarrow> nat dns_env" where
  "lagging_dns v =
     \<lparr>read_system_conf = (\<lambda>n. (Inr (), n)), resolver_build = (\<lambda>_ n. (Inr (), n)),
      dns_lookup = (\<lambda>res name ty n.
        (case ty of
           SOA \<Rightarrow> if name = ''a.org'' then Inr [RD_Other] else Inl ''no records''
         | NS \<Rightarrow> Inr [RD_NS ''ns2.'', RD_NS ''NS1.'', RD_NS ''ns1.'']
         | TXT \<Rightarrow> if res = ConfiguredResolver [\<lparr>sa_ip = ''ns1.'', sa_port = 53\<rparr>] \<or> 8 \<le> n
             then Inr [RD_TXT [v]] else Inr [], n)),
      dns_lookup_ip = (\<lambda>_ name n. (Inr [name], n)),
      parse_socket_addr = (\<lambda>s. Inl ''invalid socket address syntax''),
      dns_now = (\<lambda>n. n), dns_sleep = (+)\<rparr>"

lemma ran_ok:
  assumes "case y of Some (Inr _, w) \<Rightarrow> P w | _ \<Rightarrow> False"
  obtains w where "y = Some (Inr (), w)" "P w"
  proof (cases y)
  case (Some rw)
  then show ?thesis using assms that by (cases rw; cases "fst rw") auto
qed (use assms in simp)

theorem wait_for_propagation_confirmed_witness:
  "case wait_for_propagation (logged_dns (lagging_dns ''v'')) ''x.a.org.'' ''v'' DEFAULT_RESOLVERS
      \<lparr>timeout = 20, interval = 5\<rparr> \<lparr>RESOLVER = None, net = (0, [])\<rparr> of
     Some (Inr _, w') \<Rightarrow>
       (\<exists>answers data. (ConfiguredResolver [\<lparr>sa_ip = ''ns2.'', sa_port = 53\<rparr>], ''x.a.org'', TXT, Inr answers)
           \<in> set (snd (net w')) \<and> RD_TXT data \<in> set answers \<and> ''v'' \<in> set data) \<and>
       fst (net w') = 10
   | _ \<Rightarrow> False"
proof -
  let ?D = "logged_dns (lagging_dns ''v'')"
  let ?w = "\<lparr>RESOLVER = None, net = (0, [])\<rparr>"
  let ?ns = "[ConfiguredResolver [\<lparr>sa_ip = ''ns1.'', sa_port = 53\<rparr>],
              ConfiguredResolver [\<lparr>sa_ip = ''ns2.'', sa_port = 53\<rparr>]]"
  have name: "trim_end_matches DOT ''x.a.org.'' = ''x.a.org''" by code_simp
  have ns: "fst (authoritative_nameservers ?D ''x.a.org'' ?w) = Inr ?ns" by code_simp
  have "case wait_for_propagation ?D ''x.a.org.'' ''v'' DEFAULT_RESOLVERS \<lparr>timeout = 20, interval = 5\<rparr> ?w of
      Some (Inr _, w') \<Rightarrow> fst (net w') = 10 | _ \<Rightarrow> False"
    by code_simp
  then obtain w' where run: "wait_for_propagation ?D ''x.a.org.'' ''v'' DEFAULT_RESOLVERS
      \<lparr>timeout = 20, interval = 5\<rparr> ?w = Some (Inr (), w')" "fst (net w') = 10"
    by (rule ran_ok)
  have "\<exists>answers data. (res, ''x.a.org'', TXT, Inr answers) \<in> set (snd (net w')) \<and>
      RD_TXT data \<in> set answers \<and> ''v'' \<in> set data" if "res \<in> set ?ns" for res
    using wait_for_propagation_confirmed [OF run(1), unfolded name ns sum.case] that by blast
  from this [of "?ns ! 1"] show ?thesis
    unfolding run(1) option.case prod.case sum.case run(2) by simp
qed

end
