(* ===== verification/Cleanup_Guard.thy ===== *)
theory Cleanup_Guard
  imports Dns_Error
begin

text \<open>
  Teardown that survives cancellation (\<open>cleanup.rs\<close>). \<open>run\<close> is the completed future; \<open>guard_step\<close> is the
  same code at the granularity of its await points, with the future dropped at any of them and the task
  that \<open>Drop\<close> spawns.
\<close>

section \<open>The guard\<close>

record ('t, 'w) CleanupGuard =
  pending :: "'t list"
  cleanup_fn :: "'t \<Rightarrow> 'w \<Rightarrow> 'w"

definition CleanupGuard_new :: "('t \<Rightarrow> 'w \<Rightarrow> 'w) \<Rightarrow> ('t, 'w) CleanupGuard" where
  "CleanupGuard_new f = \<lparr>pending = [], cleanup_fn = f\<rparr>"

definition push :: "('t, 'w) CleanupGuard \<Rightarrow> 't \<Rightarrow> ('t, 'w) CleanupGuard" where
  "push g item = g\<lparr>pending := pending g @ [item]\<rparr>"

function run :: "('t, 'w) CleanupGuard \<Rightarrow> 'w \<Rightarrow> ('t, 'w) CleanupGuard \<times> 'w" where
  "run g w =
     (case pending g of
        [] \<Rightarrow> (g, w)
      | item # rest \<Rightarrow> run (g\<lparr>pending := rest\<rparr>) (cleanup_fn g item w))"
  by pat_completeness auto
termination by (relation "measure (\<lambda>(g, w). length (pending g))") auto

declare run.simps [simp del]

text \<open>
  \<open>drop\<close> on a guard with these pending items gives the list the spawned task works through, or
  \<open>None\<close> when nothing is spawned.
\<close>

definition drop_guard :: "bool \<Rightarrow> 't list \<Rightarrow> 't list option" where
  "drop_guard has_runtime items =
     (if items = [] then None else if \<not> has_runtime then None else Some items)"

lemma pending_push [simp]: "pending (push g x) = pending g @ [x]" "cleanup_fn (push g x) = cleanup_fn g"
  by (simp_all add: push_def)

lemma run_fold: "run g w = (g\<lparr>pending := []\<rparr>, fold (cleanup_fn g) (pending g) w)"
proof (induction g w rule: run.induct)
  case (1 g w)
  then show ?case by (cases "pending g") (simp_all add: run.simps [of g w])
qed

section \<open>Cancellation\<close>

text \<open>
  An execution is in the solving future (\<open>Live\<close>) or, after the future was dropped, in the spawned task
  (\<open>Spawned\<close>); \<open>Abandoned\<close> is a drop without a runtime. The flag says whether the cleanup of the first
  item has been started and is awaited. The log has the cleanups started and completed.
\<close>

datatype 't guard_state = Live "'t list" bool | Spawned "'t list" bool | Abandoned "'t list"

datatype 't guard_event = Started 't | Completed 't

inductive guard_step ::
  "bool \<Rightarrow> 't guard_state \<times> 't guard_event list \<Rightarrow> 't guard_state \<times> 't guard_event list \<Rightarrow> bool"
  for has_runtime :: bool where
  run_first: "guard_step has_runtime (Live (item # rest) False, l) (Live (item # rest) True, l @ [Started item])"
| run_remove: "guard_step has_runtime (Live (item # rest) True, l) (Live rest False, l @ [Completed item])"
| drop_spawns: "drop_guard has_runtime items = Some todo \<Longrightarrow>
    guard_step has_runtime (Live items fl, l) (Spawned todo False, l)"
| drop_no_runtime: "items \<noteq> [] \<Longrightarrow> drop_guard has_runtime items = None \<Longrightarrow>
    guard_step has_runtime (Live items fl, l) (Abandoned items, l)"
| task_start: "guard_step has_runtime (Spawned (item # rest) False, l) (Spawned (item # rest) True, l @ [Started item])"
| task_next: "guard_step has_runtime (Spawned (item # rest) True, l) (Spawned rest False, l @ [Completed item])"

inductive_cases live_stepE: "guard_step rt (Live items fl, l) s'"
inductive_cases spawned_stepE: "guard_step rt (Spawned items fl, l) s'"
inductive_simps abandoned_step [simp]: "guard_step rt (Abandoned items, l) s'"

definition runs_from :: "bool \<Rightarrow> 't list \<Rightarrow> 't guard_state \<Rightarrow> 't guard_event list \<Rightarrow> bool" where
  "runs_from has_runtime items s l \<longleftrightarrow> (guard_step has_runtime)\<^sup>*\<^sup>* (Live items False, []) (s, l)"

fun remaining :: "'t guard_state \<Rightarrow> 't list" where
  "remaining (Live items _) = items"
| "remaining (Spawned items _) = items"
| "remaining (Abandoned items) = items"

fun completed :: "'t guard_event list \<Rightarrow> 't list" where
  "completed [] = []"
| "completed (Completed x # l) = x # completed l"
| "completed (Started x # l) = completed l"

fun started :: "'t guard_event list \<Rightarrow> 't list" where
  "started [] = []"
| "started (Started x # l) = x # started l"
| "started (Completed x # l) = started l"

lemma completed_append [simp]: "completed (l @ m) = completed l @ completed m"
  by (induction l rule: completed.induct) simp_all

lemma started_append [simp]: "started (l @ m) = started l @ started m"
  by (induction l rule: started.induct) simp_all

lemma drop_guard_Some [simp]:
  "drop_guard rt items = Some todo \<longleftrightarrow> items \<noteq> [] \<and> rt \<and> todo = items"
  "drop_guard rt items = None \<longleftrightarrow> items = [] \<or> \<not> rt"
  by (auto simp: drop_guard_def)

lemma guard_step_keeps:
  "guard_step rt (s, l) (s', l') \<Longrightarrow> completed l' @ remaining s' = completed l @ remaining s"
  by (cases rule: guard_step.cases) auto

lemma guard_step_not_abandoned:
  "guard_step rt (s, l) (s', l') \<Longrightarrow> rt \<Longrightarrow> s' \<noteq> Abandoned items"
  by (cases rule: guard_step.cases) auto

lemma guard_step_progress:
  assumes "remaining s \<noteq> []" "\<nexists>items. s = Abandoned items"
  shows "\<exists>c. guard_step rt (s, l) c"
proof (cases s)
  case (Live items fl)
  with assms show ?thesis by (cases items; cases fl) (auto intro: guard_step.intros)
next
  case (Spawned items fl)
  with assms show ?thesis by (cases items; cases fl) (auto intro: guard_step.intros)
qed (use assms in auto)

text \<open>Every step lowers this measure, so every execution ends.\<close>

fun guard_measure :: "'t guard_state \<Rightarrow> nat" where
  "guard_measure (Live items fl) = 4 * length items + (if fl then 0 else 1)"
| "guard_measure (Spawned items fl) = 2 * length items + (if fl then 0 else 1)"
| "guard_measure (Abandoned items) = 0"

lemma guard_step_measure:
  "guard_step rt (s, l) (s', l') \<Longrightarrow> guard_measure s' < guard_measure s"
  by (cases rule: guard_step.cases) (auto simp: neq_Nil_conv)

text \<open>C5: a guard with a runtime loses nothing. However often and wherever the future is interrupted,
  the items whose cleanup completed, followed by the items still to do, are the pushed items in order;
  an execution that can go no further has completed every item exactly once, and no execution is
  infinite.\<close>

theorem guard_nothing_lost:
  fixes items :: "'t list"
  assumes "runs_from has_runtime items s l"
  shows "completed l @ remaining s = items
     \<and> (has_runtime \<and> (\<nexists>c. guard_step has_runtime (s, l) c) \<longrightarrow> completed l = items)
     \<and> wfP (\<lambda>c' c :: 't guard_state \<times> 't guard_event list. guard_step has_runtime c c')"
proof -
  have "completed l @ remaining s = items \<and> (has_runtime \<longrightarrow> (\<nexists>items. s = Abandoned items))"
    using assms unfolding runs_from_def
  proof (induction "(s, l)" arbitrary: s l rule: rtranclp_induct)
    case (step c)
    obtain t m where c: "c = (t, m)" by fastforce
    from step(2) c have "guard_step has_runtime (t, m) (s, l)" by simp
    from guard_step_keeps [OF this] guard_step_not_abandoned [OF this] step(3) [OF c] show ?case
      by metis
  qed simp
  then have inv: "completed l @ remaining s = items" "has_runtime \<Longrightarrow> \<nexists>items. s = Abandoned items"
    by blast+
  have "guard_measure (fst c') < guard_measure (fst c)" if "guard_step has_runtime c c'" for c c' :: "'t guard_state \<times> 't guard_event list"
    using that guard_step_measure [of has_runtime "fst c" "snd c" "fst c'" "snd c'"] by simp
  then have "wfP (\<lambda>c' c :: 't guard_state \<times> 't guard_event list. guard_step has_runtime c c')"
    by (rule wfp_if_convertible_to_nat)
  moreover have "completed l = items" if "has_runtime" "\<nexists>c. guard_step has_runtime (s, l) c"
  proof -
    have "remaining s = []" using guard_step_progress inv(2) that by blast
    with inv(1) show ?thesis by simp
  qed
  ultimately show ?thesis using inv(1) by blast
qed

theorem guard_nothing_lost_witness:
  "completed [Started ''a'', Started ''a'', Completed ''a'', Started ''b'', Completed ''b''] = [''a'', ''b'']
   \<and> runs_from True [''a'', ''b''] (Spawned [] False)
       [Started ''a'', Started ''a'', Completed ''a'', Started ''b'', Completed ''b'']"
proof -
  let ?l = "[Started ''a'', Started ''a'', Completed ''a'', Started ''b'', Completed ''b'']"
  have s1: "guard_step True (Live [''a'', ''b''] False, []) (Live [''a'', ''b''] True, [] @ [Started ''a''])"
    by (rule run_first)
  have s2: "guard_step True (Live [''a'', ''b''] True, [] @ [Started ''a'']) (Spawned [''a'', ''b''] False, [] @ [Started ''a''])"
    by (rule drop_spawns) simp
  have s3: "guard_step True (Spawned [''a'', ''b''] False, [] @ [Started ''a'']) (Spawned [''a'', ''b''] True, take 2 ?l)"
    using task_start [of True "''a''" "[''b'']" "[Started ''a'']"] by simp
  have s4: "guard_step True (Spawned [''a'', ''b''] True, take 2 ?l) (Spawned [''b''] False, take 3 ?l)"
    using task_next [of True "''a''" "[''b'']" "take 2 ?l"] by simp
  have s5: "guard_step True (Spawned [''b''] False, take 3 ?l) (Spawned [''b''] True, take 4 ?l)"
    using task_start [of True "''b''" "[]" "take 3 ?l"] by simp
  have s6: "guard_step True (Spawned [''b''] True, take 4 ?l) (Spawned [] False, ?l)"
    using task_next [of True "''b''" "[]" "take 4 ?l"] by simp
  note snoc = rtranclp.rtrancl_into_rtrancl [where r = "guard_step True"]
  have run: "runs_from True [''a'', ''b''] (Spawned [] False) ?l"
    unfolding runs_from_def
    by (rule snoc [OF snoc [OF snoc [OF snoc [OF snoc [OF snoc [OF rtranclp.rtrancl_refl s1] s2] s3] s4] s5] s6])
  from guard_nothing_lost [OF run] run show ?thesis by simp
qed

end
