(* ===== verification/Dns01_Solver.thy ===== *)
theory Dns01_Solver
  imports Propagation Cleanup_Guard
begin

text \<open>
  The DNS-01 orchestrator (\<open>solver.rs\<close>, without the production driver): the driver interface, the
  builder methods, presenting every record, waiting, setting ready, finalizing, and cleaning up on every
  path. A driver may yield challenges for ever, so the solver is a partial function.
\<close>

section \<open>Challenges and drivers\<close>

record Dns01Challenge =
  domain :: string
  chal_fqdn :: string
  dns_value :: string
  token :: nat

record 'w ChallengeDriver =
  next_dns01 :: "'w \<Rightarrow> Dns01Challenge result option \<times> 'w"
  set_ready :: "nat list \<Rightarrow> ('w, unit) io"
  finalize :: "('w, string \<times> string) io"

record PlacedRecord =
  rec_fqdn :: string
  rec_value :: string

text \<open>What the solver uses of the rest of the crate and of the runtime: the propagation wait and sleeping.\<close>

record 'w solver_env =
  propagation_wait ::
    "string \<Rightarrow> string \<Rightarrow> string list \<Rightarrow> PropagationTiming \<Rightarrow> 'w \<Rightarrow> (unit result \<times> 'w) option"
  tokio_sleep :: "duration \<Rightarrow> 'w \<Rightarrow> 'w"

definition production_env :: "'n dns_env \<Rightarrow> ('n, 'z) world_scheme solver_env" where
  "production_env D =
     \<lparr>propagation_wait = wait_for_propagation D,
      tokio_sleep = (\<lambda>d w. w\<lparr>net := dns_sleep D d (net w)\<rparr>)\<rparr>"

section \<open>The solver and its builder methods\<close>

record 'w Dns01Solver =
  provider :: "'w DnsProvider"
  fallback_resolvers :: "string list"
  timing_override :: "PropagationTiming option"
  skip_propagation :: "duration option"
  cleanup_hook :: "(string \<Rightarrow> DnsError \<Rightarrow> 'w \<Rightarrow> 'w) option"

definition Dns01Solver_new :: "'w DnsProvider \<Rightarrow> 'w Dns01Solver" where
  "Dns01Solver_new p =
     \<lparr>provider = p, fallback_resolvers = DEFAULT_RESOLVERS, timing_override = None,
      skip_propagation = None, cleanup_hook = None\<rparr>"

definition with_resolvers :: "'w Dns01Solver \<Rightarrow> string list \<Rightarrow> 'w Dns01Solver" where
  "with_resolvers s resolvers = s\<lparr>fallback_resolvers := resolvers\<rparr>"

definition get_or_insert_default :: "PropagationTiming option \<Rightarrow> PropagationTiming" where
  "get_or_insert_default t = (case t of None \<Rightarrow> PropagationTiming_default | Some t \<Rightarrow> t)"

definition with_timeout :: "'w Dns01Solver \<Rightarrow> duration \<Rightarrow> 'w Dns01Solver" where
  "with_timeout s d =
     s\<lparr>timing_override := Some ((get_or_insert_default (timing_override s))\<lparr>timeout := d\<rparr>)\<rparr>"

definition with_interval :: "'w Dns01Solver \<Rightarrow> duration \<Rightarrow> 'w Dns01Solver" where
  "with_interval s d =
     s\<lparr>timing_override := Some ((get_or_insert_default (timing_override s))\<lparr>interval := d\<rparr>)\<rparr>"

definition skip_propagation_check :: "'w Dns01Solver \<Rightarrow> duration \<Rightarrow> 'w Dns01Solver" where
  "skip_propagation_check s delay = s\<lparr>skip_propagation := Some delay\<rparr>"

definition on_cleanup_error ::
  "'w Dns01Solver \<Rightarrow> (string \<Rightarrow> DnsError \<Rightarrow> 'w \<Rightarrow> 'w) \<Rightarrow> 'w Dns01Solver" where
  "on_cleanup_error s hook = s\<lparr>cleanup_hook := Some hook\<rparr>"

definition effective_timing :: "'w Dns01Solver \<Rightarrow> PropagationTiming" where
  "effective_timing s =
     (case timing_override s of None \<Rightarrow> provider_timing (provider s) | Some t \<Rightarrow> t)"

section \<open>Solving\<close>

definition cleanup_guard :: "'w Dns01Solver \<Rightarrow> (PlacedRecord, 'w) CleanupGuard" where
  "cleanup_guard s = CleanupGuard_new (\<lambda>record w.
     case cleanup (provider s) (rec_fqdn record) (rec_value record) w of
       (Inr _, w1) \<Rightarrow> w1
     | (Inl e, w1) \<Rightarrow> (case cleanup_hook s of None \<Rightarrow> w1 | Some hook \<Rightarrow> hook (rec_fqdn record) e w1))"

partial_function (option) present_loop ::
  "'w Dns01Solver \<Rightarrow> 'w ChallengeDriver \<Rightarrow> (PlacedRecord, 'w) CleanupGuard \<Rightarrow> nat list \<Rightarrow> 'w \<Rightarrow>
   (nat list result \<times> (PlacedRecord, 'w) CleanupGuard \<times> 'w) option" where
  [code]: "present_loop s driver placed tokens w =
     (let yielded = next_dns01 driver w in
      case fst yielded of
        None \<Rightarrow> Some (Inr tokens, placed, snd yielded)
      | Some res \<Rightarrow>
          (case res of
             Inl e \<Rightarrow> Some (Inl e, placed, snd yielded)
           | Inr challenge \<Rightarrow>
               (let placed = push placed
                      \<lparr>rec_fqdn = chal_fqdn challenge, rec_value = dns_value challenge\<rparr>;
                    presented = present (provider s) (chal_fqdn challenge) (dns_value challenge) (snd yielded)
                in case fst presented of
                     Inl e \<Rightarrow> Some (Inl e, placed, snd presented)
                   | Inr _ \<Rightarrow> present_loop s driver placed (tokens @ [token challenge]) (snd presented))))"

fun wait_all ::
  "'w solver_env \<Rightarrow> 'w Dns01Solver \<Rightarrow> PlacedRecord list \<Rightarrow> 'w \<Rightarrow> (unit result \<times> 'w) option" where
  "wait_all E s [] w = Some (Inr (), w)"
| "wait_all E s (record # records) w =
     (case propagation_wait E (rec_fqdn record) (rec_value record) (fallback_resolvers s)
             (effective_timing s) w of
        None \<Rightarrow> None
      | Some (Inl e, w1) \<Rightarrow> Some (Inl e, w1)
      | Some (Inr _, w1) \<Rightarrow> wait_all E s records w1)"

definition present_then_ready ::
  "'w solver_env \<Rightarrow> 'w Dns01Solver \<Rightarrow> 'w ChallengeDriver \<Rightarrow> (PlacedRecord, 'w) CleanupGuard \<Rightarrow> 'w \<Rightarrow>
   (unit result \<times> (PlacedRecord, 'w) CleanupGuard \<times> 'w) option" where
  "present_then_ready E s driver placed w =
     (case present_loop s driver placed [] w of
        None \<Rightarrow> None
      | Some (Inl e, placed, w1) \<Rightarrow> Some (Inl e, placed, w1)
      | Some (Inr tokens, placed, w1) \<Rightarrow>
          (case (case skip_propagation s of
                   Some delay \<Rightarrow> Some (Inr (), tokio_sleep E delay w1)
                 | None \<Rightarrow> wait_all E s (pending placed) w1) of
             None \<Rightarrow> None
           | Some (Inl e, w2) \<Rightarrow> Some (Inl e, placed, w2)
           | Some (Inr _, w2) \<Rightarrow>
               (case set_ready driver tokens w2 of (r, w3) \<Rightarrow> Some (r, placed, w3))))"

definition solve_with_driver ::
  "'w solver_env \<Rightarrow> 'w Dns01Solver \<Rightarrow> 'w ChallengeDriver \<Rightarrow> 'w \<Rightarrow> ((string \<times> string) result \<times> 'w) option" where
  "solve_with_driver E s driver w =
     (case present_then_ready E s driver (cleanup_guard s) w of
        None \<Rightarrow> None
      | Some (r, placed, w1) \<Rightarrow>
          (case (case r of Inr _ \<Rightarrow> finalize driver w1 | Inl e \<Rightarrow> (Inl e, w1)) of
             (outcome, w2) \<Rightarrow> Some (outcome, snd (run placed w2))))"

end
