(* ===== verification/Solver_Trace.thy ===== *)
theory Solver_Trace
  imports Dns01_Solver
begin

text \<open>
  What a run of the DNS-01 solver does, as the sequence of its calls. The calls of an arbitrary
  provider, driver, wait and hook are recorded beside the world they act on; the theorems relate the
  recorded sequence to the result.
\<close>

section \<open>Recording the calls\<close>

datatype solver_event =
    Yielded "Dns01Challenge result option"
  | Presented string string "unit result"
  | Awaited string string "unit result"
  | Slept duration
  | Readied "nat list" "unit result"
  | Finalized "(string \<times> string) result"
  | Cleaned string string "unit result"
  | Hooked string DnsError

type_synonym 'w traced = "'w \<times> solver_event list"

definition record_call :: "('w \<Rightarrow> 'r \<times> 'w) \<Rightarrow> ('r \<Rightarrow> solver_event) \<Rightarrow> 'w traced \<Rightarrow> 'r \<times> 'w traced" where
  "record_call m ev wl = (let (r, w) = m (fst wl) in (r, w, snd wl @ [ev r]))"

definition traced_provider :: "'w DnsProvider \<Rightarrow> 'w traced DnsProvider" where
  "traced_provider p =
     \<lparr>present = (\<lambda>f v. record_call (present p f v) (Presented f v)),
      cleanup = (\<lambda>f v. record_call (cleanup p f v) (Cleaned f v)),
      provider_timing = provider_timing p\<rparr>"

definition traced_driver :: "'w ChallengeDriver \<Rightarrow> 'w traced ChallengeDriver" where
  "traced_driver d =
     \<lparr>next_dns01 = record_call (next_dns01 d) Yielded,
      set_ready = (\<lambda>tokens. record_call (set_ready d tokens) (Readied tokens)),
      finalize = record_call (finalize d) Finalized\<rparr>"

definition traced_env :: "'w solver_env \<Rightarrow> 'w traced solver_env" where
  "traced_env E =
     \<lparr>propagation_wait = (\<lambda>f v rs t wl.
        map_option (\<lambda>(r, w). (r, w, snd wl @ [Awaited f v r])) (propagation_wait E f v rs t (fst wl))),
      tokio_sleep = (\<lambda>d wl. (tokio_sleep E d (fst wl), snd wl @ [Slept d]))\<rparr>"

definition traced_solver :: "'w Dns01Solver \<Rightarrow> 'w traced Dns01Solver" where
  "traced_solver s =
     \<lparr>provider = traced_provider (provider s), fallback_resolvers = fallback_resolvers s,
      timing_override = timing_override s, skip_propagation = skip_propagation s,
      cleanup_hook = map_option (\<lambda>hook f e wl. (hook f e (fst wl), snd wl @ [Hooked f e])) (cleanup_hook s)\<rparr>"

section \<open>Reading a trace\<close>

fun challenges :: "solver_event list \<Rightarrow> Dns01Challenge list" where
  "challenges [] = []"
| "challenges (Yielded (Some (Inr c)) # l) = c # challenges l"
| "challenges (_ # l) = challenges l"

fun presented :: "solver_event list \<Rightarrow> (string \<times> string) list" where
  "presented [] = []"
| "presented (Presented f v _ # l) = (f, v) # presented l"
| "presented (_ # l) = presented l"

fun cleaned :: "solver_event list \<Rightarrow> (string \<times> string) list" where
  "cleaned [] = []"
| "cleaned (Cleaned f v _ # l) = (f, v) # cleaned l"
| "cleaned (_ # l) = cleaned l"

fun is_teardown :: "solver_event \<Rightarrow> bool" where
  "is_teardown (Cleaned _ _ _) = True"
| "is_teardown (Hooked _ _) = True"
| "is_teardown _ = False"

fun failure :: "solver_event \<Rightarrow> DnsError option" where
  "failure (Yielded (Some (Inl e))) = Some e"
| "failure (Presented _ _ (Inl e)) = Some e"
| "failure (Awaited _ _ (Inl e)) = Some e"
| "failure (Readied _ (Inl e)) = Some e"
| "failure (Finalized (Inl e)) = Some e"
| "failure _ = None"

lemma challenges_append [simp]: "challenges (l @ m) = challenges l @ challenges m"
  by (induction l rule: challenges.induct) simp_all

lemma presented_append [simp]: "presented (l @ m) = presented l @ presented m"
  by (induction l rule: presented.induct) simp_all

lemma cleaned_append [simp]: "cleaned (l @ m) = cleaned l @ cleaned m"
  by (induction l rule: cleaned.induct) simp_all

abbreviation chal_record :: "Dns01Challenge \<Rightarrow> PlacedRecord" where
  "chal_record c \<equiv> \<lparr>rec_fqdn = chal_fqdn c, rec_value = dns_value c\<rparr>"

section \<open>Presenting\<close>

lemma present_loop_induct [consumes 1, case_names exhausted driver_error present_error again]:
  assumes "present_loop s d g ts w = Some y"
    and "\<And>g ts w w1. next_dns01 d w = (None, w1) \<Longrightarrow> P g ts w (Inr ts, g, w1)"
    and "\<And>g ts w w1 e. next_dns01 d w = (Some (Inl e), w1) \<Longrightarrow> P g ts w (Inl e, g, w1)"
    and "\<And>g ts w w1 w2 c e. next_dns01 d w = (Some (Inr c), w1) \<Longrightarrow>
      present (provider s) (chal_fqdn c) (dns_value c) w1 = (Inl e, w2) \<Longrightarrow>
      P g ts w (Inl e, push g (chal_record c), w2)"
    and "\<And>g ts w w1 w2 c y. next_dns01 d w = (Some (Inr c), w1) \<Longrightarrow>
      present (provider s) (chal_fqdn c) (dns_value c) w1 = (Inr (), w2) \<Longrightarrow>
      P (push g (chal_record c)) (ts @ [token c]) w2 y \<Longrightarrow> P g ts w y"
  shows "P g ts w y"
proof -
  have "s = s \<and> d = d \<longrightarrow> P g ts w y"
  proof (rule present_loop.raw_induct [OF _ assms(1), where
        P = "\<lambda>s' d' g ts w y. s' = s \<and> d' = d \<longrightarrow> P g ts w y"], intro impI, elim conjE, hypsubst)
    fix loop :: "'a Dns01Solver \<Rightarrow> 'a ChallengeDriver \<Rightarrow> _" and g ts w y
    assume IH: "\<And>s' d' g ts w y. loop s' d' g ts w = Some y \<Longrightarrow> s' = s \<and> d' = d \<longrightarrow> P g ts w y"
    obtain n w1 where n: "next_dns01 d w = (n, w1)" by fastforce
    assume body: "(let yielded = next_dns01 d w in
      case fst yielded of None \<Rightarrow> Some (Inr ts, g, snd yielded)
      | Some (Inl e) \<Rightarrow> Some (Inl e, g, snd yielded)
      | Some (Inr challenge) \<Rightarrow>
          let g = push g (chal_record challenge);
              presented = present (provider s) (chal_fqdn challenge) (dns_value challenge) (snd yielded)
          in case fst presented of Inl e \<Rightarrow> Some (Inl e, g, snd presented)
             | Inr _ \<Rightarrow> loop s d g (ts @ [token challenge]) (snd presented)) = Some y"
    show "P g ts w y"
    proof (cases n)
      case None
      with body n assms(2) show ?thesis by auto
    next
      case (Some r)
      show ?thesis
      proof (cases r)
        case (Inl e)
        with body n Some assms(3) show ?thesis by auto
      next
        case (Inr c)
        obtain x w2 where p: "present (provider s) (chal_fqdn c) (dns_value c) w1 = (x, w2)" by fastforce
        with body n Some Inr IH assms(4,5) show ?thesis by (cases x) (auto simp: Let_def)
      qed
    qed
  qed
  then show ?thesis by simp
qed

text \<open>
  \<open>ends_with r l\<close>: the run recorded in \<open>l\<close> stops at its first failing call with that call's error, or
  has no failing call.
\<close>

definition no_failure :: "solver_event list \<Rightarrow> bool" where
  "no_failure l \<longleftrightarrow> list_all (\<lambda>e. failure e = None) l"

definition ends_with :: "'a result \<Rightarrow> solver_event list \<Rightarrow> bool" where
  "ends_with r l \<longleftrightarrow>
     (case r of Inr _ \<Rightarrow> no_failure l | Inl e \<Rightarrow> l \<noteq> [] \<and> no_failure (butlast l) \<and> failure (last l) = Some e)"

lemma no_failure_simps [simp]:
  "no_failure []" "no_failure (e # l) \<longleftrightarrow> failure e = None \<and> no_failure l"
  "no_failure (l @ m) \<longleftrightarrow> no_failure l \<and> no_failure m"
  by (simp_all add: no_failure_def)

lemma ends_with_append: "no_failure l \<Longrightarrow> ends_with r m \<Longrightarrow> ends_with r (l @ m)"
  by (auto simp: ends_with_def butlast_append split: sum.splits)

lemma ends_with_Inl:
  assumes "ends_with (Inl e) l"
  obtains m x where "l = m @ [x]" "failure x = Some e" "no_failure m"
  using assms that [of "butlast l" "last l"] by (simp add: ends_with_def)

lemma ends_with_simps [simp]:
  "ends_with (Inr x) l \<longleftrightarrow> no_failure l"
  "ends_with (Inl e) [ev] \<longleftrightarrow> failure ev = Some e"
  by (simp_all add: ends_with_def)

fun is_placing :: "solver_event \<Rightarrow> bool" where
  "is_placing (Yielded _) = True"
| "is_placing (Presented _ _ _) = True"
| "is_placing _ = False"

definition placing ::
  "solver_event list \<Rightarrow> (PlacedRecord, 'w) CleanupGuard \<Rightarrow> nat list \<Rightarrow> nat list result \<Rightarrow> (PlacedRecord, 'w) CleanupGuard \<Rightarrow> bool" where
  "placing ev g ts r g' \<longleftrightarrow>
     cleanup_fn g' = cleanup_fn g \<and> pending g' = pending g @ map chal_record (challenges ev) \<and>
     presented ev = map (\<lambda>c. (chal_fqdn c, dns_value c)) (challenges ev) \<and>
     list_all is_placing ev \<and> ends_with r ev \<and>
     (\<forall>ts'. r = Inr ts' \<longrightarrow> ts' = ts @ map token (challenges ev))"

lemma record_call_run [simp]: "record_call m ev (w, l) = (fst (m w), snd (m w), l @ [ev (fst (m w))])"
  by (simp add: record_call_def split: prod.splits)

lemma traced_simps [simp]:
  "next_dns01 (traced_driver d) = record_call (next_dns01 d) Yielded"
  "set_ready (traced_driver d) tokens = record_call (set_ready d tokens) (Readied tokens)"
  "finalize (traced_driver d) = record_call (finalize d) Finalized"
  "present (provider (traced_solver s)) f v = record_call (present (provider s) f v) (Presented f v)"
  "cleanup (provider (traced_solver s)) f v = record_call (cleanup (provider s) f v) (Cleaned f v)"
  "skip_propagation (traced_solver s) = skip_propagation s"
  "fallback_resolvers (traced_solver s) = fallback_resolvers s"
  "effective_timing (traced_solver s) = effective_timing s"
  by (simp_all add: traced_driver_def traced_solver_def traced_provider_def effective_timing_def
      split: option.splits)

lemma present_loop_trace:
  assumes "present_loop (traced_solver s) (traced_driver d) g ts wl = Some y"
  shows "\<exists>ev. snd (snd (snd y)) = snd wl @ ev \<and> placing ev g ts (fst y) (fst (snd y))"
  using assms
proof (induction rule: present_loop_induct)
  case (exhausted g ts wl w1)
  then show ?case
    by (cases wl) (auto simp: placing_def intro!: exI [of _ "[Yielded None]"])
next
  case (driver_error g ts wl w1 e)
  then show ?case
    by (cases wl) (auto simp: placing_def intro!: exI [of _ "[Yielded (Some (Inl e))]"])
next
  case (present_error g ts wl w1 w2 c e)
  then show ?case
    by (cases wl; cases w1) (auto simp: placing_def ends_with_def
        intro!: exI [of _ "[Yielded (Some (Inr c)), Presented (chal_fqdn c) (dns_value c) (Inl e)]"])
next
  case (again g ts wl w1 w2 c y)
  let ?ev = "[Yielded (Some (Inr c)), Presented (chal_fqdn c) (dns_value c) (Inr ())]"
  from again obtain ev where ev: "snd (snd (snd y)) = snd w2 @ ev"
    "placing ev (push g (chal_record c)) (ts @ [token c]) (fst y) (fst (snd y))" by blast
  have "snd w2 = snd wl @ ?ev" using again(1,2) by (cases wl; cases w1) auto
  moreover have "placing (?ev @ ev) g ts (fst y) (fst (snd y))"
    using ev(2) ends_with_append [of ?ev "fst y" ev] by (auto simp: placing_def)
  ultimately show ?case using ev(1) by (intro exI [of _ "?ev @ ev"]) simp
qed

section \<open>Waiting\<close>

lemma wait_all_trace:
  assumes "wait_all (traced_env E) s rs wl = Some (r, wl')"
  shows "\<exists>ev. snd wl' = snd wl @ ev \<and> ends_with r ev \<and>
    (\<forall>e \<in> set ev. \<exists>f v x. e = Awaited f v x) \<and>
    (r = Inr () \<longrightarrow> ev = map (\<lambda>p. Awaited (rec_fqdn p) (rec_value p) (Inr ())) rs)"
  using assms
proof (induction rs arbitrary: wl)
  case (Cons p rs)
  let ?wait = "propagation_wait E (rec_fqdn p) (rec_value p) (fallback_resolvers s) (effective_timing s) (fst wl)"
  obtain x w1 where w: "?wait = Some (x, w1)"
    using Cons(2) by (cases ?wait) (auto simp: traced_env_def)
  show ?case
  proof (cases x)
    case (Inl e)
    with Cons(2) w show ?thesis
      by (auto simp: traced_env_def intro!: exI [of _ "[Awaited (rec_fqdn p) (rec_value p) x]"])
  next
    case (Inr u)
    let ?a = "Awaited (rec_fqdn p) (rec_value p) (Inr ())"
    from Cons(2) w Inr have "wait_all (traced_env E) s rs (w1, snd wl @ [?a]) = Some (r, wl')"
      by (simp add: traced_env_def)
    from Cons(1) [OF this] obtain ev where "snd wl' = (snd wl @ [?a]) @ ev" "ends_with r ev"
      "\<forall>e \<in> set ev. \<exists>f v x. e = Awaited f v x"
      "r = Inr () \<longrightarrow> ev = map (\<lambda>p. Awaited (rec_fqdn p) (rec_value p) (Inr ())) rs" by auto
    then show ?thesis
      using ends_with_append [of "[?a]" r ev] by (intro exI [of _ "?a # ev"]) auto
  qed
qed auto

section \<open>Tearing down\<close>

definition teardown_of :: "PlacedRecord list \<Rightarrow> bool \<Rightarrow> solver_event list \<Rightarrow> bool" where
  "teardown_of rs hooked ev \<longleftrightarrow> list_all is_teardown ev \<and>
     cleaned ev = map (\<lambda>p. (rec_fqdn p, rec_value p)) rs \<and>
     (\<forall>f e. Hooked f e \<in> set ev \<longleftrightarrow> hooked \<and> (\<exists>v. Cleaned f v (Inl e) \<in> set ev))"

lemma run_trace:
  "\<exists>ev. snd (fold (cleanup_fn (cleanup_guard (traced_solver s))) rs wl) = snd wl @ ev \<and>
     teardown_of rs (cleanup_hook s \<noteq> None) ev"
proof (induction rs arbitrary: wl)
  case (Cons p rs)
  let ?f = "cleanup_fn (cleanup_guard (traced_solver s))"
  let ?r = "fst (cleanup (provider s) (rec_fqdn p) (rec_value p) (fst wl))"
  let ?c = "Cleaned (rec_fqdn p) (rec_value p) ?r"
  let ?h = "case ?r of Inl e \<Rightarrow> if cleanup_hook s = None then [] else [Hooked (rec_fqdn p) e] | Inr _ \<Rightarrow> []"
  have "snd (?f p wl) = snd wl @ ?c # ?h"
    by (cases wl) (auto simp: cleanup_guard_def CleanupGuard_new_def traced_solver_def traced_provider_def
        split: sum.splits option.splits)
  moreover obtain ev where "snd (fold ?f rs (?f p wl)) = snd (?f p wl) @ ev"
    "teardown_of rs (cleanup_hook s \<noteq> None) ev" using Cons by blast
  moreover from this(2) have "teardown_of (p # rs) (cleanup_hook s \<noteq> None) (?c # ?h @ ev)"
    by (auto simp: teardown_of_def split: sum.splits)
  ultimately show ?case by (intro exI [of _ "?c # ?h @ ev"]) simp
qed (simp add: teardown_of_def)

section \<open>The shape of a run\<close>

fun is_waiting :: "solver_event \<Rightarrow> bool" where
  "is_waiting (Awaited _ _ _) = True"
| "is_waiting (Slept _) = True"
| "is_waiting _ = False"

text \<open>
  \<open>up_to_ready\<close>: placing, then waiting, then one \<open>set_ready\<close> with the tokens of the placed challenges,
  reached only when everything before it succeeded.
\<close>

definition up_to_ready ::
  "duration option \<Rightarrow> solver_event list \<Rightarrow> solver_event list \<Rightarrow> solver_event list \<Rightarrow> unit result \<Rightarrow> bool" where
  "up_to_ready skip place wait ready r \<longleftrightarrow>
     list_all is_placing place \<and> list_all is_waiting wait \<and>
     presented place = map (\<lambda>c. (chal_fqdn c, dns_value c)) (challenges place) \<and>
     ends_with r (place @ wait @ ready) \<and>
     (if ready = [] then r \<noteq> Inr () else
        ready = [Readied (map token (challenges place)) r] \<and> no_failure (place @ wait) \<and>
        (skip = None \<longrightarrow> wait = map (\<lambda>c. Awaited (chal_fqdn c) (dns_value c) (Inr ())) (challenges place)))"

lemma present_then_ready_trace:
  assumes "present_then_ready (traced_env E) (traced_solver s) (traced_driver d) g (w, l) = Some (r, g', wl')"
    and "pending g = []"
  shows "\<exists>place wait ready. snd wl' = l @ place @ wait @ ready \<and>
    up_to_ready (skip_propagation s) place wait ready r \<and>
    cleanup_fn g' = cleanup_fn g \<and> pending g' = map chal_record (challenges place)"
proof -
  obtain r1 g1 wl1 where loop: "present_loop (traced_solver s) (traced_driver d) g [] (w, l) = Some (r1, g1, wl1)"
    using assms(1) by (auto simp: present_then_ready_def split: option.splits)
  then obtain place where place: "snd wl1 = l @ place" "placing place g [] r1 g1"
    using present_loop_trace by fastforce
  note facts = place(2) [unfolded placing_def assms(2)]
  show ?thesis
  proof (cases r1)
    case (Inl e)
    with assms(1) loop have "r = Inl e" "g' = g1" "wl' = wl1" by (auto simp: present_then_ready_def)
    with facts place(1) Inl show ?thesis
      by (intro exI [of _ place] exI [of _ "[]"]) (auto simp: up_to_ready_def ends_with_def)
  next
    case (Inr tokens)
    let ?skip = "skip_propagation s"
    let ?wait = "case ?skip of Some delay \<Rightarrow> Some (Inr (), tokio_sleep (traced_env E) delay wl1)
      | None \<Rightarrow> wait_all (traced_env E) (traced_solver s) (pending g1) wl1"
    obtain r2 wl2 where w2: "?wait = Some (r2, wl2)"
      using assms(1) loop Inr by (auto simp: present_then_ready_def split: option.splits)
    obtain wait where wait: "snd wl2 = snd wl1 @ wait" "ends_with r2 wait" "list_all is_waiting wait"
      "r2 = Inr () \<longrightarrow> ?skip = None \<longrightarrow>
        wait = map (\<lambda>c. Awaited (chal_fqdn c) (dns_value c) (Inr ())) (challenges place)"
    proof (cases ?skip)
      case None
      with w2 wait_all_trace [of E "traced_solver s" "pending g1" wl1 r2 wl2] facts that show ?thesis
        by (fastforce simp: list_all_iff comp_def)
    next
      case (Some delay)
      with w2 that [of "[Slept delay]"] show ?thesis by (auto simp: traced_env_def)
    qed
    have nf: "no_failure place" using facts Inr by simp
    show ?thesis
    proof (cases r2)
      case (Inl e)
      with assms(1) loop Inr w2 have "r = Inl e" "g' = g1" "wl' = wl2"
        by (auto simp: present_then_ready_def split: option.splits)
      with facts place(1) wait Inl nf ends_with_append [of place r2 wait] show ?thesis
        by (intro exI [of _ place] exI [of _ wait] exI [of _ "[]"]) (auto simp: up_to_ready_def ends_with_def)
    next
      case (Inr u)
      obtain w3 where "r = fst (set_ready d tokens (fst wl2))" "g' = g1" "wl' = (w3, snd wl2 @ [Readied tokens r])"
        using assms(1) loop \<open>r1 = Inr tokens\<close> w2 Inr
        by (cases wl2) (auto simp: present_then_ready_def split: option.splits)
      moreover have "ends_with r [Readied tokens r]" by (cases r) auto
      ultimately show ?thesis
        using facts place(1) wait Inr nf \<open>r1 = Inr tokens\<close>
          ends_with_append [of "place @ wait" r "[Readied tokens r]"]
        by (intro exI [of _ place] exI [of _ wait] exI [of _ "[Readied tokens r]"]) (auto simp: up_to_ready_def)
    qed
  qed
qed

lemma solve_trace:
  assumes "solve_with_driver (traced_env E) (traced_solver s) (traced_driver d) (w, []) = Some (r, w', l)"
  obtains place wait ready fin down r1 where
    "l = place @ wait @ ready @ fin @ down" "up_to_ready (skip_propagation s) place wait ready r1"
    "teardown_of (map chal_record (challenges place)) (cleanup_hook s \<noteq> None) down"
    "case r1 of Inr _ \<Rightarrow> fin = [Finalized r] | Inl e \<Rightarrow> fin = [] \<and> r = Inl e"
proof -
  obtain r1 g wl where ptr: "present_then_ready (traced_env E) (traced_solver s) (traced_driver d)
      (cleanup_guard (traced_solver s)) (w, []) = Some (r1, g, wl)"
    using assms by (auto simp: solve_with_driver_def split: option.splits)
  have "pending (cleanup_guard (traced_solver s)) = []"
    by (simp add: cleanup_guard_def CleanupGuard_new_def)
  from present_then_ready_trace [OF ptr this] obtain place wait ready where
    up: "snd wl = place @ wait @ ready" "up_to_ready (skip_propagation s) place wait ready r1"
    and g: "cleanup_fn g = cleanup_fn (cleanup_guard (traced_solver s))"
      "pending g = map chal_record (challenges place)" by auto
  let ?fin = "case r1 of Inr _ \<Rightarrow> [Finalized r] | Inl e \<Rightarrow> []"
  obtain wl2 where fin: "snd wl2 = snd wl @ ?fin" "snd (run g wl2) = (w', l)"
    "case r1 of Inr _ \<Rightarrow> True | Inl e \<Rightarrow> r = Inl e"
    using assms ptr by (cases wl; cases r1) (auto simp: solve_with_driver_def)
  obtain down where "l = snd wl2 @ down"
    "teardown_of (map chal_record (challenges place)) (cleanup_hook s \<noteq> None) down"
    using run_trace [of s "pending g" wl2] fin(2) g by (auto simp: run_fold)
  with up fin that [of place wait ready ?fin down r1] show ?thesis
    by (auto split: sum.splits)
qed

section \<open>What a run guarantees\<close>

lemma teardown_not_presented: "list_all is_teardown l \<Longrightarrow> presented l = [] \<and> challenges l = []"
  by (induction l rule: presented.induct) auto

lemma waiting_not_presented: "list_all is_waiting l \<Longrightarrow> presented l = [] \<and> challenges l = []"
  by (induction l rule: presented.induct) auto

lemma not_teardown: "list_all is_placing l \<Longrightarrow> list_all (\<lambda>e. \<not> is_teardown e) l"
  "list_all is_waiting l \<Longrightarrow> list_all (\<lambda>e. \<not> is_teardown e) l"
  by (induction l; force elim: is_placing.elims is_waiting.elims)+

lemma ready_presented: "up_to_ready skip place wait ready r \<Longrightarrow> presented ready = [] \<and> challenges ready = []"
  by (auto simp: up_to_ready_def split: if_splits)

text \<open>C1: on every path that returns, the solver's teardown comes last and removes exactly the records
  it set out to place: the calls of \<open>cleanup\<close> are, value for value and in order, the calls of
  \<open>present\<close>, the failed one included; and the cleanup hook, when there is one, is called exactly for the
  cleanups that failed, with their errors.\<close>

theorem solver_cleans_what_it_placed:
  assumes "solve_with_driver (traced_env E) (traced_solver s) (traced_driver d) (w, []) = Some (r, w', l)"
  shows "\<exists>acting down. l = acting @ down \<and>
     list_all (\<lambda>e. \<not> is_teardown e) acting \<and> list_all is_teardown down \<and>
     cleaned down = presented acting \<and>
     (\<forall>f e. Hooked f e \<in> set down \<longleftrightarrow> cleanup_hook s \<noteq> None \<and> (\<exists>v. Cleaned f v (Inl e) \<in> set down))"
proof -
  obtain place wait ready fin down r1 where l: "l = place @ wait @ ready @ fin @ down"
    and up: "up_to_ready (skip_propagation s) place wait ready r1"
    and down: "teardown_of (map chal_record (challenges place)) (cleanup_hook s \<noteq> None) down"
    and fin: "case r1 of Inr _ \<Rightarrow> fin = [Finalized r] | Inl e \<Rightarrow> fin = [] \<and> r = Inl e"
    using solve_trace [OF assms] .
  let ?acting = "place @ wait @ ready @ fin"
  have "presented ?acting = presented place" "list_all (\<lambda>e. \<not> is_teardown e) ?acting"
    using up fin waiting_not_presented [of wait] ready_presented [OF up] not_teardown
    by (auto simp: up_to_ready_def split: sum.splits if_splits)
  then show ?thesis
    using l down up by (intro exI [of _ ?acting] exI [of _ down])
      (auto simp: teardown_of_def up_to_ready_def comp_def)
qed

text \<open>C2: \<open>set_ready\<close> is called at most once, with exactly the tokens of the challenges the driver
  yielded, in order; and only after every record was presented successfully and, unless the
  propagation check is skipped, after the wait for every one of these records returned \<open>Ok\<close>.\<close>

theorem solver_ready_when_visible:
  assumes "solve_with_driver (traced_env E) (traced_solver s) (traced_driver d) (w, []) = Some (r, w', l)"
    and "Readied tokens x \<in> set l"
  shows "\<exists>before after. l = before @ Readied tokens x # after \<and>
     tokens = map token (challenges l) \<and>
     (\<forall>c \<in> set (challenges l). Presented (chal_fqdn c) (dns_value c) (Inr ()) \<in> set before \<and>
        (skip_propagation s = None \<longrightarrow> Awaited (chal_fqdn c) (dns_value c) (Inr ()) \<in> set before)) \<and>
     (\<forall>tokens' x'. Readied tokens' x' \<notin> set before \<union> set after)"
proof -
  obtain place wait ready fin down r1 where l: "l = place @ wait @ ready @ fin @ down"
    and up: "up_to_ready (skip_propagation s) place wait ready r1"
    and down: "teardown_of (map chal_record (challenges place)) (cleanup_hook s \<noteq> None) down"
    and fin: "case r1 of Inr _ \<Rightarrow> fin = [Finalized r] | Inl e \<Rightarrow> fin = [] \<and> r = Inl e"
    using solve_trace [OF assms(1)] .
  have not_ready: "Readied t y \<notin> set place \<union> set wait \<union> set fin \<union> set down" for t y
    using up down fin by (auto simp: up_to_ready_def teardown_of_def list_all_iff split: sum.splits)
  with assms(2) l up have ready: "ready = [Readied tokens x]" "tokens = map token (challenges place)"
    by (auto simp: up_to_ready_def split: if_splits)
  have chals: "challenges l = challenges place"
    using l up fin down waiting_not_presented [of wait] ready_presented [OF up] teardown_not_presented [of down]
    by (auto simp: up_to_ready_def teardown_of_def split: sum.splits)
  have "Presented (chal_fqdn c) (dns_value c) (Inr ()) \<in> set place" if "c \<in> set (challenges place)" for c
  proof -
    have "(chal_fqdn c, dns_value c) \<in> set (presented place)"
      using up that by (auto simp: up_to_ready_def)
    then obtain y where y: "Presented (chal_fqdn c) (dns_value c) y \<in> set place"
      by (induction place rule: presented.induct) auto
    moreover have "no_failure place" using up ready by (simp add: up_to_ready_def)
    ultimately show ?thesis by (cases y) (auto simp: no_failure_def list_all_iff)
  qed
  then show ?thesis
    using l ready not_ready up chals
    by (intro exI [of _ "place @ wait"] exI [of _ "fin @ down"]) (auto simp: up_to_ready_def)
qed

text \<open>C3: the result is the outcome of the first failing call before the teardown, or the certificate
  and key that \<open>finalize\<close> returned after a successful \<open>set_ready\<close>; no failing cleanup changes it.\<close>

theorem solver_outcome:
  assumes "solve_with_driver (traced_env E) (traced_solver s) (traced_driver d) (w, []) = Some (r, w', l)"
  shows "case r of
      Inl e \<Rightarrow> (\<exists>before x after. l = before @ x # after \<and> failure x = Some e \<and>
        list_all (\<lambda>y. failure y = None) before \<and> list_all is_teardown after)
    | Inr cert \<Rightarrow> (\<exists>before tokens after. l = before @ [Readied tokens (Inr ()), Finalized (Inr cert)] @ after \<and>
        list_all (\<lambda>y. failure y = None) before \<and> list_all is_teardown after)"
proof -
  obtain place wait ready fin down r1 where l: "l = place @ wait @ ready @ fin @ down"
    and up: "up_to_ready (skip_propagation s) place wait ready r1"
    and down: "teardown_of (map chal_record (challenges place)) (cleanup_hook s \<noteq> None) down"
    and fin: "case r1 of Inr _ \<Rightarrow> fin = [Finalized r] | Inl e \<Rightarrow> fin = [] \<and> r = Inl e"
    using solve_trace [OF assms] .
  have td: "list_all is_teardown down" using down by (simp add: teardown_of_def)
  show ?thesis
  proof (cases r1)
    case (Inl e)
    with up obtain m x where "place @ wait @ ready = m @ [x]" "failure x = Some e" "no_failure m"
      by (auto simp: up_to_ready_def elim: ends_with_Inl)
    moreover from this fin Inl l have "l = m @ x # down" "r = Inl e"
      by (simp_all flip: append_assoc)
    ultimately show ?thesis using td by (auto simp: no_failure_def)
  next
    case (Inr u)
    then have ready: "ready = [Readied (map token (challenges place)) (Inr ())]" "no_failure (place @ wait)"
      using up by (auto simp: up_to_ready_def split: if_splits)
    show ?thesis
    proof (cases r)
      case (Inl e)
      with l fin Inr ready td show ?thesis
        by (auto simp: no_failure_def intro!: exI [of _ "place @ wait @ ready"])
    next
      case (Inr cert)
      with l fin \<open>r1 = Inr u\<close> ready td show ?thesis
        by (auto simp: no_failure_def intro!: exI [of _ "place @ wait"])
    qed
  qed
qed

section \<open>The solver returns\<close>

lemma present_loop_returns:
  assumes "\<And>w c w1. next_dns01 d w = (Some (Inr c), w1) \<Longrightarrow>
      left (snd (present (provider s) (chal_fqdn c) (dns_value c) w1)) < (left w :: nat)"
  shows "\<exists>y. present_loop s d g ts w = Some y"
proof (induction "left w" arbitrary: g ts w rule: less_induct)
  case less
  obtain n w1 where n: "next_dns01 d w = (n, w1)" by fastforce
  show ?case
  proof (cases "\<exists>c. n = Some (Inr c)")
    case True
    then obtain c where "n = Some (Inr c)" ..
    with n less(1) [OF assms [of w c w1]] show ?thesis
      by (subst present_loop.simps) (auto simp: Let_def split: sum.splits)
  next
    case False
    with n show ?thesis
      by (subst present_loop.simps) (auto simp: Let_def split: option.splits sum.splits)
  qed
qed

lemma wait_all_returns:
  assumes "\<And>f v w. propagation_wait E f v (fallback_resolvers s) (effective_timing s) w \<noteq> None"
  shows "\<exists>y. wait_all E s rs w = Some y"
proof (induction rs arbitrary: w)
  case (Cons p rs)
  obtain x w1 where "propagation_wait E (rec_fqdn p) (rec_value p) (fallback_resolvers s) (effective_timing s) w
      = Some (x, w1)" using assms by fast
  with Cons show ?case by (cases x) auto
qed simp

lemma solve_with_driver_returns:
  assumes "\<And>w c w1. next_dns01 d w = (Some (Inr c), w1) \<Longrightarrow>
      left (snd (present (provider s) (chal_fqdn c) (dns_value c) w1)) < (left w :: nat)"
    and "\<And>f v w. propagation_wait E f v (fallback_resolvers s) (effective_timing s) w \<noteq> None"
  shows "\<exists>y. solve_with_driver E s d w = Some y"
proof -
  obtain r g w1 where loop: "present_loop s d (cleanup_guard s) [] w = Some (r, g, w1)"
    using present_loop_returns [of d left s, OF assms(1)] by fast
  obtain x w2 where "wait_all E s (pending g) w1 = Some (x, w2)"
    using wait_all_returns [of E s, OF assms(2)] by fast
  with loop have "present_then_ready E s d (cleanup_guard s) w \<noteq> None"
    by (auto simp: present_then_ready_def split: sum.splits option.splits prod.splits)
  then show ?thesis by (auto simp: solve_with_driver_def split: prod.splits)
qed

text \<open>Solving returns whenever the driver has finitely many challenges to yield (each one that is
  presented lowers some count of the world) and every propagation wait returns.\<close>

theorem solver_returns:
  assumes "\<And>w c w1. next_dns01 d w = (Some (Inr c), w1) \<Longrightarrow>
      left (snd (present (provider s) (chal_fqdn c) (dns_value c) w1)) < (left w :: nat)"
    and "\<And>f v w. propagation_wait E f v (fallback_resolvers s) (effective_timing s) w \<noteq> None"
  shows "\<exists>y. solve_with_driver E s d w = Some y"
  by (rule solve_with_driver_returns [where left = left, OF assms])

section \<open>A run\<close>

text \<open>
  Two challenges, the apex and the wildcard of one name; the provider cannot remove them again.
\<close>

definition demo_challenge :: "nat \<Rightarrow> Dns01Challenge" where
  "demo_challenge n = \<lparr>domain = ''a.org'', chal_fqdn = ''x.a.org'',
     dns_value = (if n = 2 then ''apex'' else ''wildcard''), token = 2 - n\<rparr>"

definition demo_driver :: "nat ChallengeDriver" where
  "demo_driver =
     \<lparr>next_dns01 = (\<lambda>n. if n = 0 then (None, n) else (Some (Inr (demo_challenge n)), n - 1)),
      set_ready = (\<lambda>_ n. (Inr (), n)), finalize = (\<lambda>n. (Inr (''chain'', ''key''), n))\<rparr>"

definition demo_solver :: "nat Dns01Solver" where
  "demo_solver = on_cleanup_error (Dns01Solver_new
     \<lparr>present = (\<lambda>_ _ n. (Inr (), n)), cleanup = (\<lambda>_ _ n. (Inl (Api ''down''), n)),
      provider_timing = \<lparr>timeout = 2, interval = 1\<rparr>\<rparr>) (\<lambda>_ _ n. n)"

definition demo_env :: "nat solver_env" where
  "demo_env = \<lparr>propagation_wait = (\<lambda>_ _ _ _ n. Some (Inr (), n)), tokio_sleep = (\<lambda>_ n. n)\<rparr>"

definition demo_trace :: "solver_event list" where
  "demo_trace =
     [Yielded (Some (Inr (demo_challenge 2))), Presented ''x.a.org'' ''apex'' (Inr ()),
      Yielded (Some (Inr (demo_challenge 1))), Presented ''x.a.org'' ''wildcard'' (Inr ()),
      Yielded None, Awaited ''x.a.org'' ''apex'' (Inr ()), Awaited ''x.a.org'' ''wildcard'' (Inr ()),
      Readied [0, 1] (Inr ()), Finalized (Inr (''chain'', ''key'')),
      Cleaned ''x.a.org'' ''apex'' (Inl (Api ''down'')), Hooked ''x.a.org'' (Api ''down''),
      Cleaned ''x.a.org'' ''wildcard'' (Inl (Api ''down'')), Hooked ''x.a.org'' (Api ''down'')]"

lemma demo_run:
  "solve_with_driver (traced_env demo_env) (traced_solver demo_solver) (traced_driver demo_driver) (2, [])
     = Some (Inr (''chain'', ''key''), 0, demo_trace)"
  by code_simp

theorem solver_cleans_what_it_placed_witness:
  "(\<exists>acting down. demo_trace = acting @ down \<and>
     list_all (\<lambda>e. \<not> is_teardown e) acting \<and> list_all is_teardown down \<and>
     cleaned down = presented acting \<and>
     (\<forall>f e. Hooked f e \<in> set down \<longleftrightarrow> cleanup_hook demo_solver \<noteq> None \<and> (\<exists>v. Cleaned f v (Inl e) \<in> set down)))"
  by (rule solver_cleans_what_it_placed [OF demo_run])

theorem solver_ready_when_visible_witness:
  "\<exists>before after. demo_trace = before @ Readied [0, 1] (Inr ()) # after \<and>
     [0, 1] = map token (challenges demo_trace) \<and>
     (\<forall>c \<in> set (challenges demo_trace). Presented (chal_fqdn c) (dns_value c) (Inr ()) \<in> set before \<and>
        (skip_propagation demo_solver = None \<longrightarrow> Awaited (chal_fqdn c) (dns_value c) (Inr ()) \<in> set before)) \<and>
     (\<forall>tokens' x'. Readied tokens' x' \<notin> set before \<union> set after)"
  by (rule solver_ready_when_visible [OF demo_run]) (simp add: demo_trace_def)

theorem solver_outcome_witness:
  "\<exists>before tokens after. demo_trace = before @ [Readied tokens (Inr ()), Finalized (Inr (''chain'', ''key''))] @ after \<and>
     list_all (\<lambda>y. failure y = None) before \<and> list_all is_teardown after"
  using solver_outcome [OF demo_run] by simp

theorem solver_returns_witness: "\<exists>y. solve_with_driver demo_env demo_solver demo_driver 2 = Some y"
  by (rule solver_returns [where left = id])
    (auto simp: demo_driver_def demo_env_def demo_solver_def on_cleanup_error_def Dns01Solver_new_def
      split: if_splits)

section \<open>The builder methods\<close>

text \<open>Overriding one of the two polling parameters also replaces the other by the crate's default
  (120 s, 5 s), not by the provider's own value, unless it was overridden before; overriding both gives
  both, in either order.\<close>

theorem timing_overrides:
  "effective_timing (with_timeout (Dns01Solver_new p) d) = \<lparr>timeout = d, interval = from_secs 5\<rparr>
   \<and> effective_timing (with_interval (Dns01Solver_new p) d) = \<lparr>timeout = from_secs 120, interval = d\<rparr>
   \<and> effective_timing (Dns01Solver_new p) = provider_timing p
   \<and> effective_timing (with_interval (with_timeout s t) i) = \<lparr>timeout = t, interval = i\<rparr>
   \<and> with_timeout (with_interval s i) t = with_interval (with_timeout s t) i"
  by (simp add: effective_timing_def with_timeout_def with_interval_def Dns01Solver_new_def
      get_or_insert_default_def PropagationTiming_default_def split: option.splits)

end
