(* ===== verification/Acme_Driver.thy ===== *)
theory Acme_Driver
  imports Solver_Trace "HOL-Library.Multiset"
begin

text \<open>
  The production driver (\<open>InstantAcmeDriver\<close> of \<open>solver.rs\<close>) on an ACME order. The order and the server
  behind it belong to the ACME client crate: \<open>order_env\<close> gives what its calls return and do to the world.
\<close>

section \<open>The order\<close>

datatype AuthorizationStatus = AuthPending | AuthValid | AuthOther string

datatype Identifier = Dns string | OtherIdentifier string

record challenge_handle =
  challenge_url :: string
  key_auth_dns_value :: string

record tls_challenge_handle =
  tls_challenge_url :: string
  key_auth_digest :: string

record authorization =
  authz_status :: AuthorizationStatus
  authz_identifier :: Identifier
  dns01 :: "challenge_handle option"
  tls_alpn01 :: "tls_challenge_handle option"

datatype OrderStatus = OrderReady | OrderOther string

record 'w order_env =
  authz_count :: nat
  authz_next :: "nat \<Rightarrow> ('w, acme_error, authorization) act"
  challenge_set_ready :: "string \<Rightarrow> ('w, acme_error, unit) act"
  poll_ready :: "('w, acme_error, OrderStatus) act"
  order_finalize :: "('w, acme_error, string) act"
  poll_certificate :: "('w, acme_error, string) act"

record InstantAcmeDriver =
  queue :: "Dns01Challenge result list option"
  challenge_urls :: "string list"

definition InstantAcmeDriver_new :: InstantAcmeDriver where
  "InstantAcmeDriver_new = \<lparr>queue = None, challenge_urls = []\<rparr>"

section \<open>The driver\<close>

definition pending_challenge ::
  "acme_error + authorization \<Rightarrow> string list \<Rightarrow> Dns01Challenge option result \<times> string list" where
  "pending_challenge result urls =
     (case result of
        Inl e \<Rightarrow> (Inl (from_acme_error e), urls)
      | Inr authz \<Rightarrow>
          (case authz_status authz of
             AuthValid \<Rightarrow> (Inr None, urls)
           | AuthOther other \<Rightarrow> (Inl (ChallengeInvalid other), urls)
           | AuthPending \<Rightarrow>
               (case authz_identifier authz of
                  OtherIdentifier other \<Rightarrow> (Inl (Other (''unsupported identifier type: '' @ other)), urls)
                | Dns dns_domain \<Rightarrow>
                    (case dns01 authz of
                       None \<Rightarrow> (Inl (NoDns01Challenge dns_domain), urls)
                     | Some challenge \<Rightarrow>
                         (Inr (Some \<lparr>domain = dns_domain, chal_fqdn = ''_acme-challenge.'' @ dns_domain,
                            dns_value = key_auth_dns_value challenge, token = length urls\<rparr>),
                          urls @ [challenge_url challenge])))))"

fun collect_from ::
  "'w order_env \<Rightarrow> nat list \<Rightarrow> string list \<Rightarrow> 'w \<Rightarrow> Dns01Challenge result list \<times> string list \<times> 'w" where
  "collect_from A [] urls w = ([], urls, w)"
| "collect_from A (i # ixs) urls w =
     (case authz_next A i w of
        (result, w1) \<Rightarrow>
          (case pending_challenge result urls of
             (Inr (Some challenge), urls1) \<Rightarrow>
               (case collect_from A ixs urls1 w1 of (q, urls2, w2) \<Rightarrow> (Inr challenge # q, urls2, w2))
           | (Inr None, urls1) \<Rightarrow> collect_from A ixs urls1 w1
           | (Inl e, urls1) \<Rightarrow> ([Inl e], urls1, w1)))"

definition collect ::
  "'w order_env \<Rightarrow> string list \<Rightarrow> 'w \<Rightarrow> Dns01Challenge result list \<times> string list \<times> 'w" where
  "collect A urls w = collect_from A [0..<authz_count A] urls w"

definition acme_next_dns01 ::
  "'w order_env \<Rightarrow> 'w \<times> InstantAcmeDriver \<Rightarrow> Dns01Challenge result option \<times> 'w \<times> InstantAcmeDriver" where
  "acme_next_dns01 A wd =
     (let (w, d) = wd;
          (q, d1, w1) = (case queue d of
             Some q \<Rightarrow> (q, d, w)
           | None \<Rightarrow> (case collect A (challenge_urls d) w of
               (q, urls, w1) \<Rightarrow> (q, d\<lparr>challenge_urls := urls\<rparr>, w1)))
      in case q of
           [] \<Rightarrow> (None, w1, d1\<lparr>queue := Some []\<rparr>)
         | first # rest \<Rightarrow> (Some first, w1, d1\<lparr>queue := Some rest\<rparr>))"

fun token_targets :: "string list \<Rightarrow> nat list \<Rightarrow> string list result" where
  "token_targets urls [] = Inr []"
| "token_targets urls (tok # tokens) =
     (if tok < length urls
      then and_then (token_targets urls tokens) (\<lambda>targets. Inr (urls ! tok # targets))
      else Inl (Other (''invalid challenge token '' @ show_nat tok)))"

fun position :: "('a \<Rightarrow> bool) \<Rightarrow> 'a list \<Rightarrow> nat option" where
  "position P [] = None"
| "position P (x # xs) = (if P x then Some 0 else map_option Suc (position P xs))"

definition swap_remove :: "nat \<Rightarrow> 'a list \<Rightarrow> 'a list" where
  "swap_remove pos xs = butlast (xs[pos := last xs])"

fun ready_pass ::
  "'w order_env \<Rightarrow> nat list \<Rightarrow> string list \<Rightarrow> ('w, string list) io" where
  "ready_pass A [] targets w = (Inr targets, w)"
| "ready_pass A (i # ixs) targets w =
     (case authz_next A i w of
        (Inl e, w1) \<Rightarrow> (Inl (from_acme_error e), w1)
      | (Inr authz, w1) \<Rightarrow>
          (case dns01 authz of
             None \<Rightarrow> ready_pass A ixs targets w1
           | Some challenge \<Rightarrow>
               (case position (\<lambda>url. url = challenge_url challenge) targets of
                  None \<Rightarrow> ready_pass A ixs targets w1
                | Some pos \<Rightarrow>
                    (case challenge_set_ready A (challenge_url challenge) w1 of
                       (Inl e, w2) \<Rightarrow> (Inl (from_acme_error e), w2)
                     | (Inr _, w2) \<Rightarrow> ready_pass A ixs (swap_remove pos targets) w2))))"

definition acme_set_ready ::
  "'w order_env \<Rightarrow> nat list \<Rightarrow> ('w \<times> InstantAcmeDriver, unit) io" where
  "acme_set_ready A tokens wd =
     (let (w, d) = wd in
      case attempt (from_result (token_targets (challenge_urls d) tokens))
             (ready_pass A [0..<authz_count A]) w of
        (Inl e, w1) \<Rightarrow> (Inl e, w1, d)
      | (Inr [], w1) \<Rightarrow> (Inr (), w1, d)
      | (Inr (url # _), w1) \<Rightarrow> (Inl (Other (''challenge '' @ url @ '' disappeared from order'')), w1, d))"

definition acme_finalize ::
  "'w order_env \<Rightarrow> ('w \<times> InstantAcmeDriver, string \<times> string) io" where
  "acme_finalize A wd =
     (let (r, w1) =
        attempt (act_map_err from_acme_error (poll_ready A)) (\<lambda>status.
        case status of
          OrderOther st \<Rightarrow> fail_with (UnexpectedOrderStatus st)
        | OrderReady \<Rightarrow>
            attempt (act_map_err from_acme_error (order_finalize A)) (\<lambda>private_key_pem.
            attempt (act_map_err from_acme_error (poll_certificate A)) (\<lambda>cert_chain_pem.
            done_ok (cert_chain_pem, private_key_pem)))) (fst wd)
      in (r, w1, snd wd))"

definition acme_driver :: "'w order_env \<Rightarrow> ('w \<times> InstantAcmeDriver) ChallengeDriver" where
  "acme_driver A =
     \<lparr>next_dns01 = acme_next_dns01 A, set_ready = acme_set_ready A, finalize = acme_finalize A\<rparr>"

text \<open>The solver runs beside the driver's own state, which only the driver touches.\<close>

definition beside :: "('w \<Rightarrow> 'r \<times> 'w) \<Rightarrow> 'w \<times> 'd \<Rightarrow> 'r \<times> 'w \<times> 'd" where
  "beside m wd = (let (r, w) = m (fst wd) in (r, w, snd wd))"

definition beside_solver :: "'w Dns01Solver \<Rightarrow> ('w \<times> 'd) Dns01Solver" where
  "beside_solver s =
     \<lparr>provider = \<lparr>present = (\<lambda>f v. beside (present (provider s) f v)),
        cleanup = (\<lambda>f v. beside (cleanup (provider s) f v)), provider_timing = provider_timing (provider s)\<rparr>,
      fallback_resolvers = fallback_resolvers s, timing_override = timing_override s,
      skip_propagation = skip_propagation s,
      cleanup_hook = map_option (\<lambda>hook f e wd. (hook f e (fst wd), snd wd)) (cleanup_hook s)\<rparr>"

definition beside_env :: "'w solver_env \<Rightarrow> ('w \<times> 'd) solver_env" where
  "beside_env E =
     \<lparr>propagation_wait = (\<lambda>f v rs t wd.
        map_option (\<lambda>(r, w). (r, w, snd wd)) (propagation_wait E f v rs t (fst wd))),
      tokio_sleep = (\<lambda>d wd. (tokio_sleep E d (fst wd), snd wd))\<rparr>"

definition solve_and_finalize ::
  "'n dns_env \<Rightarrow> ('n, 'z) world_scheme Dns01Solver \<Rightarrow> ('n, 'z) world_scheme order_env \<Rightarrow>
   ('n, 'z) world_scheme \<Rightarrow> ((string \<times> string) result \<times> ('n, 'z) world_scheme \<times> InstantAcmeDriver) option" where
  "solve_and_finalize D s A w =
     solve_with_driver (beside_env (production_env D)) (beside_solver s) (acme_driver A)
       (w, InstantAcmeDriver_new)"

section \<open>Tokens\<close>

fun oks :: "('e + 'a) list \<Rightarrow> 'a list" where
  "oks [] = []"
| "oks (Inr x # q) = x # oks q"
| "oks (Inl _ # q) = oks q"

lemma oks_map_Inr [simp]: "oks (map Inr xs) = xs"
  by (induction xs) simp_all

lemma oks_append [simp]: "oks (p @ q) = oks p @ oks q"
  by (induction p rule: oks.induct) simp_all

lemma pending_challenge_cases:
  obtains e where "pending_challenge r urls = (Inl e, urls)"
  | "pending_challenge r urls = (Inr None, urls)"
  | authz dns_domain h where "r = Inr authz" "dns01 authz = Some h"
      "pending_challenge r urls = (Inr (Some \<lparr>domain = dns_domain, chal_fqdn = ''_acme-challenge.'' @ dns_domain,
         dns_value = key_auth_dns_value h, token = length urls\<rparr>), urls @ [challenge_url h])"
proof (cases r)
  case (Inr authz)
  note r = this
  show ?thesis
  proof (cases "authz_status authz")
    case AuthPending
    with r that show ?thesis
      by (cases "authz_identifier authz"; cases "dns01 authz") (simp_all add: pending_challenge_def)
  qed (use r that in \<open>simp_all add: pending_challenge_def\<close>)
qed (use that in \<open>simp add: pending_challenge_def\<close>)

lemma collect_from_tokens:
  "\<exists>cs tl. fst (collect_from A ixs urls w) = map Inr cs @ tl \<and> (tl = [] \<or> (\<exists>e. tl = [Inl e])) \<and>
     map token cs = [length urls..<length (fst (snd (collect_from A ixs urls w)))] \<and>
     (\<exists>more. fst (snd (collect_from A ixs urls w)) = urls @ more)"
proof (induction ixs arbitrary: urls w)
  case (Cons i ixs)
  obtain r w1 where n: "authz_next A i w = (r, w1)" by fastforce
  show ?case
  proof (cases rule: pending_challenge_cases [of r urls])
    case (1 e)
    with n show ?thesis by (auto intro!: exI [of _ "[]"])
  next
    case 2
    with n Cons [of urls w1] show ?thesis by simp
  next
    case (3 authz dns_domain h)
    let ?urls = "urls @ [challenge_url h]"
    obtain q urls2 w2 where rest: "collect_from A ixs ?urls w1 = (q, urls2, w2)"
      by (metis prod.collapse)
    from Cons [of ?urls w1, unfolded rest fst_conv snd_conv] obtain cs tl more where
      IH: "q = map Inr cs @ tl" "tl = [] \<or> (\<exists>e. tl = [Inl e])"
        "map token cs = [length ?urls..<length urls2]" "urls2 = ?urls @ more"
      by blast
    with 3 n rest show ?thesis
      by (intro exI [of _ "\<lparr>domain = dns_domain, chal_fqdn = ''_acme-challenge.'' @ dns_domain,
         dns_value = key_auth_dns_value h, token = length urls\<rparr> # cs"] exI [of _ tl])
        (simp add: upt_conv_Cons del: upt_Suc)
  qed
qed auto

lemma token_targets_nth: "\<forall>t \<in> set ts. t < length urls \<Longrightarrow> token_targets urls ts = Inr (map ((!) urls) ts)"
  by (induction ts) auto

lemma token_targets_iff:
  "token_targets urls ts = Inr targets \<longleftrightarrow> (\<forall>t \<in> set ts. t < length urls) \<and> targets = map ((!) urls) ts"
  by (induction ts arbitrary: targets) (auto simp: and_then_eq_Inr)

text \<open>Collecting the challenges of a new order queues them in order, with an error at most as the
  last entry; the k-th challenge has token k, so every token handed back to \<open>set_ready\<close> is valid, and
  the tokens of all queued challenges stand for all the collected challenge URLs.\<close>

theorem acme_tokens_valid:
  assumes "collect A [] w = (q, urls, w')"
  shows "(\<exists>cs tl. q = map Inr cs @ tl \<and> (tl = [] \<or> (\<exists>e. tl = [Inl e])))
     \<and> map token (oks q) = [0..<length urls]
     \<and> token_targets urls (map token (oks q)) = Inr urls"
proof -
  obtain cs tl where q: "q = map Inr cs @ tl" "tl = [] \<or> (\<exists>e. tl = [Inl e])"
    "map token cs = [0..<length urls]"
    using collect_from_tokens [of A "[0..<authz_count A]" "[]" w] assms by (auto simp: collect_def)
  then have "oks q = cs" by auto
  with q show ?thesis by (auto simp: token_targets_iff map_nth)
qed

section \<open>Setting the challenges ready\<close>

lemma position_Some: "position P xs = Some i \<Longrightarrow> i < length xs \<and> P (xs ! i)"
  by (induction xs arbitrary: i) (auto split: if_splits)

lemma position_None: "position P xs = None \<longleftrightarrow> (\<forall>x \<in> set xs. \<not> P x)"
  by (induction xs) auto

lemma mset_swap_remove: "i < length xs \<Longrightarrow> add_mset (xs ! i) (mset (swap_remove i xs)) = mset xs"
proof (cases xs rule: rev_cases)
  case (snoc ys y)
  assume "i < length xs"
  then show ?thesis
    unfolding swap_remove_def snoc
    by (cases "i = length ys") (auto simp: list_update_append nth_append mset_update add_mset_remove_trivial_If)
qed simp

lemma position_swap_remove:
  assumes "position (\<lambda>u. u = url) xs = Some i"
  shows "mset xs = add_mset url (mset (swap_remove i xs))"
  using position_Some [OF assms] mset_swap_remove [of i xs] by simp

text \<open>An order whose successful and failed \<open>set_ready\<close> calls are logged.\<close>

definition logged_order :: "'w order_env \<Rightarrow> ('w \<times> string list) order_env" where
  "logged_order A =
     \<lparr>authz_count = authz_count A, authz_next = (\<lambda>i. beside (authz_next A i)),
      challenge_set_ready = (\<lambda>url (w, l). let (r, w1) = challenge_set_ready A url w in (r, w1, l @ [url])),
      poll_ready = beside (poll_ready A), order_finalize = beside (order_finalize A),
      poll_certificate = beside (poll_certificate A)\<rparr>"

lemma ready_pass_log:
  assumes "ready_pass (logged_order A) ixs targets (w, l) = (r, w', l')"
  shows "\<exists>calls. l' = l @ calls \<and> (case r of
      Inr left \<Rightarrow> mset calls + mset left = mset targets | Inl _ \<Rightarrow> mset calls \<subseteq># mset targets)"
  using assms
proof (induction ixs arbitrary: targets w l)
  case (Cons i ixs)
  obtain a w1 where n: "authz_next A i w = (a, w1)" by fastforce
  then have n': "authz_next (logged_order A) i (w, l) = (a, w1, l)" by (simp add: logged_order_def beside_def)
  show ?case
  proof (cases "\<exists>authz h pos. a = Inr authz \<and> dns01 authz = Some h \<and>
      position (\<lambda>url. url = challenge_url h) targets = Some pos")
    case False
    show ?thesis
    proof (cases a)
      case (Inl e)
      with Cons(2) n' show ?thesis by auto
    next
      case (Inr authz)
      with False Cons(2) n' have "ready_pass (logged_order A) ixs targets (w1, l) = (r, w', l')"
        by (auto split: option.splits)
      then show ?thesis by (rule Cons(1))
    qed
  next
    case True
    then obtain authz h pos where a: "a = Inr authz" "dns01 authz = Some h"
      "position (\<lambda>url. url = challenge_url h) targets = Some pos" by blast
    note rem = position_swap_remove [OF a(3)]
    obtain x w2 where sr: "challenge_set_ready A (challenge_url h) w1 = (x, w2)" by fastforce
    then have sr': "challenge_set_ready (logged_order A) (challenge_url h) (w1, l)
        = (x, w2, l @ [challenge_url h])" by (simp add: logged_order_def)
    show ?thesis
    proof (cases x)
      case (Inl e)
      with Cons(2) n' a sr' rem show ?thesis by (auto intro!: exI [of _ "[challenge_url h]"])
    next
      case (Inr u)
      with Cons(2) n' a sr' have "ready_pass (logged_order A) ixs (swap_remove pos targets)
          (w2, l @ [challenge_url h]) = (r, w', l')" by simp
      from Cons(1) [OF this] obtain calls where "l' = (l @ [challenge_url h]) @ calls"
        "case r of Inr left \<Rightarrow> mset calls + mset left = mset (swap_remove pos targets)
          | Inl _ \<Rightarrow> mset calls \<subseteq># mset (swap_remove pos targets)" by blast
      then show ?thesis
        using rem by (intro exI [of _ "challenge_url h # calls"]) (auto split: sum.splits)
    qed
  qed
qed auto

text \<open>C9: \<open>set_ready\<close> tells the server about challenges of the given tokens only, each at most as often
  as it was asked for; when it returns \<open>Ok\<close>, about exactly these, each as often as it was asked for. It
  does not change the driver.\<close>

theorem acme_set_ready_exact:
  assumes "acme_set_ready (logged_order A) tokens ((w, []), d) = (r, (w', calls), d')"
  shows "d' = d \<and>
    (case token_targets (challenge_urls d) tokens of
       Inl e \<Rightarrow> r = Inl e \<and> calls = []
     | Inr targets \<Rightarrow> mset calls \<subseteq># mset targets \<and> (r = Inr () \<longrightarrow> mset calls = mset targets))"
proof (cases "token_targets (challenge_urls d) tokens")
  case (Inl e)
  with assms show ?thesis by (auto simp: acme_set_ready_def)
next
  case (Inr targets)
  obtain x w1 l1 where pass:
    "ready_pass (logged_order A) [0..<authz_count (logged_order A)] targets (w, []) = (x, w1, l1)"
    by (metis prod.collapse)
  with assms Inr have r: "d' = d" "calls = l1" "r = Inr () \<longleftrightarrow> x = Inr []"
    by (auto simp: acme_set_ready_def split: sum.splits list.splits)
  from ready_pass_log [OF pass] show ?thesis
    unfolding r(1,2) Inr sum.case r(3) by (cases x) (auto, metis mset_subset_eq_add_left)
qed

definition dns01_urls :: "(nat \<Rightarrow> challenge_handle option) \<Rightarrow> nat list \<Rightarrow> string list" where
  "dns01_urls h ixs = concat (map (\<lambda>i. case h i of None \<Rightarrow> [] | Some c \<Rightarrow> [challenge_url c]) ixs)"

lemma dns01_urls_simps [simp]:
  "dns01_urls h [] = []"
  "dns01_urls h (i # ixs) = (case h i of None \<Rightarrow> [] | Some c \<Rightarrow> [challenge_url c]) @ dns01_urls h ixs"
  by (simp_all add: dns01_urls_def)

lemma collect_from_urls:
  assumes "\<And>i w. \<exists>a. fst (authz_next A i w) = Inr a \<and> dns01 a = h i"
  shows "\<exists>more. fst (snd (collect_from A ixs urls w)) = urls @ more \<and> mset more \<subseteq># mset (dns01_urls h ixs)"
proof (induction ixs arbitrary: urls w)
  case (Cons i ixs)
  obtain a w1 where n: "authz_next A i w = (Inr a, w1)" "dns01 a = h i"
    using assms [of i w] by (metis prod.collapse)
  show ?case
  proof (cases rule: pending_challenge_cases [of "Inr a" urls])
    case (1 e)
    with n show ?thesis by (auto intro!: exI [of _ "[]"])
  next
    case 2
    with n Cons [of urls w1] show ?thesis
      by (auto intro: subset_mset.order_trans [OF _ mset_subset_eq_add_right])
  next
    case (3 authz dns_domain c)
    let ?urls = "urls @ [challenge_url c]"
    obtain more where "fst (snd (collect_from A ixs ?urls w1)) = ?urls @ more"
      "mset more \<subseteq># mset (dns01_urls h ixs)" using Cons by blast
    moreover from 3 n have "h i = Some c" by simp
    ultimately show ?thesis
      using 3 n by (intro exI [of _ "challenge_url c # more"]) (auto split: prod.splits)
  qed
qed auto

lemma subseteq_add_mset_absent: "M \<subseteq># add_mset x N \<Longrightarrow> x \<notin># M \<Longrightarrow> M \<subseteq># N"
  using subset_eq_diff_conv [of M "{#x#}" N] by (simp add: diff_single_trivial)

lemma ready_pass_complete:
  assumes "\<And>i w. \<exists>a. fst (authz_next A i w) = Inr a \<and> dns01 a = h i"
    and "\<And>url w. fst (challenge_set_ready A url w) = Inr ()"
    and "mset targets \<subseteq># mset (dns01_urls h ixs)"
  shows "fst (ready_pass A ixs targets w) = Inr []"
  using assms(3)
proof (induction ixs arbitrary: targets w)
  case (Cons i ixs)
  obtain a w1 where n: "authz_next A i w = (Inr a, w1)" "dns01 a = h i"
    using assms(1) [of i w] by (metis prod.collapse)
  show ?case
  proof (cases "h i")
    case None
    with Cons n show ?thesis by simp
  next
    case (Some c)
    obtain w2 where sr: "challenge_set_ready A (challenge_url c) w1 = (Inr (), w2)"
      using assms(2) by (metis prod.collapse)
    show ?thesis
    proof (cases "position (\<lambda>url. url = challenge_url c) targets")
      case None
      then have "challenge_url c \<notin># mset targets" by (auto simp: position_None)
      with Cons(2) Some have "mset targets \<subseteq># mset (dns01_urls h ixs)"
        using subseteq_add_mset_absent [of "mset targets" "challenge_url c"] by simp
      with Cons(1) n Some None show ?thesis by simp
    next
      case (Some pos)
      from position_swap_remove [OF this] Cons(2) \<open>h i = Some c\<close>
      have "mset (swap_remove pos targets) \<subseteq># mset (dns01_urls h ixs)" by simp
      with Cons(1) n sr Some \<open>h i = Some c\<close> show ?thesis by simp
    qed
  qed
qed simp

text \<open>C8: when the order shows the same DNS-01 challenges in both passes and the server accepts each
  \<open>set_ready\<close>, setting ready all the challenges that were collected succeeds: no challenge is reported
  as an invalid token or as gone from the order, whatever happened to the world in between.\<close>

theorem acme_collect_then_ready:
  assumes "\<And>i w. \<exists>a. fst (authz_next A i w) = Inr a \<and> dns01 a = h i"
    and "\<And>url w. fst (challenge_set_ready A url w) = Inr ()"
    and "collect A [] w = (q, urls, w')"
    and "challenge_urls d = urls"
  shows "fst (acme_set_ready A (map token (oks q)) (w2, d)) = Inr ()"
proof -
  obtain cs tl where q: "q = map Inr cs @ tl" "tl = [] \<or> (\<exists>e. tl = [Inl e])" "map token cs = [0..<length urls]"
    using collect_from_tokens [of A "[0..<authz_count A]" "[]" w] assms(3) by (auto simp: collect_def)
  then have "token_targets urls (map token (oks q)) = Inr urls" by (auto simp: token_targets_iff map_nth)
  moreover have "mset urls \<subseteq># mset (dns01_urls h [0..<authz_count A])"
    using collect_from_urls [of A h "[0..<authz_count A]" "[]" w, OF assms(1)] assms(3) by (auto simp: collect_def)
  then have "fst (ready_pass A [0..<authz_count A] urls w2) = Inr []"
    by (rule ready_pass_complete [of A h, OF assms(1,2)])
  ultimately show ?thesis
    using assms(4) by (auto simp: acme_set_ready_def split: prod.splits sum.splits)
qed

section \<open>The production solver returns\<close>

lemma beside_solver_simps [simp]:
  "effective_timing (beside_solver s) = effective_timing s"
  "fallback_resolvers (beside_solver s) = fallback_resolvers s"
  by (simp_all add: effective_timing_def beside_solver_def split: option.splits)

lemma length_collect_from: "length (fst (collect_from A ixs urls w)) \<le> length ixs"
proof (induction ixs arbitrary: urls w)
  case (Cons i ixs)
  obtain r w1 where n: "authz_next A i w = (r, w1)" by fastforce
  show ?case
  proof (cases rule: pending_challenge_cases [of r urls])
    case 2
    with n Cons [of urls w1] show ?thesis by simp
  next
    case (3 authz dns_domain c)
    with n Cons [of "urls @ [challenge_url c]" w1] show ?thesis by (auto split: prod.splits)
  qed (simp add: n)
qed simp

definition challenges_left :: "'w order_env \<Rightarrow> 'w \<times> InstantAcmeDriver \<Rightarrow> nat" where
  "challenges_left A wd = (case queue (snd wd) of None \<Rightarrow> Suc (authz_count A) | Some q \<Rightarrow> length q)"

lemma acme_next_dns01_left:
  assumes "acme_next_dns01 A wd = (Some r, wd')"
  shows "challenges_left A wd' < challenges_left A wd"
proof (cases "queue (snd wd)")
  case None
  obtain q urls w1 where c: "collect A (challenge_urls (snd wd)) (fst wd) = (q, urls, w1)"
    by (metis prod.collapse)
  then have "length q \<le> authz_count A"
    using length_collect_from [of A "[0..<authz_count A]"] by (simp add: collect_def) (metis fst_conv)
  with assms None c show ?thesis
    by (cases wd) (auto simp: acme_next_dns01_def challenges_left_def split: list.splits)
next
  case (Some q)
  with assms show ?thesis
    by (cases wd) (auto simp: acme_next_dns01_def challenges_left_def split: list.splits)
qed

text \<open>C4: \<open>solve_and_finalize\<close> returns for every order, provider and resolver, as long as sleeping
  advances the clock and the polling interval in force is positive.\<close>

theorem solve_and_finalize_returns:
  assumes "advancing_clock D"
    and "0 < interval (effective_timing s)"
  shows "\<exists>y. solve_and_finalize D s A w = Some y"
  unfolding solve_and_finalize_def
proof (rule solve_with_driver_returns [where left = "challenges_left A"])
  fix wd c wd1
  assume "next_dns01 (acme_driver A) wd = (Some (Inr c), wd1)"
  then have "challenges_left A wd1 < challenges_left A wd"
    by (simp add: acme_driver_def acme_next_dns01_left)
  then show "challenges_left A (snd (present (provider (beside_solver s)) (chal_fqdn c) (dns_value c) wd1))
      < challenges_left A wd"
    by (simp add: beside_solver_def beside_def challenges_left_def split: prod.splits)
next
  fix f v wd
  show "propagation_wait (beside_env (production_env D)) f v
      (fallback_resolvers (beside_solver s :: (_ \<times> InstantAcmeDriver) Dns01Solver))
      (effective_timing (beside_solver s :: (_ \<times> InstantAcmeDriver) Dns01Solver)) wd \<noteq> None"
    using wait_for_propagation_returns [OF assms, of f v "fallback_resolvers s" "fst wd"]
    by (simp add: beside_env_def production_env_def)
qed

section \<open>An order\<close>

text \<open>Three authorizations, of which the second is already valid.\<close>

definition demo_authz :: "nat \<Rightarrow> authorization" where
  "demo_authz i =
     \<lparr>authz_status = (if i = 1 then AuthValid else AuthPending), authz_identifier = Dns [CHR ''a'', DOT],
      dns01 = Some \<lparr>challenge_url = show_nat i, key_auth_dns_value = ''v''\<rparr>,
      tls_alpn01 = Some \<lparr>tls_challenge_url = show_nat i, key_auth_digest = replicate 32 (CHR ''d'')\<rparr>\<rparr>"

definition demo_order :: "'w order_env" where
  "demo_order =
     \<lparr>authz_count = 3, authz_next = (\<lambda>i w. (Inr (demo_authz i), w)),
      challenge_set_ready = (\<lambda>_ w. (Inr (), w)), poll_ready = (\<lambda>w. (Inr OrderReady, w)),
      order_finalize = (\<lambda>w. (Inr ''key'', w)), poll_certificate = (\<lambda>w. (Inr ''chain'', w))\<rparr>"

lemma demo_collect: "collect demo_order [] () =
   (map Inr (oks (fst (collect demo_order [] ()))), [''0'', ''2''], ())"
  by code_simp

theorem acme_tokens_valid_witness:
  "map token (oks (fst (collect demo_order [] ()))) = [0, 1]
   \<and> token_targets [''0'', ''2''] (map token (oks (fst (collect demo_order [] ())))) = Inr [''0'', ''2'']"
  using acme_tokens_valid [OF demo_collect] by simp

theorem acme_set_ready_exact_witness:
  "acme_set_ready (logged_order demo_order) [0, 1] (((), []), \<lparr>queue = Some [], challenge_urls = [''0'', ''2'']\<rparr>)
     = (Inr (), ((), [''0'', ''2'']), \<lparr>queue = Some [], challenge_urls = [''0'', ''2'']\<rparr>)
   \<and> mset [''0'', ''2''] = mset [[''0'', ''2''] ! 0, [''0'', ''2''] ! 1]"
proof -
  have run: "acme_set_ready (logged_order demo_order) [0, 1] (((), []), \<lparr>queue = Some [], challenge_urls = [''0'', ''2'']\<rparr>)
     = (Inr (), ((), [''0'', ''2'']), \<lparr>queue = Some [], challenge_urls = [''0'', ''2'']\<rparr>)"
    by code_simp
  from acme_set_ready_exact [OF run] run show ?thesis by simp
qed

theorem acme_collect_then_ready_witness:
  "fst (acme_set_ready demo_order (map token (oks (fst (collect demo_order [] ()))))
     ((), \<lparr>queue = Some [], challenge_urls = [''0'', ''2'']\<rparr>)) = Inr ()"
proof (rule acme_collect_then_ready [where h = "\<lambda>i. dns01 (demo_authz i)"])
  show "collect demo_order [] () =
    (fst (collect demo_order [] ()), [''0'', ''2''], ())" by code_simp
qed (simp_all add: demo_order_def)

theorem solve_and_finalize_returns_witness:
  "\<exists>y. solve_and_finalize (lagging_dns ''v'')
     (Dns01Solver_new \<lparr>present = (\<lambda>_ _ w. (Inr (), w)), cleanup = (\<lambda>_ _ w. (Inr (), w)),
        provider_timing = PropagationTiming_default\<rparr>)
     demo_order \<lparr>RESOLVER = None, net = 0\<rparr> = Some y"
proof (rule solve_and_finalize_returns)
  show "advancing_clock (lagging_dns ''v'')"
    by (simp add: advancing_clock_def lagging_dns_def)
qed (simp add: effective_timing_def Dns01Solver_new_def PropagationTiming_default_def from_secs_def)

end
