(* ===== verification/Tls_Alpn.thy ===== *)
theory Tls_Alpn
  imports Acme_Driver
begin

text \<open>
  The TLS-ALPN-01 solver (\<open>tls_alpn.rs\<close>): building the challenge certificate, collecting the pending
  challenges, presenting each certificate and marking its challenge ready, finalizing, and taking the
  certificates down on every path. Certificate generation is a parameter.
\<close>

section \<open>Certificates and responders\<close>

definition ACME_TLS_ALPN_NAME :: string where
  "ACME_TLS_ALPN_NAME = ''acme-tls/1''"

record ChallengeCertificate =
  cert_der :: string
  key_der :: string

record 'w ChallengeResponder =
  tls_present :: "string \<Rightarrow> string \<Rightarrow> string \<Rightarrow> ('w, unit) io"
  tls_cleanup :: "string \<Rightarrow> ('w, unit) io"

record ('p, 'k, 'w) rcgen_env =
  params_new :: "string list \<Rightarrow> string + 'p"
  push_acme_identifier :: "string \<Rightarrow> 'p \<Rightarrow> 'p"
  key_pair_generate :: "('w, string, 'k) act"
  self_signed :: "'p \<Rightarrow> 'k \<Rightarrow> string + string"
  serialize_der :: "'k \<Rightarrow> string"

definition build_challenge_certificate ::
  "('p, 'k, 'w) rcgen_env \<Rightarrow> string \<Rightarrow> string \<Rightarrow> ('w, ChallengeCertificate) io" where
  "build_challenge_certificate R dns_name digest =
     (if length digest \<noteq> 32
      then fail_with (Other (''TLS-ALPN-01 key authorization digest must be 32 bytes, got '' @ show_nat (length digest)))
      else
        attempt (from_result (map_err (\<lambda>e. Other (''challenge cert params for '' @ dns_name @ '': '' @ e))
          (params_new R [dns_name]))) (\<lambda>params.
        let params = push_acme_identifier R digest params in
        attempt (act_map_err (\<lambda>e. Other (''challenge key generation: '' @ e)) (key_pair_generate R)) (\<lambda>key_pair.
        attempt (from_result (map_err (\<lambda>e. Other (''challenge cert self-sign: '' @ e)) (self_signed R params key_pair))) (\<lambda>cert.
        done_ok \<lparr>cert_der = cert, key_der = serialize_der R key_pair\<rparr>))))"

record 'w TlsAlpn01Solver =
  responder :: "'w ChallengeResponder"
  tls_hook :: "(string \<Rightarrow> DnsError \<Rightarrow> 'w \<Rightarrow> 'w) option"

definition TlsAlpn01Solver_new :: "'w ChallengeResponder \<Rightarrow> 'w TlsAlpn01Solver" where
  "TlsAlpn01Solver_new r = \<lparr>responder = r, tls_hook = None\<rparr>"

definition tls_on_cleanup_error :: "'w TlsAlpn01Solver \<Rightarrow> (string \<Rightarrow> DnsError \<Rightarrow> 'w \<Rightarrow> 'w) \<Rightarrow> 'w TlsAlpn01Solver" where
  "tls_on_cleanup_error s hook = s\<lparr>tls_hook := Some hook\<rparr>"

section \<open>Solving\<close>

definition tls_cleanup_guard :: "'w TlsAlpn01Solver \<Rightarrow> (string, 'w) CleanupGuard" where
  "tls_cleanup_guard s = CleanupGuard_new (\<lambda>dns_name w.
     case tls_cleanup (responder s) dns_name w of
       (Inr _, w1) \<Rightarrow> w1
     | (Inl e, w1) \<Rightarrow> (case tls_hook s of None \<Rightarrow> w1 | Some hook \<Rightarrow> hook dns_name e w1))"

fun collect_tls :: "'w order_env \<Rightarrow> nat list \<Rightarrow> ('w, (string \<times> string \<times> string) list) io" where
  "collect_tls A [] w = (Inr [], w)"
| "collect_tls A (i # ixs) w =
     (case authz_next A i w of
        (Inl e, w1) \<Rightarrow> (Inl (from_acme_error e), w1)
      | (Inr authz, w1) \<Rightarrow>
          (case authz_status authz of
             AuthValid \<Rightarrow> collect_tls A ixs w1
           | AuthOther other \<Rightarrow> (Inl (ChallengeInvalid other), w1)
           | AuthPending \<Rightarrow>
               (case authz_identifier authz of
                  OtherIdentifier other \<Rightarrow> (Inl (Other (''unsupported identifier type: '' @ other)), w1)
                | Dns d \<Rightarrow>
                    (case tls_alpn01 authz of
                       None \<Rightarrow> (Inl (Other (''no TLS-ALPN-01 challenge for '' @ d)), w1)
                     | Some challenge \<Rightarrow>
                         attempt (collect_tls A ixs) (\<lambda>rest.
                           done_ok ((d, key_auth_digest challenge, tls_challenge_url challenge) # rest)) w1))))"

fun set_ready_scan :: "'w order_env \<Rightarrow> nat list \<Rightarrow> string \<Rightarrow> ('w, unit) io" where
  "set_ready_scan A [] url w = (Inl (Other (''challenge '' @ url @ '' disappeared from order'')), w)"
| "set_ready_scan A (i # ixs) url w =
     (case authz_next A i w of
        (Inl e, w1) \<Rightarrow> (Inl (from_acme_error e), w1)
      | (Inr authz, w1) \<Rightarrow>
          (case tls_alpn01 authz of
             None \<Rightarrow> set_ready_scan A ixs url w1
           | Some challenge \<Rightarrow>
               if tls_challenge_url challenge = url
               then act_map_err from_acme_error (challenge_set_ready A url) w1
               else set_ready_scan A ixs url w1))"

definition set_ready_by_url :: "'w order_env \<Rightarrow> string \<Rightarrow> ('w, unit) io" where
  "set_ready_by_url A url = set_ready_scan A [0..<authz_count A] url"

fun present_pending ::
  "('p, 'k, 'w) rcgen_env \<Rightarrow> 'w TlsAlpn01Solver \<Rightarrow> 'w order_env \<Rightarrow> (string \<times> string \<times> string) list \<Rightarrow>
   (string, 'w) CleanupGuard \<Rightarrow> 'w \<Rightarrow> unit result \<times> (string, 'w) CleanupGuard \<times> 'w" where
  "present_pending R s A [] g w = (Inr (), g, w)"
| "present_pending R s A ((dns_name, digest, url) # rest) g w =
     (case build_challenge_certificate R dns_name digest w of
        (Inl e, w1) \<Rightarrow> (Inl e, g, w1)
      | (Inr cert, w1) \<Rightarrow>
          (let g = push g dns_name in
           case tls_present (responder s) dns_name (cert_der cert) (key_der cert) w1 of
             (Inl e, w2) \<Rightarrow> (Inl e, g, w2)
           | (Inr _, w2) \<Rightarrow>
               (case set_ready_by_url A url w2 of
                  (Inl e, w3) \<Rightarrow> (Inl e, g, w3)
                | (Inr _, w3) \<Rightarrow> present_pending R s A rest g w3)))"

definition present_all ::
  "('p, 'k, 'w) rcgen_env \<Rightarrow> 'w TlsAlpn01Solver \<Rightarrow> 'w order_env \<Rightarrow> (string, 'w) CleanupGuard \<Rightarrow> 'w \<Rightarrow>
   unit result \<times> (string, 'w) CleanupGuard \<times> 'w" where
  "present_all R s A g w =
     (case collect_tls A [0..<authz_count A] w of
        (Inl e, w1) \<Rightarrow> (Inl e, g, w1)
      | (Inr pend, w1) \<Rightarrow> present_pending R s A pend g w1)"

definition finalize_order :: "'w order_env \<Rightarrow> ('w, string \<times> string) io" where
  "finalize_order A =
     attempt (act_map_err from_acme_error (poll_ready A)) (\<lambda>status.
     case status of
       OrderOther st \<Rightarrow> fail_with (UnexpectedOrderStatus st)
     | OrderReady \<Rightarrow>
         attempt (act_map_err from_acme_error (order_finalize A)) (\<lambda>private_key_pem.
         attempt (act_map_err from_acme_error (poll_certificate A)) (\<lambda>cert_chain_pem.
         done_ok (cert_chain_pem, private_key_pem))))"

definition tls_solve_and_finalize ::
  "('p, 'k, 'w) rcgen_env \<Rightarrow> 'w TlsAlpn01Solver \<Rightarrow> 'w order_env \<Rightarrow> ('w, string \<times> string) io" where
  "tls_solve_and_finalize R s A w =
     (case present_all R s A (tls_cleanup_guard s) w of (r, g, w1) \<Rightarrow>
        (case (case r of Inr _ \<Rightarrow> finalize_order A w1 | Inl e \<Rightarrow> (Inl e, w1)) of
           (outcome, w2) \<Rightarrow> (outcome, snd (run g w2))))"

section \<open>Recording the calls\<close>

datatype tls_event =
    TlsPresented string string string "unit result"
  | TlsReadied string "acme_error + unit"
  | TlsCleaned string "unit result"
  | TlsHooked string DnsError

type_synonym 'w tls_traced = "'w \<times> tls_event list"

definition tls_record :: "('w \<Rightarrow> 'r \<times> 'w) \<Rightarrow> ('r \<Rightarrow> tls_event list) \<Rightarrow> 'w tls_traced \<Rightarrow> 'r \<times> 'w tls_traced" where
  "tls_record m ev wl = (let (r, w) = m (fst wl) in (r, w, snd wl @ ev r))"

definition traced_order :: "'w order_env \<Rightarrow> 'w tls_traced order_env" where
  "traced_order A =
     \<lparr>authz_count = authz_count A, authz_next = (\<lambda>i. tls_record (authz_next A i) (\<lambda>_. [])),
      challenge_set_ready = (\<lambda>url. tls_record (challenge_set_ready A url) (\<lambda>r. [TlsReadied url r])),
      poll_ready = tls_record (poll_ready A) (\<lambda>_. []), order_finalize = tls_record (order_finalize A) (\<lambda>_. []),
      poll_certificate = tls_record (poll_certificate A) (\<lambda>_. [])\<rparr>"

definition traced_rcgen :: "('p, 'k, 'w) rcgen_env \<Rightarrow> ('p, 'k, 'w tls_traced) rcgen_env" where
  "traced_rcgen R =
     \<lparr>params_new = params_new R, push_acme_identifier = push_acme_identifier R,
      key_pair_generate = tls_record (key_pair_generate R) (\<lambda>_. []), self_signed = self_signed R,
      serialize_der = serialize_der R\<rparr>"

definition traced_tls_solver :: "'w TlsAlpn01Solver \<Rightarrow> 'w tls_traced TlsAlpn01Solver" where
  "traced_tls_solver s =
     \<lparr>responder = \<lparr>tls_present = (\<lambda>d c k. tls_record (tls_present (responder s) d c k) (\<lambda>r. [TlsPresented d c k r])),
        tls_cleanup = (\<lambda>d. tls_record (tls_cleanup (responder s) d) (\<lambda>r. [TlsCleaned d r]))\<rparr>,
      tls_hook = map_option (\<lambda>hook d e wl. (hook d e (fst wl), snd wl @ [TlsHooked d e])) (tls_hook s)\<rparr>"

end
