(* ===== verification/Tls_Trace.thy ===== *)
theory Tls_Trace
  imports Tls_Alpn
begin

text \<open>
  What a run of the TLS-ALPN-01 solver does: which certificates it presents, when it marks a challenge
  ready and what it takes down again.
\<close>

section \<open>Reading a trace\<close>

fun tls_presented :: "tls_event list \<Rightarrow> string list" where
  "tls_presented [] = []"
| "tls_presented (TlsPresented d _ _ _ # l) = d # tls_presented l"
| "tls_presented (_ # l) = tls_presented l"

fun tls_cleaned :: "tls_event list \<Rightarrow> string list" where
  "tls_cleaned [] = []"
| "tls_cleaned (TlsCleaned d _ # l) = d # tls_cleaned l"
| "tls_cleaned (_ # l) = tls_cleaned l"

fun tls_teardown :: "tls_event \<Rightarrow> bool" where
  "tls_teardown (TlsCleaned _ _) = True"
| "tls_teardown (TlsHooked _ _) = True"
| "tls_teardown _ = False"

lemma tls_presented_append [simp]: "tls_presented (l @ m) = tls_presented l @ tls_presented m"
  by (induction l rule: tls_presented.induct) simp_all

lemma tls_cleaned_append [simp]: "tls_cleaned (l @ m) = tls_cleaned l @ tls_cleaned m"
  by (induction l rule: tls_cleaned.induct) simp_all

text \<open>\<open>c\<close> and \<open>k\<close> are a challenge certificate of the domain for the digest, and its key.\<close>

definition certifies :: "('p, 'k, 'w) rcgen_env \<Rightarrow> string \<Rightarrow> string \<Rightarrow> string \<Rightarrow> string \<Rightarrow> bool" where
  "certifies R d digest c k \<longleftrightarrow> length digest = 32 \<and>
     (\<exists>params key. params_new R [d] = Inr params \<and>
        self_signed R (push_acme_identifier R digest params) key = Inr c \<and> k = serialize_der R key)"

text \<open>
  \<open>tls_run pend l r\<close>: the calls \<open>l\<close> present the pending challenges in order, each with a certificate
  for its own digest and each directly followed by marking its own URL ready, up to the first failure.
\<close>

inductive tls_run ::
  "('p, 'k, 'w) rcgen_env \<Rightarrow> (string \<times> string \<times> string) list \<Rightarrow> tls_event list \<Rightarrow> unit result \<Rightarrow> bool" for R where
  run_done: "tls_run R [] [] (Inr ())"
| run_no_cert: "tls_run R ((d, digest, url) # rest) [] (Inl e)"
| run_not_presented: "certifies R d digest c k \<Longrightarrow>
    tls_run R ((d, digest, url) # rest) [TlsPresented d c k (Inl e)] (Inl e)"
| run_gone: "certifies R d digest c k \<Longrightarrow>
    tls_run R ((d, digest, url) # rest) [TlsPresented d c k (Inr ())] (Inl e)"
| run_not_ready: "certifies R d digest c k \<Longrightarrow>
    tls_run R ((d, digest, url) # rest) [TlsPresented d c k (Inr ()), TlsReadied url (Inl e)] (Inl (from_acme_error e))"
| run_next: "certifies R d digest c k \<Longrightarrow> tls_run R rest l r \<Longrightarrow>
    tls_run R ((d, digest, url) # rest) (TlsPresented d c k (Inr ()) # TlsReadied url (Inr ()) # l) r"

lemma tls_record_run [simp]: "tls_record m ev (w, l) = (fst (m w), snd (m w), l @ ev (fst (m w)))"
  by (simp add: tls_record_def split: prod.splits)

lemma collect_tls_log:
  "snd (snd (collect_tls (traced_order A) ixs (w, l))) = l"
proof (induction ixs arbitrary: w)
  case (Cons i ixs)
  obtain a w1 where n: "authz_next A i w = (a, w1)" by fastforce
  then have "authz_next (traced_order A) i (w, l) = (a, w1, l)" by (simp add: traced_order_def)
  with Cons [of w1] show ?case
    by (auto simp: attempt_def split: sum.splits AuthorizationStatus.splits Identifier.splits option.splits prod.splits)
qed simp

lemma set_ready_log:
  assumes "set_ready_scan (traced_order A) ixs url (w, l) = (r, w', l')"
  shows "l' = l \<and> r \<noteq> Inr () \<or> (\<exists>x. l' = l @ [TlsReadied url x] \<and> r = map_err from_acme_error x)"
  using assms
proof (induction ixs arbitrary: w)
  case (Cons i ixs)
  obtain a w1 where n: "authz_next A i w = (a, w1)" by fastforce
  then have n': "authz_next (traced_order A) i (w, l) = (a, w1, l)" by (simp add: traced_order_def)
  have sr: "challenge_set_ready (traced_order A) url (w1, l) =
      (fst (challenge_set_ready A url w1), snd (challenge_set_ready A url w1),
       l @ [TlsReadied url (fst (challenge_set_ready A url w1))])" by (simp add: traced_order_def)
  show ?case
  proof (cases "\<exists>authz h. a = Inr authz \<and> tls_alpn01 authz = Some h \<and> tls_challenge_url h = url")
    case True
    with Cons(2) n' sr show ?thesis
      by (auto simp: act_map_err_def map_err_def split: sum.splits)
  next
    case False
    with Cons n' show ?thesis by (auto split: sum.splits option.splits if_splits)
  qed
qed auto

lemma build_certificate_log:
  assumes "build_challenge_certificate (traced_rcgen R) d digest (w, l) = (r, w', l')"
  shows "l' = l" "r = Inr cert \<Longrightarrow> certifies R d digest (cert_der cert) (key_der cert)"
  using assms unfolding build_challenge_certificate_def certifies_def
  by (auto simp: attempt_def act_map_err_def traced_rcgen_def Let_def split: if_splits sum.splits prod.splits)

lemma map_err_InlD: "Inl e = map_err f x \<Longrightarrow> \<exists>e'. x = Inl e' \<and> e = f e'"
  by (cases x) (auto simp: map_err_def)

lemma map_err_InrD: "Inr v = map_err f x \<Longrightarrow> x = Inr v"
  by (cases x) (auto simp: map_err_def)

lemma present_pending_log:
  assumes "present_pending (traced_rcgen R) (traced_tls_solver s) (traced_order A) pend g (w, l) = (r, g', w', l')"
  shows "\<exists>m. l' = l @ m \<and> tls_run R pend m r \<and> cleanup_fn g' = cleanup_fn g \<and> pending g' = pending g @ tls_presented m"
  using assms
proof (induction pend arbitrary: g w l)
  case Nil
  then show ?case by (auto intro: run_done)
next
  case (Cons p pend)
  obtain d digest url where p: "p = (d, digest, url)" by (metis prod_cases3)
  obtain x w1 l1 where b: "build_challenge_certificate (traced_rcgen R) d digest (w, l) = (x, w1, l1)"
    by (metis prod_cases3)
  note cert = build_certificate_log [OF b]
  show ?case
  proof (cases x)
    case (Inl e)
    with Cons(2) p b cert(1) show ?thesis by (auto intro: run_no_cert)
  next
    case (Inr c)
    note certifies = cert(2) [OF Inr]
    let ?pr = "tls_present (responder s) d (cert_der c) (key_der c) w1"
    have pr: "tls_present (responder (traced_tls_solver s)) d (cert_der c) (key_der c) (w1, l1)
      = (fst ?pr, snd ?pr, l1 @ [TlsPresented d (cert_der c) (key_der c) (fst ?pr)])"
      by (simp add: traced_tls_solver_def)
    show ?thesis
    proof (cases "fst ?pr")
      case (Inl e)
      with Cons(2) p b Inr pr cert(1) certifies show ?thesis
        using run_not_presented [OF certifies, of url pend e] by auto
    next
      case (Inr u)
      let ?l2 = "l @ [TlsPresented d (cert_der c) (key_der c) (Inr ())]"
      obtain y w3 l3 where sr: "set_ready_by_url (traced_order A) url (snd ?pr, ?l2) = (y, w3, l3)"
        by (metis prod_cases3)
      note log = set_ready_log [OF sr [unfolded set_ready_by_url_def]]
      have rest: "(case y of Inl e \<Rightarrow> (Inl e, push g d, w3, l3)
        | Inr _ \<Rightarrow> present_pending (traced_rcgen R) (traced_tls_solver s) (traced_order A) pend (push g d) (w3, l3))
          = (r, g', w', l')"
        using Cons(2) by (simp add: p b \<open>x = Inr c\<close> pr [unfolded cert(1)] cert(1) Inr sr Let_def split: sum.splits)
      show ?thesis
      proof (cases y)
        case (Inl e)
        with rest have "r = Inl e" "g' = push g d" "l' = l3" by simp_all
        moreover from log Inl have "l3 = ?l2 \<or>
            (\<exists>e'. l3 = ?l2 @ [TlsReadied url (Inl e')] \<and> e = from_acme_error e')"
          by (auto dest: map_err_InlD)
        ultimately show ?thesis
          using run_gone [OF certifies, of url pend e] run_not_ready [OF certifies, of url pend] p by auto
      next
        case (Inr v)
        with log have l3: "l3 = ?l2 @ [TlsReadied url (Inr ())]" by (auto dest: map_err_InrD)
        from rest Inr Cons(1) [of "push g d" w3 l3] obtain m where "l' = l3 @ m" "tls_run R pend m r"
          "cleanup_fn g' = cleanup_fn g" "pending g' = pending (push g d) @ tls_presented m" by auto
        with l3 certifies p show ?thesis
          by (intro exI [of _ "TlsPresented d (cert_der c) (key_der c) (Inr ()) # TlsReadied url (Inr ()) # m"])
            (auto intro: run_next)
      qed
    qed
  qed
qed

section \<open>Tearing down\<close>

definition tls_teardown_of :: "string list \<Rightarrow> bool \<Rightarrow> tls_event list \<Rightarrow> bool" where
  "tls_teardown_of ds hooked l \<longleftrightarrow> list_all tls_teardown l \<and> tls_cleaned l = ds \<and>
     (\<forall>d e. TlsHooked d e \<in> set l \<longleftrightarrow> hooked \<and> TlsCleaned d (Inl e) \<in> set l)"

lemma tls_cleanup_log:
  "\<exists>m. snd (fold (cleanup_fn (tls_cleanup_guard (traced_tls_solver s))) ds wl) = snd wl @ m \<and>
     tls_teardown_of ds (tls_hook s \<noteq> None) m"
proof (induction ds arbitrary: wl)
  case (Cons d ds)
  let ?f = "cleanup_fn (tls_cleanup_guard (traced_tls_solver s))"
  let ?r = "fst (tls_cleanup (responder s) d (fst wl))"
  let ?c = "TlsCleaned d ?r"
  let ?h = "case ?r of Inl e \<Rightarrow> if tls_hook s = None then [] else [TlsHooked d e] | Inr _ \<Rightarrow> []"
  have "snd (?f d wl) = snd wl @ ?c # ?h"
    by (cases wl) (auto simp: tls_cleanup_guard_def CleanupGuard_new_def traced_tls_solver_def
        split: sum.splits option.splits)
  moreover obtain m where "snd (fold ?f ds (?f d wl)) = snd (?f d wl) @ m"
    "tls_teardown_of ds (tls_hook s \<noteq> None) m" using Cons by blast
  moreover from this(2) have "tls_teardown_of (d # ds) (tls_hook s \<noteq> None) (?c # ?h @ m)"
    by (auto simp: tls_teardown_of_def split: sum.splits)
  ultimately show ?case by (intro exI [of _ "?c # ?h @ m"]) simp
qed (simp add: tls_teardown_of_def)

lemma finalize_order_log: "snd (snd (finalize_order (traced_order A) (w, l))) = l"
  by (auto simp: finalize_order_def attempt_def act_map_err_def traced_order_def
      split: prod.splits sum.splits OrderStatus.splits)

lemma tls_solve_log:
  assumes "tls_solve_and_finalize (traced_rcgen R) (traced_tls_solver s) (traced_order A) (w, []) = (r, w', l)"
  obtains m down pend r1 where "l = m @ down" "tls_teardown_of (tls_presented m) (tls_hook s \<noteq> None) down"
    "m = [] \<or> fst (collect_tls (traced_order A) [0..<authz_count A] (w, [])) = Inr pend \<and> tls_run R pend m r1"
proof -
  obtain r1 g w1 l1 where pa: "present_all (traced_rcgen R) (traced_tls_solver s) (traced_order A)
      (tls_cleanup_guard (traced_tls_solver s)) (w, []) = (r1, g, w1, l1)" by (metis prod_cases4)
  obtain x w0 where c: "collect_tls (traced_order A) [0..<authz_count A] (w, []) = (x, w0, [])"
    using collect_tls_log [of A _ w "[]"] by (metis prod.collapse)
  have count: "authz_count (traced_order A) = authz_count A" by (simp add: traced_order_def)
  have g: "pending g = tls_presented l1 \<and> cleanup_fn g = cleanup_fn (tls_cleanup_guard (traced_tls_solver s)) \<and>
      (l1 = [] \<or> (\<exists>pend. x = Inr pend \<and> tls_run R pend l1 r1))"
  proof (cases x)
    case (Inl e)
    with pa c count show ?thesis by (auto simp: present_all_def tls_cleanup_guard_def CleanupGuard_new_def)
  next
    case (Inr pend)
    with pa c count present_pending_log [of R s A pend "tls_cleanup_guard (traced_tls_solver s)" w0 "[]" r1 g w1 l1]
    show ?thesis by (auto simp: present_all_def tls_cleanup_guard_def CleanupGuard_new_def)
  qed
  have "\<exists>w2. fold (cleanup_fn g) (pending g) (w2, l1) = (w', l)"
    using assms pa finalize_order_log [of A w1 l1]
    by (auto simp: tls_solve_and_finalize_def run_fold split: sum.splits prod.splits)
  then obtain w2 where "fold (cleanup_fn g) (pending g) (w2, l1) = (w', l)" ..
  with g tls_cleanup_log [of s "pending g" "(w2, l1)"] obtain down where "l = l1 @ down"
    "tls_teardown_of (tls_presented l1) (tls_hook s \<noteq> None) down" by (metis snd_conv)
  with g c that show ?thesis by auto
qed

lemma tls_run_acting: "tls_run R pend m r \<Longrightarrow> list_all (\<lambda>e. \<not> tls_teardown e) m"
  by (induction rule: tls_run.induct) auto

lemma tls_run_ready:
  "tls_run R pend m r \<Longrightarrow> m = a @ TlsReadied url x # b \<Longrightarrow>
   \<exists>a' d digest c k. a = a' @ [TlsPresented d c k (Inr ())] \<and> (d, digest, url) \<in> set pend \<and> certifies R d digest c k"
proof (induction arbitrary: a rule: tls_run.induct)
  case (run_not_ready d digest c k url' rest e)
  then show ?case by (cases a rule: rev_cases) (auto simp: Cons_eq_append_conv append_eq_Cons_conv)
next
  case (run_next d digest c k rest l r url')
  show ?case
  proof (cases "\<exists>a2. a = TlsPresented d c k (Inr ()) # TlsReadied url' (Inr ()) # a2")
    case True
    then obtain a2 where a2: "a = TlsPresented d c k (Inr ()) # TlsReadied url' (Inr ()) # a2" ..
    with run_next.prems run_next.IH [of a2] show ?thesis by fastforce
  next
    case False
    with run_next.prems have "a = [TlsPresented d c k (Inr ())]" "url = url'"
      by (auto simp: Cons_eq_append_conv)
    with run_next.hyps show ?thesis by auto
  qed
qed (auto simp: Cons_eq_append_conv)

text \<open>C36: on every path of the TLS-ALPN-01 solver the teardown comes last and takes down exactly the
  domains whose certificate it tried to present, in order, the failed one included; the cleanup hook
  sees exactly the teardowns that failed.\<close>

theorem tls_cleans_what_it_presented:
  assumes "tls_solve_and_finalize (traced_rcgen R) (traced_tls_solver s) (traced_order A) (w, []) = (r, w', l)"
  shows "\<exists>acting down. l = acting @ down \<and>
     list_all (\<lambda>e. \<not> tls_teardown e) acting \<and> list_all tls_teardown down \<and>
     tls_cleaned down = tls_presented acting \<and>
     (\<forall>d e. TlsHooked d e \<in> set down \<longleftrightarrow> tls_hook s \<noteq> None \<and> TlsCleaned d (Inl e) \<in> set down)"
proof (rule tls_solve_log [OF assms])
  fix m down pend r1
  assume "l = m @ down" "tls_teardown_of (tls_presented m) (tls_hook s \<noteq> None) down"
    "m = [] \<or> fst (collect_tls (traced_order A) [0..<authz_count A] (w, [])) = Inr pend \<and> tls_run R pend m r1"
  then show ?thesis
    using tls_run_acting [of R pend m r1]
    by (intro exI [of _ m] exI [of _ down]) (auto simp: tls_teardown_of_def)
qed

text \<open>A challenge is marked ready only directly after the certificate of its own domain was
  presented successfully, and that certificate was built for the domain alone with the 32-byte digest of
  this very challenge.\<close>

theorem tls_ready_after_presented:
  assumes "tls_solve_and_finalize (traced_rcgen R) (traced_tls_solver s) (traced_order A) (w, []) = (r, w', l)"
    and "l = before @ TlsReadied url x # after"
  shows "\<exists>pend before' d digest c k. fst (collect_tls (traced_order A) [0..<authz_count A] (w, [])) = Inr pend \<and>
     (d, digest, url) \<in> set pend \<and> before = before' @ [TlsPresented d c k (Inr ())] \<and> length digest = 32 \<and>
     (\<exists>params key. params_new R [d] = Inr params \<and>
        self_signed R (push_acme_identifier R digest params) key = Inr c \<and> k = serialize_der R key)"
proof (rule tls_solve_log [OF assms(1)])
  fix m down pend r1
  assume l: "l = m @ down" and down: "tls_teardown_of (tls_presented m) (tls_hook s \<noteq> None) down"
    and m: "m = [] \<or> fst (collect_tls (traced_order A) [0..<authz_count A] (w, [])) = Inr pend \<and> tls_run R pend m r1"
  have "TlsReadied url x \<notin> set down" using down by (auto simp: tls_teardown_of_def list_all_iff)
  then obtain b where b: "m = before @ TlsReadied url x # b"
    using l assms(2) by (auto simp: append_eq_append_conv2 Cons_eq_append_conv)
  then have "tls_run R pend m r1" "fst (collect_tls (traced_order A) [0..<authz_count A] (w, [])) = Inr pend"
    using m by auto
  with tls_run_ready [OF this(1) b] show ?thesis unfolding certifies_def by blast
qed

section \<open>A concrete run\<close>

text \<open>The second certificate is refused, and taking the first one down fails.\<close>

definition demo_rcgen :: "(string list, string, nat) rcgen_env" where
  "demo_rcgen =
     \<lparr>params_new = Inr, push_acme_identifier = (\<lambda>digest ps. ps @ [digest]),
      key_pair_generate = (\<lambda>n. (Inr (show_nat n), Suc n)), self_signed = (\<lambda>ps k. Inr (concat ps @ k)),
      serialize_der = (\<lambda>k. k)\<rparr>"

definition demo_tls_solver :: "nat TlsAlpn01Solver" where
  "demo_tls_solver = tls_on_cleanup_error (TlsAlpn01Solver_new
     \<lparr>tls_present = (\<lambda>_ _ _ n. (if n < 2 then Inr () else Inl (Api ''full''), n)),
      tls_cleanup = (\<lambda>_ n. (if n < 3 then Inl (Api ''gone'') else Inr (), Suc n))\<rparr>) (\<lambda>_ _ n. n)"

definition demo_cert :: "string \<Rightarrow> string" where
  "demo_cert k = [CHR ''a'', DOT] @ replicate 32 (CHR ''d'') @ k"

definition demo_tls_trace :: "tls_event list" where
  "demo_tls_trace =
     [TlsPresented [CHR ''a'', DOT] (demo_cert ''0'') ''0'' (Inr ()), TlsReadied ''0'' (Inr ()),
      TlsPresented [CHR ''a'', DOT] (demo_cert ''1'') ''1'' (Inl (Api ''full'')),
      TlsCleaned [CHR ''a'', DOT] (Inl (Api ''gone'')), TlsHooked [CHR ''a'', DOT] (Api ''gone''),
      TlsCleaned [CHR ''a'', DOT] (Inr ())]"

lemma demo_tls_run:
  "tls_solve_and_finalize (traced_rcgen demo_rcgen) (traced_tls_solver demo_tls_solver) (traced_order demo_order) (0, [])
     = (Inl (Api ''full''), 4, demo_tls_trace)"
  by code_simp

theorem tls_cleans_what_it_presented_witness:
  "\<exists>acting down. demo_tls_trace = acting @ down \<and>
     list_all (\<lambda>e. \<not> tls_teardown e) acting \<and> list_all tls_teardown down \<and>
     tls_cleaned down = tls_presented acting \<and>
     (\<forall>d e. TlsHooked d e \<in> set down \<longleftrightarrow> tls_hook demo_tls_solver \<noteq> None \<and> TlsCleaned d (Inl e) \<in> set down)"
  by (rule tls_cleans_what_it_presented [OF demo_tls_run])

theorem tls_ready_after_presented_witness:
  "\<exists>pend before' d digest c k.
     fst (collect_tls (traced_order demo_order) [0..<authz_count (demo_order :: nat order_env)] (0 :: nat, [])) = Inr pend \<and>
     (d, digest, ''0'') \<in> set pend \<and> take 1 demo_tls_trace = before' @ [TlsPresented d c k (Inr ())] \<and>
     length digest = 32 \<and>
     (\<exists>params key. params_new demo_rcgen [d] = Inr params \<and>
        self_signed demo_rcgen (push_acme_identifier demo_rcgen digest params) key = Inr c \<and>
        k = serialize_der demo_rcgen key)"
  by (rule tls_ready_after_presented [OF demo_tls_run, where x = "Inr ()" and after = "drop 2 demo_tls_trace"])
    (simp add: demo_tls_trace_def)

end
