(* ===== verification/Provider_Solve.thy ===== *)
theory Provider_Solve
  imports Acme_Driver Tls_Trace
begin

text \<open>
  Solving with a provider that keeps the contract: the DNS after a solve. The second part models the
  in-memory test doubles (\<open>testing.rs\<close>) and shows that they keep the contract.
\<close>

section \<open>Who else acts during a solve\<close>

definition leaves :: "('w \<Rightarrow> 't) \<Rightarrow> ('w \<Rightarrow> bool) \<Rightarrow> ('w \<Rightarrow> 'w) \<Rightarrow> bool" where
  "leaves txts good m \<longleftrightarrow> (\<forall>w. good w \<longrightarrow> good (m w) \<and> txts (m w) = txts w)"

text \<open>The driver, the waits and the cleanup hook do not edit the provider's zone.\<close>

definition bystanders ::
  "('w \<Rightarrow> 't) \<Rightarrow> ('w \<Rightarrow> bool) \<Rightarrow> 'w solver_env \<Rightarrow> 'w Dns01Solver \<Rightarrow> 'w ChallengeDriver \<Rightarrow> bool" where
  "bystanders txts good E s D \<longleftrightarrow>
     leaves txts good (snd \<circ> next_dns01 D) \<and> (\<forall>ts. leaves txts good (snd \<circ> set_ready D ts)) \<and>
     leaves txts good (snd \<circ> finalize D) \<and> (\<forall>d. leaves txts good (tokio_sleep E d)) \<and>
     (skip_propagation s = None \<longrightarrow> (\<forall>f v rs t w r w'. good w \<longrightarrow> propagation_wait E f v rs t w = Some (r, w') \<longrightarrow>
        good w' \<and> txts w' = txts w)) \<and>
     (\<forall>hook f e. cleanup_hook s = Some hook \<longrightarrow> leaves txts good (hook f e))"

definition yields :: "('w \<Rightarrow> bool) \<Rightarrow> 'w ChallengeDriver \<Rightarrow> (Dns01Challenge \<Rightarrow> bool) \<Rightarrow> bool" where
  "yields good D Q \<longleftrightarrow> (\<forall>w c w1. good w \<longrightarrow> next_dns01 D w = (Some (Inr c), w1) \<longrightarrow> Q c)"

definition keyed :: "(string \<Rightarrow> 'k) \<Rightarrow> PlacedRecord list \<Rightarrow> ('k \<times> string) set" where
  "keyed key ps = (\<lambda>r. (key (rec_fqdn r), rec_value r)) ` set ps"

lemma keyed_append [simp]: "keyed key (ps @ qs) = keyed key ps \<union> keyed key qs"
  by (simp add: keyed_def image_Un)

lemma wait_all_leaves:
  assumes "\<And>f v rs t w r w'. good w \<Longrightarrow> propagation_wait E f v rs t w = Some (r, w') \<Longrightarrow> good w' \<and> txts w' = txts w"
  shows "wait_all E s ps w = Some (r, w') \<Longrightarrow> good w \<Longrightarrow> good w' \<and> txts w' = txts w"
proof (induction ps arbitrary: w)
  case (Cons p ps)
  then show ?case
    using assms by (auto split: option.splits prod.splits sum.splits)
qed simp

section \<open>The zone after a solve\<close>

context dns_provider
begin

lemma cleanup_guard_fold:
  assumes "provider s = P" "\<forall>hook f e. cleanup_hook s = Some hook \<longrightarrow> leaves txts good (hook f e)" "good w"
  shows "good (fold (cleanup_fn (cleanup_guard s)) ps w)"
    and "same_except (keyed key ps) (txts w) (txts (fold (cleanup_fn (cleanup_guard s)) ps w))"
    and "(\<And>f v w. good w \<Longrightarrow> fst (cleanup P f v w) = Inr ()) \<Longrightarrow> (k, u) \<in> keyed key ps \<Longrightarrow>
      u \<notin> txts (fold (cleanup_fn (cleanup_guard s)) ps w) k"
proof -
  let ?f = "cleanup_fn (cleanup_guard s)"
  have step: "good (?f p w) \<and> same_except (keyed key [p]) (txts w) (txts (?f p w)) \<and>
      (fst (cleanup P (rec_fqdn p) (rec_value p) w) = Inr () \<longrightarrow> rec_value p \<notin> txts (?f p w) (key (rec_fqdn p)))"
    if "good w" for p w
  proof -
    obtain x w1 where c: "cleanup P (rec_fqdn p) (rec_value p) w = (x, w1)" by fastforce
    have "good w1" "same_except (keyed key [p]) (txts w) (txts w1)"
      using cleanup_good [OF that, of "rec_fqdn p" "rec_value p"]
        cleanup_frame [OF that, of _ _ "rec_fqdn p" "rec_value p"] c
      by (auto simp: same_except_def keyed_def)
    with c assms(1,2) cleanup_ok [OF that, of "rec_fqdn p" "rec_value p"] show ?thesis
      by (auto simp: cleanup_guard_def CleanupGuard_new_def leaves_def split: sum.splits option.splits)
  qed
  show g: "good (fold ?f ps w)" using assms(3) step by (induction ps arbitrary: w) auto
  show "same_except (keyed key ps) (txts w) (txts (fold ?f ps w))"
    using assms(3)
  proof (induction ps arbitrary: w)
    case (Cons p ps)
    from step [OF Cons(2)] Cons(1) [of "?f p w"] show ?case
      by (auto simp: keyed_def intro: same_except_trans)
  qed simp
  show "u \<notin> txts (fold ?f ps w) k"
    if "\<And>f v w. good w \<Longrightarrow> fst (cleanup P f v w) = Inr ()" "(k, u) \<in> keyed key ps"
    using that(2)
  proof (induction ps rule: rev_induct)
    case (snoc p ps)
    have gw: "good (fold ?f ps w)" using assms(3) step by (induction ps arbitrary: w) auto
    note last = step [OF gw, of p]
    show ?case
    proof (cases "(k, u) \<in> keyed key [p]")
      case True
      with last that(1) [OF gw] show ?thesis by (auto simp: keyed_def)
    next
      case False
      with last snoc show ?thesis by (auto simp: same_except_def)
    qed
  qed (simp add: keyed_def)
qed

lemma present_loop_zone:
  assumes "present_loop s D g ts w = Some y" "provider s = P" "leaves txts good (snd \<circ> next_dns01 D)" "yields good D Q"
  shows "good w \<Longrightarrow> case y of (r, g', w') \<Rightarrow> good w' \<and> cleanup_fn g' = cleanup_fn g \<and>
    (\<exists>cs. (\<forall>c \<in> set cs. Q c) \<and> pending g' = pending g @ map chal_record cs \<and>
       same_except (keyed key (map chal_record cs)) (txts w) (txts w'))"
  using assms(1)
proof (induction rule: present_loop_induct)
  case (present_error g ts w w1 w2 c e)
  have w1: "good w1" "txts w1 = txts w" using present_error(1,3) assms(3) unfolding leaves_def by auto
  have "Q c" using assms(4) present_error(1,3) unfolding yields_def by blast
  with w1 present_error present_good [OF w1(1), of "chal_fqdn c" "dns_value c"]
    present_frame [OF w1(1), of _ _ "chal_fqdn c" "dns_value c"] assms(2)
  show ?case by (auto simp: same_except_def keyed_def intro!: exI [of _ "[c]"])
next
  case (again g ts w w1 w2 c y)
  have w1: "good w1" "txts w1 = txts w" using again(1,4) assms(3) unfolding leaves_def by auto
  have c: "Q c" using assms(4) again(1,4) unfolding yields_def by blast
  have w2: "good w2" "same_except (keyed key [chal_record c]) (txts w) (txts w2)"
    using again(2) w1 present_good [OF w1(1), of "chal_fqdn c" "dns_value c"]
      present_frame [OF w1(1), of _ _ "chal_fqdn c" "dns_value c"] assms(2)
    by (auto simp: same_except_def keyed_def)
  obtain r g' w' where y: "y = (r, g', w')" by (metis prod_cases3)
  from again(3) [OF w2(1)] y obtain cs where cs: "good w'" "cleanup_fn g' = cleanup_fn g" "\<forall>c \<in> set cs. Q c"
    "pending g' = pending g @ map chal_record (c # cs)"
    "same_except (keyed key (map chal_record cs)) (txts w2) (txts w')" by auto
  moreover have "same_except (keyed key (map chal_record (c # cs))) (txts w) (txts w')"
    using w2(2) cs(5) by (rule same_except_trans) (auto simp: keyed_def)
  ultimately show ?case using y c by (auto intro!: exI [of _ "c # cs"])
qed (use assms(3) in \<open>auto simp: leaves_def intro!: exI [of _ "[]"]\<close>)

lemma present_then_ready_zone:
  assumes "present_then_ready E s D g w = Some (r, g', w')"
    and "provider s = P" "bystanders txts good E s D" "yields good D Q" "good w"
  shows "good w' \<and> cleanup_fn g' = cleanup_fn g \<and>
    (\<exists>cs. (\<forall>c \<in> set cs. Q c) \<and> pending g' = pending g @ map chal_record cs \<and>
       same_except (keyed key (map chal_record cs)) (txts w) (txts w'))"
proof -
  note by_w = assms(3) [unfolded bystanders_def]
  from assms(1) obtain r0 w0 where pl: "present_loop s D g [] w = Some (r0, g', w0)"
    by (auto simp: present_then_ready_def split: option.splits prod.splits sum.splits)
  have "leaves txts good (snd \<circ> next_dns01 D)" using by_w by simp
  from present_loop_zone [OF pl assms(2) this assms(4,5)] have w0: "good w0" "cleanup_fn g' = cleanup_fn g"
    "\<exists>cs. (\<forall>c \<in> set cs. Q c) \<and> pending g' = pending g @ map chal_record cs \<and>
       same_except (keyed key (map chal_record cs)) (txts w) (txts w0)" by auto
  have "good w' \<and> txts w' = txts w0"
  proof (cases r0)
    case (Inl e)
    with assms(1) pl w0 show ?thesis by (simp add: present_then_ready_def)
  next
    case (Inr tokens)
    let ?wait = "case skip_propagation s of
        Some delay \<Rightarrow> Some (Inr (), tokio_sleep E delay w0) | None \<Rightarrow> wait_all E s (pending g') w0"
    have body: "(case ?wait of None \<Rightarrow> None | Some (Inl e, w2) \<Rightarrow> Some (Inl e, g', w2)
        | Some (Inr _, w2) \<Rightarrow> (case set_ready D tokens w2 of (r, w3) \<Rightarrow> Some (r, g', w3))) = Some (r, g', w')"
      using assms(1) unfolding present_then_ready_def pl Inr by simp
    then obtain x w1 where wait: "?wait = Some (x, w1)" by (cases ?wait) auto
    have w1: "w' = w1 \<or> w' = snd (set_ready D tokens w1)"
      using body unfolding wait by (cases x) (auto split: prod.splits)
    have "good w1 \<and> txts w1 = txts w0"
    proof (cases "skip_propagation s")
      case None
      then show ?thesis
        using wait w0(1) by_w wait_all_leaves [of good E txts s "pending g'" w0 x w1] by fastforce
    next
      case (Some delay)
      then have "w1 = tokio_sleep E delay w0" using wait by simp
      then show ?thesis using by_w w0(1) unfolding leaves_def by blast
    qed
    moreover have "leaves txts good (snd \<circ> set_ready D tokens)" using by_w by blast
    ultimately show ?thesis using w1 unfolding leaves_def by auto
  qed
  with w0 show ?thesis by auto
qed

lemma solve_zone:
  assumes "provider s = P" "bystanders txts good E s D" "yields good D Q" "good w"
    and "solve_with_driver E s D w = Some (r, w')"
  shows "\<exists>cs. (\<forall>c \<in> set cs. Q c) \<and> same_except (keyed key (map chal_record cs)) (txts w) (txts w') \<and>
    ((\<forall>f v w. good w \<longrightarrow> fst (cleanup P f v w) = Inr ()) \<longrightarrow>
     (\<forall>(k, u) \<in> keyed key (map chal_record cs). u \<notin> txts w' k))"
proof -
  from assms(5) obtain r1 g w1 r2 w2 where
    ptr: "present_then_ready E s D (cleanup_guard s) w = Some (r1, g, w1)"
    and fin: "(case r1 of Inr _ \<Rightarrow> finalize D w1 | Inl e \<Rightarrow> (Inl e, w1)) = (r2, w2)"
    and w': "w' = fold (cleanup_fn g) (pending g) w2"
    by (auto simp: solve_with_driver_def run_fold split: option.splits prod.splits)
  have "pending (cleanup_guard s) = []" by (simp add: cleanup_guard_def CleanupGuard_new_def)
  with present_then_ready_zone [OF ptr assms(1-4)] obtain cs where w1: "good w1"
    "cleanup_fn g = cleanup_fn (cleanup_guard s)" "\<forall>c \<in> set cs. Q c" "pending g = map chal_record cs"
    "same_except (keyed key (map chal_record cs)) (txts w) (txts w1)"
    by auto
  have "leaves txts good (snd \<circ> finalize D)" using assms(2) unfolding bystanders_def by blast
  moreover have "w2 = w1 \<or> w2 = snd (finalize D w1)" using fin by (cases r1) auto
  ultimately have w2: "good w2 \<and> txts w2 = txts w1" using w1(1) unfolding leaves_def by auto
  have hook: "\<forall>hook f e. cleanup_hook s = Some hook \<longrightarrow> leaves txts good (hook f e)"
    using assms(2) unfolding bystanders_def by blast
  note down = cleanup_guard_fold [OF assms(1) hook conjunct1 [OF w2], where ps = "map chal_record cs"]
  have "same_except (keyed key (map chal_record cs)) (txts w) (txts w')"
    using same_except_trans [OF w1(5) down(2) [unfolded conjunct2 [OF w2]]] w' w1(2,4) by auto
  with down(3) w' w1(2-4) show ?thesis by (intro exI [of _ cs]) auto
qed

end

text \<open>The contract holds beside the driver's state as well.\<close>

lemma beside_contract:
  assumes "dns_provider (provider s) txts key good"
  shows "dns_provider (provider (beside_solver s)) (txts \<circ> fst) key (\<lambda>wd. good (fst wd) \<and> J (snd wd))"
proof -
  note laws = assms [unfolded dns_provider_def]
  show ?thesis
    using laws unfolding dns_provider_def beside_solver_def
    by (auto simp: beside_def split: prod.splits) (metis fst_conv snd_conv)+
qed

section \<open>The test doubles\<close>

record 'n mock_world = "'n world" +
  mock_records :: "(string \<times> string) list"
  mock_presented :: "(string \<times> string \<times> string) list"

definition mock_present :: "bool \<Rightarrow> string \<Rightarrow> string \<Rightarrow> (('n, 'z) mock_world_scheme, unit) io" where
  "mock_present fail_present fqdn v w =
     (if fail_present then (Inl (Api (''mock present failure for '' @ fqdn)), w)
      else (Inr (), w\<lparr>mock_records := mock_records w @ [(fqdn, v)]\<rparr>))"

definition mock_cleanup :: "string \<Rightarrow> string \<Rightarrow> (('n, 'z) mock_world_scheme, unit) io" where
  "mock_cleanup fqdn v w =
     (Inr (), w\<lparr>mock_records := filter (\<lambda>(f, u). \<not> (f = fqdn \<and> u = v)) (mock_records w)\<rparr>)"

definition MockDnsProvider :: "bool \<Rightarrow> ('n, 'z) mock_world_scheme DnsProvider" where
  "MockDnsProvider fail_present =
     \<lparr>present = mock_present fail_present, cleanup = mock_cleanup,
      provider_timing = \<lparr>timeout = from_secs 1, interval = from_millis 10\<rparr>\<rparr>"

lemma MockDnsProvider_simps [simp]:
  "present (MockDnsProvider fl) = mock_present fl" "cleanup (MockDnsProvider fl) = mock_cleanup"
  by (simp_all add: MockDnsProvider_def)

definition present_records :: "('n, 'z) mock_world_scheme \<Rightarrow> (string \<times> string) list" where
  "present_records w = mock_records w"

definition has_record :: "string \<Rightarrow> string \<Rightarrow> ('n, 'z) mock_world_scheme \<Rightarrow> bool" where
  "has_record fqdn v w = list_ex (\<lambda>(f, u). f = fqdn \<and> u = v) (mock_records w)"

definition MockChallengeResponder :: "bool \<Rightarrow> ('n, 'z) mock_world_scheme ChallengeResponder" where
  "MockChallengeResponder fail_present =
     \<lparr>tls_present = (\<lambda>d c k w. if fail_present then (Inl (Other (''mock present failure for '' @ d)), w)
        else (Inr (), w\<lparr>mock_presented := mock_presented w @ [(d, c, k)]\<rparr>)),
      tls_cleanup = (\<lambda>d w. (Inr (), w\<lparr>mock_presented := filter (\<lambda>(e, _, _). e \<noteq> d) (mock_presented w)\<rparr>))\<rparr>"

definition presented_domains :: "('n, 'z) mock_world_scheme \<Rightarrow> string list" where
  "presented_domains w = map (\<lambda>(d, _, _). d) (mock_presented w)"

definition is_presenting :: "string \<Rightarrow> ('n, 'z) mock_world_scheme \<Rightarrow> bool" where
  "is_presenting dns_name w = list_ex (\<lambda>(d, _, _). d = dns_name) (mock_presented w)"

interpretation mock: dns_provider "MockDnsProvider fl" "\<lambda>w f. {v. has_record f v w}" "\<lambda>f. f" "\<lambda>_. True"
  by unfold_locales (auto simp: mock_present_def mock_cleanup_def has_record_def list_ex_iff split: if_splits)

text \<open>What the production driver puts into its queue.\<close>

definition challenge_name :: "string \<Rightarrow> bool" where
  "challenge_name f \<longleftrightarrow> (\<exists>n. f = ''_acme-challenge.'' @ n)"

definition acme_queue_ok :: "InstantAcmeDriver \<Rightarrow> bool" where
  "acme_queue_ok d \<longleftrightarrow> (\<forall>q c. queue d = Some q \<longrightarrow> Inr c \<in> set q \<longrightarrow> challenge_name (chal_fqdn c))"

lemma pending_challenge_name:
  "pending_challenge x urls = (Inr (Some c), urls') \<Longrightarrow> challenge_name (chal_fqdn c)"
  unfolding pending_challenge_def challenge_name_def
  by (auto split: sum.splits option.splits AuthorizationStatus.splits Identifier.splits)

lemma collect_from_fqdn:
  "collect_from A ixs urls w = (q, urls', w') \<Longrightarrow> Inr c \<in> set q \<Longrightarrow> challenge_name (chal_fqdn c)"
proof (induction ixs arbitrary: urls w q)
  case (Cons i ixs)
  then show ?case by (auto dest: pending_challenge_name split: prod.splits sum.splits option.splits)
qed simp

lemma acme_next_queue_ok:
  assumes "acme_queue_ok (snd wd)" "acme_next_dns01 A wd = (x, wd')"
  shows "acme_queue_ok (snd wd')" "x = Some (Inr c) \<Longrightarrow> challenge_name (chal_fqdn c)"
  using assms
  by (auto simp: acme_next_dns01_def acme_queue_ok_def collect_def dest: collect_from_fqdn
      split: prod.splits option.splits list.splits)

text \<open>The order's calls do not touch the test double.\<close>

definition order_leaves :: "('w \<Rightarrow> 't) \<Rightarrow> 'w order_env \<Rightarrow> bool" where
  "order_leaves view A \<longleftrightarrow>
     (\<forall>i w. view (snd (authz_next A i w)) = view w) \<and> (\<forall>url w. view (snd (challenge_set_ready A url w)) = view w) \<and>
     (\<forall>w. view (snd (poll_ready A w)) = view w) \<and> (\<forall>w. view (snd (order_finalize A w)) = view w) \<and>
     (\<forall>w. view (snd (poll_certificate A w)) = view w)"

lemma order_leavesD:
  assumes "order_leaves view A"
  shows "authz_next A i w = (a, w') \<Longrightarrow> view w' = view w"
    "challenge_set_ready A url w = (b, w') \<Longrightarrow> view w' = view w"
    "poll_ready A w = (c, w') \<Longrightarrow> view w' = view w"
    "order_finalize A w = (d, w') \<Longrightarrow> view w' = view w"
    "poll_certificate A w = (e, w') \<Longrightarrow> view w' = view w"
  using assms unfolding order_leaves_def by (metis snd_conv)+

lemma collect_from_leaves:
  assumes "order_leaves view A"
  shows "collect_from A ixs urls w = (q, urls', w') \<Longrightarrow> view w' = view w"
proof (induction ixs arbitrary: urls w q)
  case (Cons i ixs)
  then show ?case
    using order_leavesD(1) [OF assms, of i w] by (auto split: prod.splits sum.splits option.splits)
qed simp

lemma ready_pass_leaves:
  assumes "order_leaves view A"
  shows "ready_pass A ixs targets w = (r, w') \<Longrightarrow> view w' = view w"
proof (induction ixs arbitrary: targets w)
  case (Cons i ixs)
  obtain a w1 where n: "authz_next A i w = (a, w1)" by fastforce
  have w1: "view w1 = view w" using order_leavesD(1) [OF assms n] .
  show ?case
    using Cons n w1 order_leavesD(2) [OF assms]
    by (auto split: prod.splits sum.splits option.splits)
qed simp

lemma acme_driver_leaves:
  assumes "order_leaves view A"
  shows "view (fst (snd (next_dns01 (acme_driver A) wd))) = view (fst wd)"
    "view (fst (snd (set_ready (acme_driver A) ts wd))) = view (fst wd)"
    "view (fst (snd (finalize (acme_driver A) wd))) = view (fst wd)"
proof -
  show "view (fst (snd (next_dns01 (acme_driver A) wd))) = view (fst wd)"
    using collect_from_leaves [OF assms]
    by (auto simp: acme_driver_def acme_next_dns01_def collect_def split: prod.splits option.splits list.splits)
  show "view (fst (snd (set_ready (acme_driver A) ts wd))) = view (fst wd)"
    using ready_pass_leaves [OF assms]
    by (auto simp: acme_driver_def acme_set_ready_def attempt_def from_result_def done_ok_def fail_with_def
        split: prod.splits sum.splits list.splits)
  show "view (fst (snd (finalize (acme_driver A) wd))) = view (fst wd)"
    using order_leavesD(3-5) [OF assms]
    by (auto simp: acme_driver_def acme_finalize_def attempt_def act_map_err_def fail_with_def done_ok_def
        split: prod.splits sum.splits OrderStatus.splits)
qed

lemma acme_solve_zone:
  assumes "dns_provider (provider s) txts key good" "good w"
    and "order_leaves (\<lambda>w. (txts w, good w)) A" "\<forall>d. leaves txts good (tokio_sleep (production_env D) d)"
    and "skip_propagation s = None \<longrightarrow> (\<forall>f v rs t w r w'. good w \<longrightarrow>
      propagation_wait (production_env D) f v rs t w = Some (r, w') \<longrightarrow> good w' \<and> txts w' = txts w)"
    and "\<forall>hook f e. cleanup_hook s = Some hook \<longrightarrow> leaves txts good (hook f e)"
    and "solve_and_finalize D s A w = Some (r, w', d)"
  shows "\<exists>cs. (\<forall>c \<in> set cs. challenge_name (chal_fqdn c)) \<and>
    same_except (keyed key (map chal_record cs)) (txts w) (txts w') \<and>
    ((\<forall>f v w. good w \<longrightarrow> fst (cleanup (provider s) f v w) = Inr ()) \<longrightarrow>
     (\<forall>(k, u) \<in> keyed key (map chal_record cs). u \<notin> txts w' k))"
proof -
  let ?good = "\<lambda>wd. good (fst wd) \<and> acme_queue_ok (snd wd)"
  note D = acme_driver_leaves [OF assms(3)]
  have q: "acme_queue_ok (snd (snd (next_dns01 (acme_driver A) wd)))" if "acme_queue_ok (snd wd)" for wd
    using acme_next_queue_ok(1) [OF that] by (metis acme_driver_def ChallengeDriver.select_convs(1) prod.collapse)
  have q': "snd (snd (set_ready (acme_driver A) ts wd)) = snd wd" "snd (snd (finalize (acme_driver A) wd)) = snd wd" for ts wd
    by (auto simp: acme_driver_def acme_set_ready_def acme_finalize_def split: prod.splits sum.splits list.splits)
  have "bystanders (txts \<circ> fst) ?good (beside_env (production_env D)) (beside_solver s) (acme_driver A)"
    unfolding bystanders_def
  proof (intro conjI allI impI)
    show "leaves (txts \<circ> fst) ?good (snd \<circ> next_dns01 (acme_driver A))"
      "leaves (txts \<circ> fst) ?good (snd \<circ> set_ready (acme_driver A) ts)"
      "leaves (txts \<circ> fst) ?good (snd \<circ> finalize (acme_driver A))" for ts
      using D q q' by (auto simp: leaves_def)
    show "leaves (txts \<circ> fst) ?good (tokio_sleep (beside_env (production_env D)) d)" for d
      using assms(4) by (auto simp: leaves_def beside_env_def)
    show "leaves (txts \<circ> fst) ?good (hook f e)" if "cleanup_hook (beside_solver s) = Some hook" for hook f e
      using assms(6) that by (auto simp: leaves_def beside_solver_def)
    show "good (fst wd')" "acme_queue_ok (snd wd')" "(txts \<circ> fst) wd' = (txts \<circ> fst) wd"
      if "skip_propagation (beside_solver s :: (_ \<times> InstantAcmeDriver) Dns01Solver) = None" "?good wd"
        "propagation_wait (beside_env (production_env D)) f v rs t wd = Some (r, wd')" for f v rs t wd r wd'
      using assms(5) that by (auto simp: beside_env_def beside_solver_def)
  qed
  moreover have "yields ?good (acme_driver A) (\<lambda>c. challenge_name (chal_fqdn c))"
    unfolding yields_def by (auto simp: acme_driver_def dest: acme_next_queue_ok(2) [rotated, OF _ refl])
  moreover have "?good (w, InstantAcmeDriver_new)"
    using assms(2) by (simp add: acme_queue_ok_def InstantAcmeDriver_new_def)
  ultimately obtain cs where cs: "\<forall>c \<in> set cs. challenge_name (chal_fqdn c)"
    "same_except (keyed key (map chal_record cs)) (txts w) (txts w')"
    "(\<forall>f v wd. ?good wd \<longrightarrow> fst (cleanup (provider (beside_solver s)) f v wd) = Inr ()) \<longrightarrow>
       (\<forall>(k, u) \<in> keyed key (map chal_record cs). u \<notin> txts w' k)"
    using dns_provider.solve_zone [OF beside_contract [OF assms(1), where J = acme_queue_ok] refl]
      assms(7) [unfolded solve_and_finalize_def] by fastforce
  have "fst (cleanup (provider (beside_solver s)) f v wd) = fst (cleanup (provider s) f v (fst wd))" for f v and wd :: "_ \<times> InstantAcmeDriver"
    by (simp add: beside_solver_def beside_def split: prod.splits)
  with cs show ?thesis by (intro exI [of _ cs]) auto
qed

text \<open>A whole DNS-01 solve on the in-memory provider, with any order and whether or not presenting fails,
  leaves no record behind that was not there before, and keeps every record that is not a challenge record.\<close>

theorem mock_solve_restores:
  fixes w :: "('n, 'z) mock_world_scheme"
  assumes "order_leaves mock_records A"
    and "solve_and_finalize D (skip_propagation_check (Dns01Solver_new (MockDnsProvider fl)) delay) A w = Some (r, w', d)"
  shows "(has_record f v w' \<longrightarrow> has_record f v w) \<and> (has_record f v w \<longrightarrow> \<not> challenge_name f \<longrightarrow> has_record f v w')"
proof -
  let ?s = "skip_propagation_check (Dns01Solver_new (MockDnsProvider fl :: ('n, 'z) mock_world_scheme DnsProvider)) delay"
    and ?t = "\<lambda>(w :: ('n, 'z) mock_world_scheme) f. {v. has_record f v w}"
  have s: "provider ?s = MockDnsProvider fl" "skip_propagation ?s = Some delay" "cleanup_hook ?s = None"
    by (simp_all add: skip_propagation_check_def Dns01Solver_new_def)
  have "order_leaves (\<lambda>w. (?t w, True)) A" using assms(1) by (simp add: order_leaves_def has_record_def)
  moreover have "\<forall>d. leaves ?t (\<lambda>_. True) (tokio_sleep (production_env D) d)"
    by (simp add: leaves_def production_env_def has_record_def)
  moreover have "\<forall>f v (w :: ('n, 'z) mock_world_scheme). fst (cleanup (MockDnsProvider fl) f v w) = Inr ()"
    by (simp add: mock_cleanup_def)
  ultimately obtain cs where "\<forall>c \<in> set cs. challenge_name (chal_fqdn c)"
    "same_except (keyed (\<lambda>f. f) (map chal_record cs)) (?t w) (?t w')"
    "\<forall>(k, u) \<in> keyed (\<lambda>f. f) (map chal_record cs). u \<notin> ?t w' k"
    using acme_solve_zone [of ?s ?t "\<lambda>f. f" "\<lambda>_. True" w A D r w' d] assms(2) s mock.dns_provider_axioms [of fl]
    by auto
  moreover have "keyed (\<lambda>f. f) (map chal_record cs) = (\<lambda>c. (chal_fqdn c, dns_value c)) ` set cs"
    by (simp add: keyed_def image_image)
  ultimately show ?thesis unfolding same_except_def by (cases "(f, v) \<in> keyed (\<lambda>f. f) (map chal_record cs)") auto
qed

lemma mock_present_pending:
  assumes "order_leaves mock_presented A" "\<forall>w. mock_presented (snd (key_pair_generate R w)) = mock_presented w"
    and "responder s = MockChallengeResponder fl"
  shows "present_pending R s A pend g w = (r, g', w') \<Longrightarrow>
    cleanup_fn g' = cleanup_fn g \<and> set (pending g) \<subseteq> set (pending g') \<and>
    {p \<in> set (mock_presented w'). fst p \<notin> set (pending g')} \<subseteq> set (mock_presented w)"
proof (induction pend arbitrary: g w)
  case (Cons p pend)
  obtain d digest url where p: "p = (d, digest, url)" by (metis prod_cases3)
  have ready: "mock_presented w2 = mock_presented w1" if "set_ready_scan A ixs url w1 = (x, w2)" for ixs x w1 w2
    using that
  proof (induction ixs arbitrary: w1)
    case (Cons i ixs)
    then show ?case
      using order_leavesD(1,2) [OF assms(1)]
      by (auto simp: act_map_err_def split: prod.splits sum.splits option.splits if_splits)
  qed simp
  have cert: "mock_presented w2 = mock_presented w1" if "build_challenge_certificate R d digest w1 = (x, w2)" for x w1 w2
  proof -
    obtain k w3 where "key_pair_generate R w1 = (k, w3)" by fastforce
    moreover from this have "mock_presented w3 = mock_presented w1" using assms(2) by (metis snd_conv)
    ultimately show ?thesis using that
      by (auto simp: build_challenge_certificate_def attempt_def act_map_err_def from_result_def fail_with_def
          done_ok_def Let_def split: if_splits sum.splits prod.splits)
  qed
  show ?case
    using Cons p assms(3) by (fastforce simp: MockChallengeResponder_def set_ready_by_url_def Let_def
        dest: ready cert split: prod.splits sum.splits if_splits)
qed simp

lemma collect_tls_leaves:
  assumes "order_leaves view A"
  shows "collect_tls A ixs w = (r, w') \<Longrightarrow> view w' = view w"
proof (induction ixs arbitrary: w r)
  case (Cons i ixs)
  then show ?case
    using order_leavesD(1) [OF assms]
    by (auto simp: attempt_def done_ok_def split: prod.splits sum.splits option.splits
        AuthorizationStatus.splits Identifier.splits)
qed simp

lemma mock_tls_fold:
  assumes "responder s = MockChallengeResponder fl"
  shows "set (mock_presented (fold (cleanup_fn (tls_cleanup_guard s)) ds w)) =
    {p \<in> set (mock_presented w). fst p \<notin> set ds}"
proof (induction ds arbitrary: w)
  case (Cons d ds)
  have "mock_presented (cleanup_fn (tls_cleanup_guard s) d w) = filter (\<lambda>(e, _, _). e \<noteq> d) (mock_presented w)"
    by (simp add: tls_cleanup_guard_def CleanupGuard_new_def assms MockChallengeResponder_def)
  with Cons show ?case by auto
qed simp

text \<open>A whole TLS-ALPN-01 solve on the in-memory responder leaves no certificate presented that was not
  presented before.\<close>

theorem mock_tls_restores:
  assumes "order_leaves mock_presented A" "\<forall>w. mock_presented (snd (key_pair_generate R w)) = mock_presented w"
    and "tls_solve_and_finalize R (TlsAlpn01Solver_new (MockChallengeResponder fl)) A w = (r, w')"
  shows "set (mock_presented w') \<subseteq> set (mock_presented w)"
proof -
  let ?s = "TlsAlpn01Solver_new (MockChallengeResponder fl)"
  have s: "responder ?s = MockChallengeResponder fl" by (simp add: TlsAlpn01Solver_new_def)
  obtain r1 g w1 where pa: "present_all R ?s A (tls_cleanup_guard ?s) w = (r1, g, w1)" by (metis prod_cases3)
  obtain c w0 where c: "collect_tls A [0..<authz_count A] w = (c, w0)" by fastforce
  have w1: "cleanup_fn g = cleanup_fn (tls_cleanup_guard ?s)"
    "{p \<in> set (mock_presented w1). fst p \<notin> set (pending g)} \<subseteq> set (mock_presented w)"
    using pa c collect_tls_leaves [OF assms(1) c]
      mock_present_pending [OF assms(1,2) s, of _ "tls_cleanup_guard ?s" w0 r1 g w1]
    by (auto simp: present_all_def split: sum.splits)
  have fin: "mock_presented w2 = mock_presented w1" if "finalize_order A w1 = (x, w2)" for x w2
    using that order_leavesD(3-5) [OF assms(1)]
    by (auto simp: finalize_order_def attempt_def act_map_err_def fail_with_def done_ok_def
        split: prod.splits sum.splits OrderStatus.splits)
  obtain w2 where "mock_presented w2 = mock_presented w1" "w' = fold (cleanup_fn g) (pending g) w2"
    using assms(3) pa fin by (auto simp: tls_solve_and_finalize_def run_fold split: prod.splits sum.splits)
  with w1 mock_tls_fold [OF s, of "pending g" w2] show ?thesis by simp
qed

section \<open>Concrete solves\<close>

definition demo_mock :: "nat mock_world" where
  "demo_mock = \<lparr>RESOLVER = None, net = 0, mock_records = [(''www'', ''x''), (''_acme-challenge.a.'', ''old'')],
     mock_presented = [(''b'', ''c'', ''k'')]\<rparr>"

lemma demo_order_leaves: "order_leaves view demo_order"
  by (simp add: order_leaves_def demo_order_def)

lemma demo_mock_run:
  "map_option (\<lambda>(r, w', d). (r, mock_records w')) (solve_and_finalize (lagging_dns ''v'')
     (skip_propagation_check (Dns01Solver_new
        \<lparr>present = mock_present False, cleanup = mock_cleanup, provider_timing = t\<rparr>) 7) demo_order demo_mock)
   = Some (Inr (''chain'', ''key''), mock_records demo_mock)"
  by code_simp

theorem mock_solve_restores_witness:
  "\<exists>w' d. solve_and_finalize (lagging_dns ''v'')
       (skip_propagation_check (Dns01Solver_new (MockDnsProvider False)) 7) demo_order demo_mock
       = Some (Inr (''chain'', ''key''), w', d) \<and>
     has_record ''www'' ''x'' w' \<and> \<not> has_record ''_acme-challenge.a.'' ''v'' w'"
proof -
  obtain w' d where run: "solve_and_finalize (lagging_dns ''v'')
      (skip_propagation_check (Dns01Solver_new (MockDnsProvider False)) 7) demo_order demo_mock
      = Some (Inr (''chain'', ''key''), w', d)"
    using demo_mock_run [of "provider_timing (MockDnsProvider False :: nat mock_world DnsProvider)"]
    by (auto simp: MockDnsProvider_def)
  note r = mock_solve_restores [OF demo_order_leaves run]
  have "has_record ''www'' ''x'' demo_mock" "\<not> has_record ''_acme-challenge.a.'' ''v'' demo_mock"
    "\<not> challenge_name ''www''"
    by (simp_all add: has_record_def demo_mock_def challenge_name_def)
  with run r [of "''www''" "''x''"] r [of "''_acme-challenge.a.''" "''v''"] show ?thesis by blast
qed

definition demo_mock_rcgen :: "(string list, string, nat mock_world) rcgen_env" where
  "demo_mock_rcgen =
     \<lparr>params_new = Inr, push_acme_identifier = (\<lambda>digest ps. ps @ [digest]),
      key_pair_generate = (\<lambda>w. (Inr ''key'', w)), self_signed = (\<lambda>ps k. Inr (concat ps @ k)),
      serialize_der = (\<lambda>k. k)\<rparr>"

theorem mock_tls_restores_witness:
  "\<exists>w'. tls_solve_and_finalize demo_mock_rcgen (TlsAlpn01Solver_new (MockChallengeResponder False)) demo_order demo_mock
     = (Inr (''chain'', ''key''), w') \<and> set (mock_presented w') \<subseteq> {(''b'', ''c'', ''k'')}"
proof -
  have "fst (tls_solve_and_finalize demo_mock_rcgen (TlsAlpn01Solver_new (MockChallengeResponder False)) demo_order demo_mock)
     = Inr (''chain'', ''key'')" by code_simp
  then obtain w' where "tls_solve_and_finalize demo_mock_rcgen (TlsAlpn01Solver_new (MockChallengeResponder False))
      demo_order demo_mock = (Inr (''chain'', ''key''), w')" by (metis prod.collapse)
  moreover from mock_tls_restores [OF demo_order_leaves _ this] have "set (mock_presented w') \<subseteq> {(''b'', ''c'', ''k'')}"
    by (simp add: demo_mock_rcgen_def demo_mock_def)
  ultimately show ?thesis by blast
qed

end
