(* ===== verification/Keyed_Mutex.thy ===== *)
theory Keyed_Mutex
  imports Cheti_Prelude
begin

text \<open>
  The keyed lock of \<open>providers/common.rs\<close> that serialises the read-merge-write cycles of the providers:
  the shared lock table with its clean-up, tasks that wait, hold, release or are dropped, as a step
  relation; mutual exclusion per key; and what it gives the read-merge-write cycles that run under it.
\<close>

section \<open>Tasks and the table\<close>

text \<open>A waiting or holding task owns a reference to the mutex of its key.\<close>

datatype lock_task = Idle | Waiting string nat | Holding string nat

record mutex_state =
  table :: "string \<Rightarrow> nat option"
  next_mutex :: nat
  tasks :: "lock_task list"

fun refers :: "lock_task \<Rightarrow> (string \<times> nat) option" where
  "refers Idle = None"
| "refers (Waiting k m) = Some (k, m)"
| "refers (Holding k m) = Some (k, m)"

definition strong_count :: "mutex_state \<Rightarrow> nat \<Rightarrow> nat" where
  "strong_count s m = 1 + length (filter (\<lambda>t. map_option snd (refers t) = Some m) (tasks s))"

definition lock_key :: "string \<Rightarrow> string \<Rightarrow> string" where
  "lock_key namespace key = namespace @ ''|'' @ key"

definition retain_entries :: "mutex_state \<Rightarrow> string \<Rightarrow> nat option" where
  "retain_entries s k =
     (case table s k of None \<Rightarrow> None | Some m \<Rightarrow> if strong_count s m > 1 then Some m else None)"

definition lock_entry :: "string \<Rightarrow> string \<Rightarrow> mutex_state \<Rightarrow> nat \<times> mutex_state" where
  "lock_entry namespace key s =
     (let map = retain_entries s; k = lock_key namespace key in
      case map k of
        Some m \<Rightarrow> (m, s\<lparr>table := map\<rparr>)
      | None \<Rightarrow> (next_mutex s, s\<lparr>table := map(k \<mapsto> next_mutex s), next_mutex := next_mutex s + 1\<rparr>))"

definition lock_begin :: "string \<Rightarrow> string \<Rightarrow> nat \<Rightarrow> mutex_state \<Rightarrow> mutex_state" where
  "lock_begin namespace key t s =
     (let (m, s1) = lock_entry namespace key s
      in s1\<lparr>tasks := (tasks s1)[t := Waiting (lock_key namespace key) m]\<rparr>)"

definition held :: "mutex_state \<Rightarrow> nat \<Rightarrow> bool" where
  "held s m \<longleftrightarrow> list_ex (\<lambda>t. case t of Holding _ m' \<Rightarrow> m' = m | _ \<Rightarrow> False) (tasks s)"

inductive mutex_step :: "mutex_state \<Rightarrow> mutex_state \<Rightarrow> bool" where
  lock_enter: "t < length (tasks s) \<Longrightarrow> tasks s ! t = Idle \<Longrightarrow> mutex_step s (lock_begin namespace key t s)"
| lock_acquire: "t < length (tasks s) \<Longrightarrow> tasks s ! t = Waiting k m \<Longrightarrow> \<not> held s m \<Longrightarrow>
    mutex_step s (s\<lparr>tasks := (tasks s)[t := Holding k m]\<rparr>)"
| lock_release: "t < length (tasks s) \<Longrightarrow> tasks s ! t = Holding k m \<Longrightarrow>
    mutex_step s (s\<lparr>tasks := (tasks s)[t := Idle]\<rparr>)"
| lock_cancel: "t < length (tasks s) \<Longrightarrow> tasks s ! t = Waiting k m \<Longrightarrow>
    mutex_step s (s\<lparr>tasks := (tasks s)[t := Idle]\<rparr>)"

definition mutex_init :: "nat \<Rightarrow> mutex_state" where
  "mutex_init n = \<lparr>table = (\<lambda>_. None), next_mutex = 0, tasks = replicate n Idle\<rparr>"

section \<open>The invariant\<close>

text \<open>
  Whoever refers to a mutex of a key refers to the one in the table: an entry is dropped only when
  nobody does. Distinct keys have distinct mutexes and a mutex has at most one holder.
\<close>

definition mutex_inv :: "mutex_state \<Rightarrow> bool" where
  "mutex_inv s \<longleftrightarrow>
     (\<forall>t \<in> set (tasks s). \<forall>k m. refers t = Some (k, m) \<longrightarrow> table s k = Some m) \<and>
     (\<forall>k l m. table s k = Some m \<longrightarrow> table s l = Some m \<longrightarrow> k = l) \<and>
     (\<forall>k m. table s k = Some m \<longrightarrow> m < next_mutex s) \<and>
     (\<forall>t u k l m. t < length (tasks s) \<longrightarrow> u < length (tasks s) \<longrightarrow>
        tasks s ! t = Holding k m \<longrightarrow> tasks s ! u = Holding l m \<longrightarrow> t = u)"

lemma strong_count_gt: "Suc 0 < strong_count s m \<longleftrightarrow> (\<exists>t \<in> set (tasks s). \<exists>k. refers t = Some (k, m))"
  by (auto simp: strong_count_def filter_empty_conv)

lemma retain_entries_Some:
  "retain_entries s k = Some m \<longleftrightarrow>
     table s k = Some m \<and> (\<exists>t \<in> set (tasks s). \<exists>l. refers t = Some (l, m))"
  by (auto simp: retain_entries_def strong_count_gt split: option.splits if_splits)

lemma mutex_invD:
  assumes "mutex_inv s"
  shows "t \<in> set (tasks s) \<Longrightarrow> refers t = Some (k, m) \<Longrightarrow> table s k = Some m"
    and "table s k = Some m \<Longrightarrow> table s l = Some m \<Longrightarrow> k = l"
    and "table s k = Some m \<Longrightarrow> m < next_mutex s"
    and "i < length (tasks s) \<Longrightarrow> j < length (tasks s) \<Longrightarrow> tasks s ! i = Holding k m \<Longrightarrow>
      tasks s ! j = Holding l m \<Longrightarrow> i = j"
  using assms unfolding mutex_inv_def by blast+

lemma mutex_invI:
  assumes "\<And>t k m. t \<in> set (tasks s) \<Longrightarrow> refers t = Some (k, m) \<Longrightarrow> table s k = Some m"
    and "\<And>k l m. table s k = Some m \<Longrightarrow> table s l = Some m \<Longrightarrow> k = l"
    and "\<And>k m. table s k = Some m \<Longrightarrow> m < next_mutex s"
    and "\<And>i j k l m. i < length (tasks s) \<Longrightarrow> j < length (tasks s) \<Longrightarrow> tasks s ! i = Holding k m \<Longrightarrow>
      tasks s ! j = Holding l m \<Longrightarrow> i = j"
  shows "mutex_inv s"
  using assms unfolding mutex_inv_def by blast

lemma lock_entry_inv:
  assumes "mutex_inv s" "lock_entry ns key s = (m, s1)"
  shows "mutex_inv s1" "table s1 (lock_key ns key) = Some m" "tasks s1 = tasks s"
proof -
  note inv = mutex_invD [OF assms(1)]
  have retained: "retain_entries s k = Some m" if "t \<in> set (tasks s)" "refers t = Some (k, m)" for t k m
    using that inv(1) by (auto simp: retain_entries_Some)
  show *: "tasks s1 = tasks s" and "table s1 (lock_key ns key) = Some m"
    using assms(2) by (auto simp: lock_entry_def Let_def split: option.splits)
  show "mutex_inv s1"
  proof (cases "retain_entries s (lock_key ns key)")
    case (Some m')
    with assms(2) have "s1 = s\<lparr>table := retain_entries s\<rparr>" by (simp add: lock_entry_def)
    then show ?thesis
      by (intro mutex_invI)
        (auto simp: retain_entries_Some intro: inv(1) dest: inv(2,3) intro: inv(4))
  next
    case None
    with assms(2) have s1: "s1 = s\<lparr>table := (retain_entries s)(lock_key ns key \<mapsto> next_mutex s),
        next_mutex := next_mutex s + 1\<rparr>" by (auto simp: lock_entry_def)
    have other: "k \<noteq> lock_key ns key" if "t \<in> set (tasks s)" "refers t = Some (k, m)" for t k m
      using retained [OF that] None by auto
    have old: "m < next_mutex s" "table s k = Some m" if "retain_entries s k = Some m" for k m
      using that inv(3) by (auto simp: retain_entries_Some)
    show ?thesis
    proof (rule mutex_invI)
      fix k l m
      assume "table s1 k = Some m" "table s1 l = Some m"
      then show "k = l" using old inv(2) by (fastforce simp: s1 split: if_splits)
    next
      fix k m
      assume "table s1 k = Some m"
      then show "m < next_mutex s1" using old by (fastforce simp: s1 less_Suc_eq split: if_splits)
    qed (use retained other inv(4) in \<open>auto simp: s1\<close>)
  qed
qed

lemma heldI: "j < length (tasks s) \<Longrightarrow> tasks s ! j = Holding k m \<Longrightarrow> held s m"
  unfolding held_def list_ex_iff by (rule bexI [of _ "tasks s ! j"]) (simp, rule nth_mem)

lemma heldE:
  assumes "held s m"
  obtains u k where "u < length (tasks s)" "tasks s ! u = Holding k m"
proof -
  from assms obtain t where t: "t \<in> set (tasks s)" "case t of Holding _ m' \<Rightarrow> m' = m | _ \<Rightarrow> False"
    by (auto simp: held_def list_ex_iff)
  obtain k where "t = Holding k m" using t(2) by (cases t) auto
  with t(1) that show ?thesis by (auto simp: in_set_conv_nth)
qed

lemma mutex_inv_update:
  assumes "mutex_inv s" "refers x = None \<or> (\<exists>k m. refers x = Some (k, m) \<and> table s k = Some m)"
    and "\<And>k m. x = Holding k m \<Longrightarrow> \<not> held s m"
  shows "mutex_inv (s\<lparr>tasks := (tasks s)[i := x]\<rparr>)"
proof -
  note inv = mutex_invD [OF assms(1)]
  have refs: "table s k = Some m" if "t \<in> set ((tasks s)[i := x])" "refers t = Some (k, m)" for t k m
    using that inv(1) assms(2) set_update_subset_insert [of "tasks s" i x] by fastforce
  have single: "j = l" if "j < length (tasks s)" "l < length (tasks s)"
    "(tasks s)[i := x] ! j = Holding k m" "(tasks s)[i := x] ! l = Holding k' m" for j l k k' m
  proof -
    have free: "tasks s ! j \<noteq> Holding k m" if "j < length (tasks s)" "x = Holding k' m" for j k k'
      using assms(3) [OF that(2)] that(1) heldI by blast
    show ?thesis
      using that free [of l k k'] free [of j k' k] free [of l k' k] free [of j k k'] inv(4) [of j l k m k']
      by (cases "i = j"; cases "i = l") auto
  qed
  let ?s = "s\<lparr>tasks := (tasks s)[i := x]\<rparr>"
  show ?thesis
  proof (rule mutex_invI)
    show "t \<in> set (tasks ?s) \<Longrightarrow> refers t = Some (k, m) \<Longrightarrow> table ?s k = Some m" for t k m
      using refs [of t k m] by simp
    show "table ?s k = Some m \<Longrightarrow> table ?s l = Some m \<Longrightarrow> k = l" for k l m
      using inv(2) [of k m l] by simp
    show "table ?s k = Some m \<Longrightarrow> m < next_mutex ?s" for k m
      using inv(3) [of k m] by simp
    show "p < length (tasks ?s) \<Longrightarrow> q < length (tasks ?s) \<Longrightarrow> tasks ?s ! p = Holding k m \<Longrightarrow>
        tasks ?s ! q = Holding l m \<Longrightarrow> p = q" for p q k l m
      using single [of p q k m l] by simp
  qed
qed

lemma mutex_step_inv: "mutex_step s s' \<Longrightarrow> mutex_inv s \<Longrightarrow> mutex_inv s'"
proof (induction rule: mutex_step.induct)
  case (lock_enter t s ns key)
  obtain m s1 where e: "lock_entry ns key s = (m, s1)" by fastforce
  note s1 = lock_entry_inv [OF lock_enter(3) e]
  show ?case
    unfolding lock_begin_def e Let_def prod.case
    by (rule mutex_inv_update) (use s1 in auto)
next
  case (lock_acquire t s k m)
  then show ?case
    by (intro mutex_inv_update) (auto intro: mutex_invD(1) [OF lock_acquire(4) nth_mem])
qed (auto intro!: mutex_inv_update)

lemma mutex_init_inv: "mutex_inv (mutex_init n)"
  by (auto simp: mutex_inv_def mutex_init_def)

lemma mutex_reachable_inv:
  "mutex_step\<^sup>*\<^sup>* (mutex_init n) s \<Longrightarrow> mutex_inv s"
  by (induction rule: rtranclp_induct) (auto intro: mutex_step_inv mutex_init_inv)

section \<open>Exclusion, independence, table size\<close>

lemma lock_key_inj:
  "CHR ''|'' \<notin> set ns \<Longrightarrow> CHR ''|'' \<notin> set ns' \<Longrightarrow> lock_key ns k = lock_key ns' k' \<longleftrightarrow> ns = ns' \<and> k = k'"
proof (induction ns arbitrary: ns')
  case Nil
  then show ?case by (cases ns') (auto simp: lock_key_def)
next
  case (Cons c ns)
  then show ?case by (cases ns') (auto simp: lock_key_def)
qed

lemma mutex_exclusive:
  assumes "mutex_inv s" "i < length (tasks s)" "j < length (tasks s)"
    and "tasks s ! i = Holding k m" "tasks s ! j = Holding k m'"
  shows "i = j"
proof -
  have "table s k = Some m" by (rule mutex_invD(1) [OF assms(1) nth_mem [OF assms(2)]]) (simp add: assms)
  moreover have "table s k = Some m'"
    by (rule mutex_invD(1) [OF assms(1) nth_mem [OF assms(3)]]) (simp add: assms)
  ultimately show ?thesis using mutex_invD(4) [OF assms(1-4), of k] assms(5) by simp
qed

text \<open>C34: whatever tasks enter, acquire, release or are dropped while waiting, and although entries
  nobody refers to are dropped from the shared table, two tasks never hold the lock of one key at the
  same time; a task that waits for a key that nobody holds can acquire it; and tasks of different keys
  never share a mutex, so they do not wait for each other.\<close>

theorem keyed_mutex_exclusion:
  assumes "mutex_step\<^sup>*\<^sup>* (mutex_init n) s" "i < length (tasks s)" "j < length (tasks s)"
  shows "(tasks s ! i = Holding k m \<and> tasks s ! j = Holding k m' \<longrightarrow> i = j)
     \<and> (tasks s ! i = Waiting k m \<and> (\<forall>u < length (tasks s). \<forall>m'. tasks s ! u \<noteq> Holding k m') \<longrightarrow>
          mutex_step s (s\<lparr>tasks := (tasks s)[i := Holding k m]\<rparr>))
     \<and> (refers (tasks s ! i) = Some (k, m) \<and> refers (tasks s ! j) = Some (l, m) \<longrightarrow> k = l)"
proof -
  note inv = mutex_reachable_inv [OF assms(1)]
  have table: "refers (tasks s ! u) = Some (k, m) \<Longrightarrow> u < length (tasks s) \<Longrightarrow> table s k = Some m" for u k m
    using mutex_invD(1) [OF inv nth_mem] by blast
  have "\<not> held s m" if "tasks s ! i = Waiting k m"
    "\<forall>u < length (tasks s). \<forall>m'. tasks s ! u \<noteq> Holding k m'"
  proof
    assume "held s m"
    then obtain u l where u: "u < length (tasks s)" "tasks s ! u = Holding l m"
      by (rule heldE)
    with table [of i k m] table [of u l m] that(1) assms(2) have "l = k"
      using mutex_invD(2) [OF inv] by simp
    with u that(2) show False by blast
  qed
  then show ?thesis
    using mutex_exclusive [OF inv assms(2,3)] lock_acquire [OF assms(2)] table [of i k m] table [of j l m]
      assms(2,3) mutex_invD(2) [OF inv] by blast
qed

text \<open>Locking never lets the table grow beyond the keys in use: right after a task entered, every
  entry of the table belongs to a waiting or holding task.\<close>

theorem lock_table_bounded:
  assumes "mutex_step\<^sup>*\<^sup>* (mutex_init n) s" "t < length (tasks s)" "tasks s ! t = Idle"
  shows "dom (table (lock_begin ns key t s)) \<subseteq>
      {k. \<exists>m. Some (k, m) \<in> refers ` set (tasks (lock_begin ns key t s))}
    \<and> card (dom (table (lock_begin ns key t s))) \<le> length (tasks s)"
proof -
  note inv = mutex_reachable_inv [OF assms(1)]
  let ?s = "lock_begin ns key t s"
  obtain m s1 where e: "lock_entry ns key s = (m, s1)" by fastforce
  have tasks: "tasks ?s = (tasks s)[t := Waiting (lock_key ns key) m]" "table ?s = table s1"
    using lock_entry_inv(3) [OF inv e] by (simp_all add: lock_begin_def e)
  have "\<exists>m. Some (k, m) \<in> refers ` set (tasks ?s)" if "table s1 k = Some m'" for k m'
  proof (cases "k = lock_key ns key")
    case True
    then show ?thesis
      unfolding tasks using assms(2) by (auto simp: image_iff intro!: exI [of _ m] bexI set_update_memI)
  next
    case False
    with that e have "retain_entries s k = Some m'"
      by (auto simp: lock_entry_def Let_def split: option.splits)
    then obtain u l where u: "u < length (tasks s)" "refers (tasks s ! u) = Some (l, m')" "table s k = Some m'"
      by (auto simp: retain_entries_Some in_set_conv_nth)
    then have "l = k" using mutex_invD(1,2) [OF inv] nth_mem by metis
    moreover have "u \<noteq> t" using u assms(3) by auto
    then have "tasks s ! u \<in> set (tasks ?s)"
      unfolding tasks using u(1) by (metis length_list_update nth_list_update_neq nth_mem)
    ultimately show ?thesis using u(2) by (metis image_eqI)
  qed
  then have sub: "dom (table ?s) \<subseteq> {k. \<exists>m. Some (k, m) \<in> refers ` set (tasks ?s)}"
    unfolding tasks by auto
  have "{k. \<exists>m. Some (k, m) \<in> refers ` set (tasks ?s)} \<subseteq> (fst \<circ> the \<circ> refers) ` set (tasks ?s)"
    by (auto simp: image_iff) (metis fst_conv option.sel)
  then have "card (dom (table ?s)) \<le> card (set (tasks ?s))"
    using sub by (meson card_image_le card_mono finite_imageI finite_set le_trans subset_trans)
  also have "\<dots> \<le> length (tasks s)" using card_length [of "tasks ?s"] by (simp add: tasks)
  finally show ?thesis using sub by simp
qed

section \<open>Read-merge-write cycles under a lock\<close>

text \<open>
  The critical sections of the providers: a task that holds the lock of its record set reads the
  record set, computes the merged one and writes it back. A failed or dropped task gives up in between,
  and it keeps the lock until it has written or given up. \<open>history\<close> has the tasks in the order of their
  writes.
\<close>

datatype 'v rmw_phase = Outside | Copied 'v | Stored

record ('s, 'v) rmw_state =
  lock_state :: 's
  phases :: "'v rmw_phase list"
  record_sets :: "string \<Rightarrow> 'v"
  history :: "nat list"

inductive rmw_step ::
  "('s \<Rightarrow> 's \<Rightarrow> bool) \<Rightarrow> ('s \<Rightarrow> nat \<Rightarrow> string \<Rightarrow> bool) \<Rightarrow> (nat \<Rightarrow> string) \<Rightarrow> (nat \<Rightarrow> 'v \<Rightarrow> 'v) \<Rightarrow>
   ('s, 'v) rmw_state \<Rightarrow> ('s, 'v) rmw_state \<Rightarrow> bool"
  for lock_step holds key_of merge where
  rmw_lock: "lock_step (lock_state s) l \<Longrightarrow>
    (\<And>i c. i < length (phases s) \<Longrightarrow> phases s ! i = Copied c \<Longrightarrow> holds l i (key_of i)) \<Longrightarrow>
    rmw_step lock_step holds key_of merge s (s\<lparr>lock_state := l\<rparr>)"
| rmw_read: "i < length (phases s) \<Longrightarrow> phases s ! i = Outside \<Longrightarrow> holds (lock_state s) i (key_of i) \<Longrightarrow>
    rmw_step lock_step holds key_of merge s
      (s\<lparr>phases := (phases s)[i := Copied (record_sets s (key_of i))]\<rparr>)"
| rmw_write: "i < length (phases s) \<Longrightarrow> phases s ! i = Copied c \<Longrightarrow>
    rmw_step lock_step holds key_of merge s
      (s\<lparr>phases := (phases s)[i := Stored], record_sets := (record_sets s)(key_of i := merge i c),
         history := history s @ [i]\<rparr>)"
| rmw_abort: "i < length (phases s) \<Longrightarrow> phases s ! i = Copied c \<Longrightarrow>
    rmw_step lock_step holds key_of merge s (s\<lparr>phases := (phases s)[i := Outside]\<rparr>)"

definition rmw_init :: "'s \<Rightarrow> nat \<Rightarrow> (string \<Rightarrow> 'v) \<Rightarrow> ('s, 'v) rmw_state" where
  "rmw_init l n initial = \<lparr>lock_state = l, phases = replicate n Outside, record_sets = initial, history = []\<rparr>"

text \<open>What the cycles rely on: a lock that is never held twice.\<close>

locale exclusive_lock =
  fixes lock_step :: "'s \<Rightarrow> 's \<Rightarrow> bool"
    and holds :: "'s \<Rightarrow> nat \<Rightarrow> string \<Rightarrow> bool"
    and lock_inv :: "'s \<Rightarrow> bool"
  assumes step_inv: "lock_step l l' \<Longrightarrow> lock_inv l \<Longrightarrow> lock_inv l'"
    and exclusive: "lock_inv l \<Longrightarrow> holds l i k \<Longrightarrow> holds l j k \<Longrightarrow> i = j"
begin

definition rmw_inv :: "(nat \<Rightarrow> string) \<Rightarrow> (nat \<Rightarrow> 'v \<Rightarrow> 'v) \<Rightarrow> (string \<Rightarrow> 'v) \<Rightarrow> ('s, 'v) rmw_state \<Rightarrow> bool" where
  "rmw_inv key_of merge initial s \<longleftrightarrow>
     lock_inv (lock_state s) \<and>
     (\<forall>i c. i < length (phases s) \<longrightarrow> phases s ! i = Copied c \<longrightarrow>
        holds (lock_state s) i (key_of i) \<and> c = record_sets s (key_of i)) \<and>
     (\<forall>k. record_sets s k = fold merge (filter (\<lambda>i. key_of i = k) (history s)) (initial k))"

lemma rmw_step_inv:
  assumes "rmw_step lock_step holds key_of merge s s'" "rmw_inv key_of merge initial s"
  shows "rmw_inv key_of merge initial s'"
  using assms(1)
proof cases
  case (rmw_lock l)
  with assms(2) show ?thesis by (auto simp: rmw_inv_def intro: step_inv)
next
  case (rmw_read i)
  with assms(2) show ?thesis by (auto simp: rmw_inv_def nth_list_update)
next
  case (rmw_write i c)
  have own: "holds (lock_state s) i (key_of i)" "c = record_sets s (key_of i)"
    using rmw_write assms(2) by (auto simp: rmw_inv_def)
  have other: "key_of j \<noteq> key_of i" "holds (lock_state s) j (key_of j)" "d = record_sets s (key_of j)"
    if "j < length (phases s)" "phases s ! j = Copied d" "j \<noteq> i" for j d
    using that own exclusive [of "lock_state s" i "key_of i" j] assms(2) by (auto simp: rmw_inv_def)
  have copies: "holds (lock_state s') j (key_of j) \<and> d = record_sets s' (key_of j)"
    if "j < length (phases s')" "phases s' ! j = Copied d" for j d
    using that other [of j d] by (cases "j = i") (simp_all add: rmw_write(1))
  have "record_sets s' k = fold merge (filter (\<lambda>i. key_of i = k) (history s')) (initial k)" for k
    using assms(2) own(2) by (simp add: rmw_write(1) rmw_inv_def)
  with copies assms(2) show ?thesis unfolding rmw_inv_def by (simp add: rmw_write(1))
next
  case (rmw_abort i c)
  with assms(2) show ?thesis by (auto simp: rmw_inv_def nth_list_update)
qed

lemma rmw_serial:
  assumes "(rmw_step lock_step holds key_of merge)\<^sup>*\<^sup>* (rmw_init l n initial) s" "lock_inv l"
  shows "record_sets s k = fold merge (filter (\<lambda>i. key_of i = k) (history s)) (initial k)"
proof -
  have "rmw_inv key_of merge initial s"
    using assms(1)
  proof (induction rule: rtranclp_induct)
    case base
    show ?case using assms(2) by (simp add: rmw_inv_def rmw_init_def)
  qed (rule rmw_step_inv)
  then show ?thesis by (simp add: rmw_inv_def)
qed

end

definition holds_key :: "mutex_state \<Rightarrow> nat \<Rightarrow> string \<Rightarrow> bool" where
  "holds_key s i k \<longleftrightarrow> i < length (tasks s) \<and> (case tasks s ! i of Holding k' _ \<Rightarrow> k' = k | _ \<Rightarrow> False)"

lemma holds_keyD: "holds_key s i k \<Longrightarrow> i < length (tasks s) \<and> (\<exists>m. tasks s ! i = Holding k m)"
  by (auto simp: holds_key_def split: lock_task.splits)

interpretation km: exclusive_lock mutex_step holds_key mutex_inv
  by unfold_locales (auto intro: mutex_step_inv dest!: holds_keyD elim: mutex_exclusive)

text \<open>C35: read-merge-write cycles that run under the keyed lock lose no update. However the tasks are
  interleaved, dropped or fail, the record set of a key is what the merges of the tasks that wrote it
  give when they are run one after the other, in the order of their writes.\<close>

theorem keyed_mutex_serialises:
  assumes "(rmw_step mutex_step holds_key key_of merge)\<^sup>*\<^sup>* (rmw_init (mutex_init m) n initial) s"
  shows "record_sets s k = fold merge (filter (\<lambda>i. key_of i = k) (history s)) (initial k)"
  by (rule km.rmw_serial [OF assms mutex_init_inv])

section \<open>Two tasks on one key\<close>

definition both_waiting :: mutex_state where
  "both_waiting = lock_begin ''gandi'' ''k'' 1 (lock_begin ''gandi'' ''k'' 0 (mutex_init 2))"

lemma both_waiting_tasks: "tasks both_waiting = [Waiting ''gandi|k'' 0, Waiting ''gandi|k'' 0]"
  by code_simp

lemma both_waiting_reachable: "mutex_step\<^sup>*\<^sup>* (mutex_init 2) both_waiting"
proof -
  have 1: "mutex_step (mutex_init 2) (lock_begin ''gandi'' ''k'' 0 (mutex_init 2))"
    by (rule lock_enter) (simp_all add: mutex_init_def)
  have "tasks (lock_begin ''gandi'' ''k'' 0 (mutex_init 2)) = [Waiting ''gandi|k'' 0, Idle]"
    by code_simp
  then have 2: "mutex_step (lock_begin ''gandi'' ''k'' 0 (mutex_init 2)) both_waiting"
    unfolding both_waiting_def by (intro lock_enter) simp_all
  show ?thesis
    by (rule rtranclp.rtrancl_into_rtrancl [where r = mutex_step,
          OF rtranclp.rtrancl_into_rtrancl [where r = mutex_step, OF rtranclp.rtrancl_refl 1] 2])
qed

theorem keyed_mutex_exclusion_witness:
  "mutex_step both_waiting (both_waiting\<lparr>tasks := (tasks both_waiting)[0 := Holding ''gandi|k'' 0]\<rparr>)
   \<and> mutex_step\<^sup>*\<^sup>* (mutex_init 2) both_waiting"
  using keyed_mutex_exclusion [OF both_waiting_reachable, of 0 1 "''gandi|k''" 0] both_waiting_reachable
  by (auto simp: both_waiting_tasks less_Suc_eq numeral_2_eq_2 nth_Cons')

theorem lock_table_bounded_witness:
  "card (dom (table (lock_begin ''gandi'' ''k'' 0 (mutex_init 2)))) \<le> 2"
  using lock_table_bounded [OF rtranclp.rtrancl_refl, of 0 2 "''gandi''" "''k''"]
  by (simp add: mutex_init_def)

text \<open>One task locks, reads and writes back; the other one waits.\<close>

definition one_holds :: mutex_state where
  "one_holds = both_waiting\<lparr>tasks := [Holding ''gandi|k'' 0, Waiting ''gandi|k'' 0]\<rparr>"

lemma one_holds_reachable: "mutex_step\<^sup>*\<^sup>* (mutex_init 2) one_holds"
proof -
  have "mutex_step both_waiting (both_waiting\<lparr>tasks := (tasks both_waiting)[0 := Holding ''gandi|k'' 0]\<rparr>)"
    by (rule lock_acquire) (simp_all add: both_waiting_tasks held_def)
  then have "mutex_step both_waiting one_holds" by (simp add: both_waiting_tasks one_holds_def)
  with both_waiting_reachable show ?thesis
    by (rule rtranclp.rtrancl_into_rtrancl [where r = mutex_step])
qed

theorem keyed_mutex_serialises_witness:
  "\<exists>s. (rmw_step mutex_step holds_key (\<lambda>_. ''gandi|k'') (\<lambda>i vs. i # vs))\<^sup>*\<^sup>*
      (rmw_init (mutex_init 2) 2 (\<lambda>_. [])) s \<and> history s = [0]
    \<and> record_sets s ''gandi|k'' = fold (\<lambda>i vs. i # vs) (filter (\<lambda>i. ''gandi|k'' = ''gandi|k'') [0]) []"
proof -
  let ?step = "rmw_step mutex_step holds_key (\<lambda>_. ''gandi|k'') (\<lambda>i vs. i # vs)"
  let ?init = "rmw_init (mutex_init 2) 2 (\<lambda>_. [] :: nat list)"
  let ?s1 = "?init\<lparr>lock_state := one_holds\<rparr>"
  let ?s2 = "?s1\<lparr>phases := (phases ?s1)[0 := Copied (record_sets ?s1 ''gandi|k'')]\<rparr>"
  let ?s3 = "?s2\<lparr>phases := (phases ?s2)[0 := Stored],
    record_sets := (record_sets ?s2)(''gandi|k'' := 0 # record_sets ?s1 ''gandi|k''), history := history ?s2 @ [0]\<rparr>"
  have "?step\<^sup>*\<^sup>* ?init ?s1"
    using one_holds_reachable
  proof (induction rule: rtranclp_induct)
    case (step y z)
    have "?step (?init\<lparr>lock_state := y\<rparr>) (?init\<lparr>lock_state := y\<rparr>\<lparr>lock_state := z\<rparr>)"
      by (rule rmw_lock) (use step(2) in \<open>auto simp: rmw_init_def less_Suc_eq numeral_2_eq_2\<close>)
    with step(3) show ?case by (simp add: rtranclp.rtrancl_into_rtrancl)
  qed (simp add: rmw_init_def)
  moreover have "?step ?s1 ?s2"
    by (rule rmw_read) (simp_all add: rmw_init_def holds_key_def one_holds_def)
  moreover have "?step ?s2 ?s3"
    by (rule rmw_write) (simp_all add: rmw_init_def)
  ultimately have run: "?step\<^sup>*\<^sup>* ?init ?s3"
    by (meson rtranclp.rtrancl_into_rtrancl)
  have "history ?s3 = [0]" by (simp add: rmw_init_def)
  with run keyed_mutex_serialises [OF run, of "''gandi|k''"] show ?thesis
    by (intro exI [of _ ?s3]) simp
qed

end
