(* ===== verification/Renewal.thy ===== *)
theory Renewal
  imports Dns_Error "HOL-Library.Signed_Division"
begin

text \<open>
  Deciding whether a certificate is due for renewal (\<open>renewal.rs\<close>). PEM and X.509 parsing and the
  system clock are parameters. Unix seconds are the code's \<open>i64\<close>: every subtraction wraps at 64 bits, as
  the release build does, and divisions truncate toward zero.
\<close>

section \<open>Certificates\<close>

definition i64_range :: "int \<Rightarrow> bool" where
  "i64_range x \<longleftrightarrow> - (2 ^ 63) \<le> x \<and> x < 2 ^ 63"

datatype general_name = DNSName string | OtherName

record x509 =
  validity_not_before :: int
  validity_not_after :: int
  common_names :: "(string + string) list"
  subject_alternative_name :: "string + general_name list option"

record renewal_env =
  pem_read :: "string \<Rightarrow> string + (string \<times> string)"
  x509_from_der :: "string \<Rightarrow> string + x509"
  duration_since_epoch :: "string + nat"

section \<open>The code\<close>

definition now_unix :: "renewal_env \<Rightarrow> int result" where
  "now_unix E =
     (case duration_since_epoch E of
        Inl e \<Rightarrow> Inl (CertParse (''system time before epoch: '' @ e))
      | Inr secs \<Rightarrow> Inr (wrap_i64 (int secs)))"

definition parse_leaf_der :: "renewal_env \<Rightarrow> string \<Rightarrow> string result" where
  "parse_leaf_der E pem =
     (case pem_read E pem of
        Inr (label, contents) \<Rightarrow>
          if label \<noteq> ''CERTIFICATE''
          then Inl (CertParse (''expected CERTIFICATE PEM, got '' @ label))
          else Inr contents
      | Inl e \<Rightarrow> Inl (CertParse (''no PEM block found: '' @ e)))"

definition parse_leaf :: "renewal_env \<Rightarrow> string \<Rightarrow> x509 result" where
  "parse_leaf E pem =
     and_then (parse_leaf_der E pem) (\<lambda>leaf_der.
       map_err (\<lambda>e. CertParse (''parse leaf certificate: '' @ e)) (x509_from_der E leaf_der))"

definition needs_renewal_at_checked :: "renewal_env \<Rightarrow> string \<Rightarrow> nat \<Rightarrow> int \<Rightarrow> bool result" where
  "needs_renewal_at_checked E pem threshold_days now =
     and_then (parse_leaf E pem) (\<lambda>cert.
       let not_after = validity_not_after cert;
           threshold_seconds = wrap_i64 (int threshold_days * 86400)
       in Inr (wrap_i64 (not_after - now) \<le> threshold_seconds))"

definition unwrap_or_true :: "bool result \<Rightarrow> bool" where
  "unwrap_or_true r = (case r of Inl _ \<Rightarrow> True | Inr b \<Rightarrow> b)"

definition needs_renewal_at :: "renewal_env \<Rightarrow> string \<Rightarrow> nat \<Rightarrow> int \<Rightarrow> bool" where
  "needs_renewal_at E pem threshold_days now =
     unwrap_or_true (needs_renewal_at_checked E pem threshold_days now)"

definition needs_renewal_checked :: "renewal_env \<Rightarrow> string \<Rightarrow> nat \<Rightarrow> bool result" where
  "needs_renewal_checked E pem threshold_days =
     and_then (now_unix E) (needs_renewal_at_checked E pem threshold_days)"

definition needs_renewal :: "renewal_env \<Rightarrow> string \<Rightarrow> nat \<Rightarrow> bool" where
  "needs_renewal E pem threshold_days = unwrap_or_true (needs_renewal_checked E pem threshold_days)"

record CertLifetime =
  not_before :: int
  not_after :: int
  total_days :: int
  remaining_days :: int
  subject_cn :: "string option"
  sans :: "string list"

fun dns_names :: "general_name list \<Rightarrow> string list" where
  "dns_names [] = []"
| "dns_names (DNSName name # gns) = name # dns_names gns"
| "dns_names (OtherName # gns) = dns_names gns"

definition cert_lifetime_at :: "renewal_env \<Rightarrow> string \<Rightarrow> int \<Rightarrow> CertLifetime result" where
  "cert_lifetime_at E pem now =
     and_then (parse_leaf E pem) (\<lambda>cert.
       Inr \<lparr>not_before = validity_not_before cert,
            not_after = validity_not_after cert,
            total_days = max (wrap_i64 (validity_not_after cert - validity_not_before cert)) 0 sdiv 86400,
            remaining_days = wrap_i64 (validity_not_after cert - now) sdiv 86400,
            subject_cn = (case common_names cert of
                [] \<Rightarrow> None | cn # _ \<Rightarrow> (case cn of Inl _ \<Rightarrow> None | Inr s \<Rightarrow> Some s)),
            sans = (case subject_alternative_name cert of
                Inr (Some general_names) \<Rightarrow> dns_names general_names | _ \<Rightarrow> [])\<rparr>)"

definition cert_lifetime :: "renewal_env \<Rightarrow> string \<Rightarrow> CertLifetime result" where
  "cert_lifetime E pem = and_then (now_unix E) (cert_lifetime_at E pem)"

definition needs_renewal_ratio_at_checked :: "renewal_env \<Rightarrow> string \<Rightarrow> nat \<Rightarrow> int \<Rightarrow> bool result" where
  "needs_renewal_ratio_at_checked E pem floor_days now =
     and_then (cert_lifetime_at E pem now) (\<lambda>life.
       let remaining_seconds = wrap_i64 (not_after life - now) in
       if remaining_seconds \<le> 0 then Inr True
       else
         let ratio_seconds = max (wrap_i64 (not_after life - not_before life)) 0 sdiv 3;
             floor_seconds = wrap_i64 (int floor_days * 86400);
             threshold_seconds = (if floor_seconds = 0 then ratio_seconds else min ratio_seconds floor_seconds)
         in Inr (remaining_seconds \<le> threshold_seconds))"

definition needs_renewal_ratio_checked :: "renewal_env \<Rightarrow> string \<Rightarrow> nat \<Rightarrow> bool result" where
  "needs_renewal_ratio_checked E pem floor_days =
     and_then (now_unix E) (needs_renewal_ratio_at_checked E pem floor_days)"

definition needs_renewal_ratio_at :: "renewal_env \<Rightarrow> string \<Rightarrow> nat \<Rightarrow> int \<Rightarrow> bool" where
  "needs_renewal_ratio_at E pem floor_days now =
     unwrap_or_true (needs_renewal_ratio_at_checked E pem floor_days now)"

definition needs_renewal_ratio :: "renewal_env \<Rightarrow> string \<Rightarrow> nat \<Rightarrow> bool" where
  "needs_renewal_ratio E pem floor_days = unwrap_or_true (needs_renewal_ratio_checked E pem floor_days)"

section \<open>Seconds without overflow\<close>

lemma wrap_i64_id: "i64_range x \<Longrightarrow> wrap_i64 x = x"
  by (simp add: wrap_i64_def i64_range_def signed_take_bit_int_eq_self)

lemma wrap_i64_range: "i64_range (wrap_i64 x)"
  using signed_take_bit_int_greater_eq_minus_exp [of 63 x] signed_take_bit_int_less_exp [of 63 x]
  by (simp add: wrap_i64_def i64_range_def)

lemma wrap_i64_days: "d < 2 ^ 32 \<Longrightarrow> wrap_i64 (int d * 86400) = int d * 86400"
  by (rule wrap_i64_id) (simp add: i64_range_def)

text \<open>
  Timestamps of the years 0 to 9999, the only ones X.509 can express, are far from the ends of the
  range; so is any clock between 0 and \<open>2\<^sup>62\<close>.
\<close>

definition plausible :: "int \<Rightarrow> bool" where
  "plausible t \<longleftrightarrow> - (2 ^ 62) \<le> t \<and> t < 2 ^ 62"

lemma wrap_i64_diff: "plausible a \<Longrightarrow> plausible b \<Longrightarrow> wrap_i64 (a - b) = a - b"
  by (rule wrap_i64_id) (simp add: i64_range_def plausible_def)

lemma sdiv_nonneg: "0 \<le> a \<Longrightarrow> 0 < b \<Longrightarrow> a sdiv b = (a div b :: int)"
  by (simp add: signed_divide_int_def sgn_if)

lemma sdiv_neg: "a < 0 \<Longrightarrow> 0 < b \<Longrightarrow> a sdiv b = - (- a div b :: int)"
  by (simp add: signed_divide_int_def sgn_if)

section \<open>The two rules\<close>

lemma needs_renewal_at_rule:
  assumes "parse_leaf E pem = Inr cert" "plausible (validity_not_after cert)" "plausible now" "d < 2 ^ 32"
  shows "needs_renewal_at_checked E pem d now = Inr (validity_not_after cert - now \<le> int d * 86400)"
  using assms by (simp add: needs_renewal_at_checked_def wrap_i64_diff wrap_i64_days)

definition ratio_threshold :: "x509 \<Rightarrow> nat \<Rightarrow> int" where
  "ratio_threshold cert floor_days =
     (let third = max (validity_not_after cert - validity_not_before cert) 0 div 3 in
      if floor_days = 0 then third else min third (int floor_days * 86400))"

lemma ratio_threshold_nonneg: "0 \<le> ratio_threshold cert d"
  by (simp add: ratio_threshold_def Let_def pos_imp_zdiv_nonneg_iff)

lemma needs_renewal_ratio_rule:
  assumes "parse_leaf E pem = Inr cert" "plausible (validity_not_before cert)"
    "plausible (validity_not_after cert)" "plausible now" "d < 2 ^ 32"
  shows "needs_renewal_ratio_at_checked E pem d now =
    Inr (validity_not_after cert - now \<le> ratio_threshold cert d)"
proof -
  have "max (validity_not_after cert - validity_not_before cert) 0 sdiv 3
      = max (validity_not_after cert - validity_not_before cert) 0 div 3"
    by (rule sdiv_nonneg) simp_all
  then show ?thesis
    using assms ratio_threshold_nonneg [of cert d]
    by (simp add: needs_renewal_ratio_at_checked_def cert_lifetime_at_def wrap_i64_diff wrap_i64_days
        ratio_threshold_def Let_def)
qed

text \<open>C38: the ratio rule renews exactly when the remaining lifetime is at most a third of the total
  lifetime, capped by the floor unless the floor is zero. So an expired certificate always renews; a
  certificate that is not expired never renews with more than a third of its lifetime left, nor, with a
  positive floor, more than \<open>floor_days\<close> before its expiry.\<close>

theorem ratio_rule_exact:
  assumes "parse_leaf E pem = Inr cert" "plausible (validity_not_before cert)"
    and "plausible (validity_not_after cert)" "plausible now" "floor_days < 2 ^ 32"
  shows "\<exists>due. needs_renewal_ratio_at_checked E pem floor_days now = Inr due \<and>
     (let remaining = validity_not_after cert - now;
          total = max (validity_not_after cert - validity_not_before cert) 0
      in (due \<longleftrightarrow> remaining \<le> 0 \<or>
            3 * remaining \<le> total \<and> (floor_days = 0 \<or> remaining \<le> int floor_days * 86400)))"
proof -
  have third: "r \<le> t div 3 \<longleftrightarrow> 3 * r \<le> (t :: int)" for r t by linarith
  have "ratio_threshold cert floor_days \<ge> 0" by (rule ratio_threshold_nonneg)
  then show ?thesis
    unfolding needs_renewal_ratio_rule [OF assms]
    by (auto simp: Let_def ratio_threshold_def third)
qed

text \<open>C39: for a certificate that is valid for exactly 90 days, the ratio rule with a floor of 30 days
  and the fixed rule with a threshold of 30 days give the same answer at every time.\<close>

theorem ratio_rule_90_days:
  assumes "parse_leaf E pem = Inr cert" "plausible (validity_not_before cert)"
    and "plausible (validity_not_after cert)" "plausible now"
    and "validity_not_after cert - validity_not_before cert = 90 * 86400"
  shows "needs_renewal_ratio_at_checked E pem 30 now = needs_renewal_at_checked E pem 30 now"
proof -
  have "(30 :: nat) < 2 ^ 32" by simp
  from needs_renewal_ratio_rule [OF assms(1-4) this] needs_renewal_at_rule [OF assms(1,3,4) this] assms(5)
  show ?thesis by (simp add: ratio_threshold_def)
qed

text \<open>A certificate that is due stays due: under both rules, once renewal is asked for at some
  time, it is asked for at every later time.\<close>

theorem renewal_monotone:
  assumes "parse_leaf E pem = Inr cert" "plausible (validity_not_before cert)"
    and "plausible (validity_not_after cert)" "plausible now" "plausible later" "now \<le> later" "d < 2 ^ 32"
  shows "(needs_renewal_at_checked E pem d now = Inr True \<longrightarrow> needs_renewal_at_checked E pem d later = Inr True)
     \<and> (needs_renewal_ratio_at_checked E pem d now = Inr True \<longrightarrow>
          needs_renewal_ratio_at_checked E pem d later = Inr True)"
  using needs_renewal_at_rule [OF assms(1,3,4,7)] needs_renewal_at_rule [OF assms(1,3,5,7)]
    needs_renewal_ratio_rule [OF assms(1-4,7)] needs_renewal_ratio_rule [OF assms(1-3,5,7)] assms(6)
  by simp

section \<open>Unreadable certificates\<close>

lemma parse_leaf_error:
  assumes "parse_leaf E pem = Inl e"
  obtains msg where "e = CertParse msg"
  using assms unfolding parse_leaf_def parse_leaf_der_def
  by (auto simp: and_then_def map_err_def split: sum.splits prod.splits if_splits)

text \<open>A certificate that cannot be read, because of its PEM armour, its label or its contents, gives
  the same \<open>CertParse\<close> error in all checked functions and makes the lenient ones ask for renewal; a
  readable one never gives an error at a given time. A clock before the epoch makes the lenient functions
  ask for renewal as well.\<close>

theorem renewal_unreadable:
  "(case parse_leaf E pem of
      Inl e \<Rightarrow> (\<exists>msg. e = CertParse msg) \<and>
        needs_renewal_at_checked E pem d now = Inl e \<and> needs_renewal_ratio_at_checked E pem d now = Inl e \<and>
        cert_lifetime_at E pem now = Inl e \<and>
        needs_renewal_at E pem d now \<and> needs_renewal_ratio_at E pem d now \<and>
        needs_renewal E pem d \<and> needs_renewal_ratio E pem d
    | Inr _ \<Rightarrow> (\<exists>b. needs_renewal_at_checked E pem d now = Inr b) \<and>
        (\<exists>b. needs_renewal_ratio_at_checked E pem d now = Inr b) \<and>
        (\<exists>l. cert_lifetime_at E pem now = Inr l))
   \<and> (case duration_since_epoch E of
      Inl msg \<Rightarrow> needs_renewal_checked E pem d = Inl (CertParse (''system time before epoch: '' @ msg)) \<and>
        needs_renewal E pem d \<and> needs_renewal_ratio E pem d
    | Inr secs \<Rightarrow> needs_renewal E pem d = needs_renewal_at E pem d (wrap_i64 (int secs)) \<and>
        needs_renewal_ratio E pem d = needs_renewal_ratio_at E pem d (wrap_i64 (int secs)))"
proof -
  note defs = needs_renewal_at_checked_def needs_renewal_ratio_at_checked_def cert_lifetime_at_def
    needs_renewal_at_def needs_renewal_ratio_at_def needs_renewal_def needs_renewal_ratio_def
    needs_renewal_checked_def needs_renewal_ratio_checked_def now_unix_def unwrap_or_true_def Let_def
  have clock: "case duration_since_epoch E of
      Inl msg \<Rightarrow> needs_renewal_checked E pem d = Inl (CertParse (''system time before epoch: '' @ msg)) \<and>
        needs_renewal E pem d \<and> needs_renewal_ratio E pem d
    | Inr secs \<Rightarrow> needs_renewal E pem d = needs_renewal_at E pem d (wrap_i64 (int secs)) \<and>
        needs_renewal_ratio E pem d = needs_renewal_ratio_at E pem d (wrap_i64 (int secs))"
    by (cases "duration_since_epoch E") (simp_all add: defs(4-))
  show ?thesis
  proof (cases "parse_leaf E pem")
    case (Inl e)
    then obtain msg where "e = CertParse msg" by (rule parse_leaf_error)
    with Inl clock show ?thesis
      by (cases "duration_since_epoch E") (simp_all add: defs)
  next
    case (Inr cert)
    with clock show ?thesis by (auto simp: defs(1-3) Let_def)
  qed
qed

text \<open>\<open>remaining_days\<close> counts whole days toward zero on both sides of the expiry, so it is negative
  only from one full day after the expiry on and zero within a day of it on either side; \<open>total_days\<close> is
  never negative; and the reported times are those of the certificate.\<close>

theorem lifetime_days:
  assumes "parse_leaf E pem = Inr cert" "plausible (validity_not_before cert)"
    and "plausible (validity_not_after cert)" "plausible now"
  shows "\<exists>life. cert_lifetime_at E pem now = Inr life \<and>
     not_before life = validity_not_before cert \<and> not_after life = validity_not_after cert \<and>
     0 \<le> total_days life \<and>
     (let remaining = validity_not_after cert - now in
        (remaining_days life < 0 \<longleftrightarrow> remaining \<le> - 86400) \<and>
        (0 < remaining_days life \<longleftrightarrow> 86400 \<le> remaining) \<and>
        \<bar>remaining - 86400 * remaining_days life\<bar> < 86400)"
proof -
  have days: "(r sdiv 86400 < 0 \<longleftrightarrow> r \<le> - 86400) \<and> (0 < r sdiv 86400 \<longleftrightarrow> 86400 \<le> r) \<and>
      \<bar>r - 86400 * (r sdiv 86400)\<bar> < 86400" for r :: int
  proof (cases "0 \<le> r")
    case True
    then show ?thesis unfolding sdiv_nonneg [OF True, of 86400, simplified] by linarith
  next
    case False
    then show ?thesis using sdiv_neg [of r 86400] by (simp del: minus_mod_self2) linarith
  qed
  have "0 \<le> max (validity_not_after cert - validity_not_before cert) 0 sdiv 86400"
    using sdiv_nonneg [of "max (validity_not_after cert - validity_not_before cert) 0" 86400]
    by (simp add: pos_imp_zdiv_nonneg_iff)
  with days show ?thesis
    using assms by (simp add: cert_lifetime_at_def wrap_i64_diff Let_def)
qed

section \<open>A certificate\<close>

text \<open>Ninety days from day 1000 on, asked about 20 days before, and 12 hours after, its expiry.\<close>

definition demo_renewal_env :: renewal_env where
  "demo_renewal_env =
     \<lparr>pem_read = (\<lambda>pem. if pem = [] then Inl ''empty'' else Inr (''CERTIFICATE'', pem)),
      x509_from_der = (\<lambda>_. Inr \<lparr>validity_not_before = 1000 * 86400, validity_not_after = 1090 * 86400,
        common_names = [], subject_alternative_name = Inr None\<rparr>),
      duration_since_epoch = Inr 0\<rparr>"

lemma demo_parse: "parse_leaf demo_renewal_env ''pem'' =
    Inr \<lparr>validity_not_before = 86400000, validity_not_after = 94176000, common_names = [],
         subject_alternative_name = Inr None\<rparr>"
  by (simp add: parse_leaf_def parse_leaf_der_def demo_renewal_env_def)

theorem ratio_rule_exact_witness:
  "needs_renewal_ratio_at_checked demo_renewal_env ''pem'' 30 (1070 * 86400) = Inr True"
  using ratio_rule_exact [OF demo_parse, of "1070 * 86400" 30] by (auto simp: plausible_def)

theorem ratio_rule_90_days_witness:
  "needs_renewal_ratio_at_checked demo_renewal_env ''pem'' 30 (1060 * 86400)
     = needs_renewal_at_checked demo_renewal_env ''pem'' 30 (1060 * 86400)"
  by (rule ratio_rule_90_days [OF demo_parse]) (simp_all add: plausible_def)

theorem renewal_monotone_witness:
  "needs_renewal_ratio_at_checked demo_renewal_env ''pem'' 30 (1070 * 86400) = Inr True \<and>
   needs_renewal_ratio_at_checked demo_renewal_env ''pem'' 30 (1080 * 86400) = Inr True"
proof -
  have "needs_renewal_ratio_at_checked demo_renewal_env ''pem'' 30 (1070 * 86400) = Inr True"
    using needs_renewal_ratio_rule [OF demo_parse, of "1070 * 86400" 30]
    by (simp add: plausible_def ratio_threshold_def)
  with renewal_monotone [OF demo_parse, of "1070 * 86400" "1080 * 86400" 30] show ?thesis by (simp add: plausible_def)
qed

theorem lifetime_days_witness:
  "\<exists>life. cert_lifetime_at demo_renewal_env ''pem'' (1090 * 86400 + 43200) = Inr life \<and> remaining_days life = 0"
  using lifetime_days [OF demo_parse, of "1090 * 86400 + 43200"] by (auto simp: plausible_def Let_def)

end
