(* ===== verification/Account_Store.thy ===== *)
theory Account_Store
  imports Dns_Error
begin

unbundle bit_operations_syntax

text \<open>
  The account store on disk (\<open>account_store.rs\<close>): loading, and saving through a private temporary file
  that is renamed over the old one. The file system is modelled as far as the code uses it, with faults
  at any call; JSON conversion of the credentials is a parameter. \<open>past\<close> keeps every state the disk
  passes through, so that a crash at any moment can be talked about.
\<close>

section \<open>Paths and files\<close>

type_synonym path = "string list"

definition parent :: "path \<Rightarrow> path option" where
  "parent p = (if p = [] \<or> p = [''/''] then None else Some (butlast p))"

definition file_name :: "path \<Rightarrow> string option" where
  "file_name p = (if p = [] \<or> last p = ''/'' \<or> last p = ''..'' then None else Some (last p))"

definition with_file_name :: "path \<Rightarrow> string \<Rightarrow> path" where
  "with_file_name p name = (if file_name p = None then p @ [name] else butlast p @ [name])"

definition display :: "path \<Rightarrow> string" where
  "display p = join ''/'' p"

datatype io_kind = NotFound | AlreadyExists | OtherIo

record io_error =
  io_kind :: io_kind
  io_message :: string

record disk_file =
  contents :: string
  file_mode :: "32 word"
  synced :: bool

record fs_world =
  files :: "path \<Rightarrow> disk_file option"
  past :: "(path \<Rightarrow> disk_file option) list"
  fs_ops :: nat
  temp_counter :: "64 word"

text \<open>\<open>fault n\<close> is the error of the \<open>n\<close>-th call, if it fails; \<open>partial n\<close> how much a failing write still writes.\<close>

record fs_env =
  fault :: "nat \<Rightarrow> io_error option"
  partial :: "nat \<Rightarrow> nat"
  umask :: "32 word"
  process_id :: nat

type_synonym 'a fs_act = "(fs_world, io_error, 'a) act"

definition fs_call :: "fs_env \<Rightarrow> (fs_world \<Rightarrow> (io_error + 'a) \<times> fs_world) \<Rightarrow> (fs_world \<Rightarrow> fs_world) \<Rightarrow> 'a fs_act" where
  "fs_call F body broken w =
     (let w1 = w\<lparr>fs_ops := fs_ops w + 1\<rparr> in
      case fault F (fs_ops w) of Some e \<Rightarrow> (Inl e, broken w1) | None \<Rightarrow> body w1)"

definition put_file :: "path \<Rightarrow> disk_file option \<Rightarrow> fs_world \<Rightarrow> fs_world" where
  "put_file p f w = (let fs = (files w)(p := f) in w\<lparr>files := fs, past := past w @ [fs]\<rparr>)"

definition fs_read :: "fs_env \<Rightarrow> path \<Rightarrow> string fs_act" where
  "fs_read F p = fs_call F (\<lambda>w. case files w p of
       None \<Rightarrow> (Inl \<lparr>io_kind = NotFound, io_message = ''No such file or directory''\<rparr>, w)
     | Some f \<Rightarrow> (Inr (contents f), w)) id"

definition create_dir_all :: "fs_env \<Rightarrow> path \<Rightarrow> unit fs_act" where
  "create_dir_all F p = fs_call F (\<lambda>w. (Inr (), w)) id"

definition open_create_new :: "fs_env \<Rightarrow> path \<Rightarrow> 32 word \<Rightarrow> unit fs_act" where
  "open_create_new F p mode = fs_call F (\<lambda>w. case files w p of
       Some _ \<Rightarrow> (Inl \<lparr>io_kind = AlreadyExists, io_message = ''File exists''\<rparr>, w)
     | None \<Rightarrow> (Inr (), put_file p (Some \<lparr>contents = [], file_mode = mode AND NOT (umask F), synced = False\<rparr>) w)) id"

definition set_contents :: "path \<Rightarrow> string \<Rightarrow> fs_world \<Rightarrow> fs_world" where
  "set_contents p bytes w =
     (case files w p of None \<Rightarrow> w | Some f \<Rightarrow> put_file p (Some (f\<lparr>contents := bytes, synced := False\<rparr>)) w)"

definition write_all :: "fs_env \<Rightarrow> path \<Rightarrow> string \<Rightarrow> unit fs_act" where
  "write_all F p bytes = fs_call F (\<lambda>w. (Inr (), set_contents p bytes w))
     (\<lambda>w. set_contents p (take (partial F (fs_ops w)) bytes) w)"

definition sync_all :: "fs_env \<Rightarrow> path \<Rightarrow> unit fs_act" where
  "sync_all F p = fs_call F (\<lambda>w. (Inr (),
     case files w p of None \<Rightarrow> w | Some f \<Rightarrow> put_file p (Some (f\<lparr>synced := True\<rparr>)) w)) id"

definition fs_rename :: "fs_env \<Rightarrow> path \<Rightarrow> path \<Rightarrow> unit fs_act" where
  "fs_rename F from to = fs_call F (\<lambda>w. case files w from of
       None \<Rightarrow> (Inl \<lparr>io_kind = NotFound, io_message = ''No such file or directory''\<rparr>, w)
     | Some f \<Rightarrow> (Inr (), let fs = (files w)(from := None, to := Some f)
                          in w\<lparr>files := fs, past := past w @ [fs]\<rparr>)) id"

definition remove_file :: "fs_env \<Rightarrow> path \<Rightarrow> unit fs_act" where
  "remove_file F p = fs_call F (\<lambda>w. case files w p of
       None \<Rightarrow> (Inl \<lparr>io_kind = NotFound, io_message = ''No such file or directory''\<rparr>, w)
     | Some _ \<Rightarrow> (Inr (), put_file p None w)) id"

section \<open>The store\<close>

record 'c json_env =
  to_vec :: "'c \<Rightarrow> string + string"
  from_slice :: "string \<Rightarrow> string + 'c"

record FileAccountStore =
  store_path :: path

definition FileAccountStore_new :: "path \<Rightarrow> FileAccountStore" where
  "FileAccountStore_new p = \<lparr>store_path = p\<rparr>"

definition load :: "fs_env \<Rightarrow> 'c json_env \<Rightarrow> FileAccountStore \<Rightarrow> (fs_world, 'c option) io" where
  "load F J st w =
     (case fs_read F (store_path st) w of
        (Inr bytes, w1) \<Rightarrow>
          (case from_slice J bytes of
             Inl e \<Rightarrow> (Inl (Storage (''parse account store '' @ display (store_path st) @ '': '' @ e)), w1)
           | Inr creds \<Rightarrow> (Inr (Some creds), w1))
      | (Inl e, w1) \<Rightarrow>
          if io_kind e = NotFound then (Inr None, w1)
          else (Inl (Storage (''read account store '' @ display (store_path st) @ '': '' @ io_message e)), w1))"

definition unique_temp_path :: "fs_env \<Rightarrow> path \<Rightarrow> fs_world \<Rightarrow> path \<times> fs_world" where
  "unique_temp_path F p w =
     (let n = temp_counter w;
          name = (case file_name p of None \<Rightarrow> [] | Some nm \<Rightarrow> nm)
      in (with_file_name p (name @ ''.'' @ show_nat (process_id F) @ ''.'' @ show_nat (unat n) @ ''.tmp''),
          w\<lparr>temp_counter := n + 1\<rparr>))"

definition write_private :: "fs_env \<Rightarrow> path \<Rightarrow> string \<Rightarrow> unit fs_act" where
  "write_private F p bytes =
     attempt (open_create_new F p 0x180) (\<lambda>_.
     attempt (write_all F p bytes) (\<lambda>_. sync_all F p))"

definition save :: "fs_env \<Rightarrow> 'c json_env \<Rightarrow> FileAccountStore \<Rightarrow> 'c \<Rightarrow> (fs_world, unit) io" where
  "save F J st credentials =
     attempt (from_result (map_err (\<lambda>e. Storage (''serialize account credentials: '' @ e)) (to_vec J credentials))) (\<lambda>bytes.
     attempt (from_result (ok_or (Storage (''account store path has no parent: '' @ display (store_path st)))
       (parent (store_path st)))) (\<lambda>dir.
     attempt (if dir \<noteq> [] then act_map_err (\<lambda>e. Storage (''create parent '' @ display dir @ '': '' @ io_message e))
         (create_dir_all F dir) else done_ok ()) (\<lambda>_ w.
     case unique_temp_path F (store_path st) w of (tmp, w1) \<Rightarrow>
       (case write_private F tmp bytes w1 of
          (Inl e, w2) \<Rightarrow>
            (Inl (Storage (''write '' @ display tmp @ '': '' @ io_message e)), snd (remove_file F tmp w2))
        | (Inr _, w2) \<Rightarrow>
            (case fs_rename F tmp (store_path st) w2 of
               (Inl e, w3) \<Rightarrow>
                 (Inl (Storage (''rename '' @ display tmp @ '' -> '' @ display (store_path st) @ '': '' @ io_message e)),
                  snd (remove_file F tmp w3))
             | (Inr _, w3) \<Rightarrow> (Inr (), w3))))))"

section \<open>What a call leaves alone\<close>

definition only_touches :: "path \<Rightarrow> fs_world \<Rightarrow> fs_world \<Rightarrow> bool" where
  "only_touches p w w' \<longleftrightarrow> (\<forall>q. q \<noteq> p \<longrightarrow> files w' q = files w q) \<and>
     (\<exists>new. past w' = past w @ new \<and> (\<forall>fs \<in> set new. \<forall>q. q \<noteq> p \<longrightarrow> fs q = files w q))"

named_theorems touching \<open>calls that touch one path only\<close>

lemma only_touches_refl [touching]: "only_touches p w w"
  by (simp add: only_touches_def)

lemma only_touches_ops [touching]:
  "only_touches p (w\<lparr>fs_ops := n\<rparr>) w' \<longleftrightarrow> only_touches p w w'"
  "only_touches p w (w'\<lparr>fs_ops := n\<rparr>) \<longleftrightarrow> only_touches p w w'"
  "only_touches p w (w'\<lparr>temp_counter := m\<rparr>) \<longleftrightarrow> only_touches p w w'"
  "only_touches p (w\<lparr>temp_counter := m\<rparr>) w' \<longleftrightarrow> only_touches p w w'"
  by (simp_all add: only_touches_def)

lemma only_touches_put [touching]: "only_touches p w (put_file p f w)"
  by (auto simp: only_touches_def put_file_def Let_def)

lemma only_touches_trans:
  assumes "only_touches p w w1" "only_touches p w1 w2"
  shows "only_touches p w w2"
proof -
  obtain n1 n2 where "past w1 = past w @ n1" "past w2 = past w1 @ n2"
    "\<forall>fs \<in> set n1. \<forall>q. q \<noteq> p \<longrightarrow> fs q = files w q" "\<forall>fs \<in> set n2. \<forall>q. q \<noteq> p \<longrightarrow> fs q = files w1 q"
    using assms unfolding only_touches_def by blast
  then show ?thesis using assms by (auto simp: only_touches_def)
qed

lemma fs_call_touches:
  assumes "\<And>w. only_touches p w (snd (body w))" "\<And>w. only_touches p w (broken w)"
  shows "only_touches p w (snd (fs_call F body broken w))"
  using assms [of "w\<lparr>fs_ops := fs_ops w + 1\<rparr>"]
  by (auto simp: fs_call_def Let_def touching split: option.splits)

lemma set_contents_touches [touching]: "only_touches p w (set_contents p bytes w)"
  by (simp add: set_contents_def touching split: option.splits)

lemma calls_touch [touching]:
  "only_touches p w (snd (create_dir_all F q w))"
  "only_touches p w (snd (open_create_new F p mode w))"
  "only_touches p w (snd (write_all F p bytes w))"
  "only_touches p w (snd (sync_all F p w))"
  "only_touches p w (snd (remove_file F p w))"
  unfolding create_dir_all_def open_create_new_def write_all_def sync_all_def remove_file_def
  by (rule fs_call_touches; simp add: touching split: option.splits)+

lemma write_private_touches [touching]: "only_touches p w (snd (write_private F p bytes w))"
  unfolding write_private_def attempt_def
  by (auto split: prod.splits sum.splits intro: only_touches_trans touching)
     (metis calls_touch(2-4) only_touches_trans snd_conv)+

lemma write_private_file:
  assumes "write_private F p bytes w = (Inr (), w')"
  shows "files w' p = Some \<lparr>contents = bytes, file_mode = 0x180 AND NOT (umask F), synced = True\<rparr>"
    and "files w p = None"
  using assms unfolding write_private_def
  by (elim attempt_ok_cases; auto simp: open_create_new_def write_all_def sync_all_def fs_call_def
      set_contents_def put_file_def Let_def split: option.splits)+

section \<open>Temporary names\<close>

definition temp_path :: "fs_env \<Rightarrow> path \<Rightarrow> 64 word \<Rightarrow> path" where
  "temp_path F p n =
     with_file_name p ((case file_name p of None \<Rightarrow> [] | Some nm \<Rightarrow> nm) @
       ''.'' @ show_nat (process_id F) @ ''.'' @ show_nat (unat n) @ ''.tmp'')"

lemma unique_temp_path_run:
  "unique_temp_path F p w = (temp_path F p (temp_counter w), w\<lparr>temp_counter := temp_counter w + 1\<rparr>)"
  by (simp add: unique_temp_path_def temp_path_def Let_def)

lemma with_file_name_inj [simp]: "with_file_name p a = with_file_name p b \<longleftrightarrow> a = b"
  by (simp add: with_file_name_def)

lemma temp_path_not_store: "temp_path F p n \<noteq> p"
proof (cases "file_name p")
  case None
  then show ?thesis by (simp add: temp_path_def with_file_name_def)
next
  case (Some nm)
  then have "p = butlast p @ [nm]" by (auto simp: file_name_def split: if_splits)
  moreover have "length (last (temp_path F p n)) > length nm"
    using Some by (simp add: temp_path_def with_file_name_def)
  ultimately show ?thesis by (metis last_snoc less_irrefl)
qed

section \<open>What saving does\<close>

abbreviation private_file :: "fs_env \<Rightarrow> string \<Rightarrow> disk_file" where
  "private_file F bytes \<equiv> \<lparr>contents = bytes, file_mode = 0x180 AND NOT (umask F), synced = True\<rparr>"

lemma fs_rename_cases:
  obtains e where "fs_rename F from to w = (Inl e, w\<lparr>fs_ops := fs_ops w + 1\<rparr>)"
  | f w' where "fs_rename F from to w = (Inr (), w')" "files w from = Some f"
      "files w' = (files w)(from := None, to := Some f)" "past w' = past w @ [files w']"
proof (cases "fault F (fs_ops w) \<noteq> None \<or> files w from = None")
  case True
  then show ?thesis
    using that(1) by (cases "fault F (fs_ops w)"; cases "files w from") (simp_all add: fs_rename_def fs_call_def)
next
  case False
  then show ?thesis
    using that(2) by (cases "files w from") (auto simp: fs_rename_def fs_call_def Let_def)
qed

definition stored :: "fs_env \<Rightarrow> path \<Rightarrow> path \<Rightarrow> string \<Rightarrow> fs_world \<Rightarrow> fs_world \<Rightarrow> bool" where
  "stored F tmp p bytes w w' \<longleftrightarrow> (\<exists>w2. only_touches tmp w w2 \<and>
     files w' = (files w2)(tmp := None, p := Some (private_file F bytes)) \<and> past w' = past w2 @ [files w'])"

lemma make_parent:
  assumes "(if dir \<noteq> [] then act_map_err (\<lambda>e. Storage (m e)) (create_dir_all F dir) else done_ok ()) w = (x, w')"
  shows "only_touches p w w'" "temp_counter w' = temp_counter w" "x = Inl e \<Longrightarrow> \<exists>msg. e = Storage msg"
  using assms by (auto simp: create_dir_all_def fs_call_def Let_def act_map_err_def touching
      split: if_splits option.splits)

lemma save_effect:
  assumes "save F J st c w = (r, w')"
  shows "case r of
      Inl e \<Rightarrow> only_touches (temp_path F (store_path st) (temp_counter w)) w w' \<and> (\<exists>msg. e = Storage msg)
    | Inr _ \<Rightarrow> (\<exists>bytes. to_vec J c = Inr bytes \<and>
        stored F (temp_path F (store_path st) (temp_counter w)) (store_path st) bytes w w')"
proof (cases "\<exists>bytes dir. to_vec J c = Inr bytes \<and> parent (store_path st) = Some dir")
  case False
  with assms show ?thesis
    by (cases "to_vec J c"; cases "parent (store_path st)") (auto simp: save_def touching)
next
  case True
  let ?p = "store_path st"
  let ?tmp = "temp_path F ?p (temp_counter w)"
  obtain bytes dir where b: "to_vec J c = Inr bytes" "parent ?p = Some dir" using True by blast
  obtain x w0 where mk: "(if dir \<noteq> [] then act_map_err (\<lambda>e. Storage (''create parent '' @ display dir @ '': '' @ io_message e))
      (create_dir_all F dir) else done_ok ()) w = (x, w0)" by fastforce
  note dir = make_parent [OF mk]
  show ?thesis
  proof (cases x)
    case (Inl e)
    with assms b mk have "r = Inl e" "w' = w0" by (auto simp: save_def attempt_def)
    with dir Inl show ?thesis by simp
  next
    case (Inr u)
    let ?w1 = "w0\<lparr>temp_counter := temp_counter w + 1\<rparr>"
    obtain y w2 where wp: "write_private F ?tmp bytes ?w1 = (y, w2)" by fastforce
    have rest: "save F J st c w = (case y of
        Inl e \<Rightarrow> (Inl (Storage (''write '' @ display ?tmp @ '': '' @ io_message e)), snd (remove_file F ?tmp w2))
      | Inr _ \<Rightarrow> (case fs_rename F ?tmp ?p w2 of
           (Inl e, w3) \<Rightarrow> (Inl (Storage (''rename '' @ display ?tmp @ '' -> '' @ display ?p @ '': '' @ io_message e)),
              snd (remove_file F ?tmp w3))
         | (Inr _, w3) \<Rightarrow> (Inr (), w3)))"
      using b mk Inr wp dir(2) by (simp add: save_def attempt_def unique_temp_path_run split: sum.splits prod.splits)
    have touch: "only_touches ?tmp w w2"
      using write_private_touches [of ?tmp ?w1 F bytes] wp only_touches_trans [OF dir(1) [of ?tmp], of w2]
      by (simp add: touching)
    show ?thesis
    proof (cases y)
      case (Inl e)
      with rest assms touch calls_touch(5) [of ?tmp w2 F] show ?thesis
        by (auto intro: only_touches_trans)
    next
      case (Inr v)
      note written = write_private_file(1) [OF wp [unfolded Inr, simplified]]
      show ?thesis
      proof (cases rule: fs_rename_cases [of F ?tmp ?p w2])
        case (1 e)
        have "only_touches ?tmp w2 (snd (remove_file F ?tmp (w2\<lparr>fs_ops := fs_ops w2 + 1\<rparr>)))"
          using calls_touch(5) [of ?tmp "w2\<lparr>fs_ops := fs_ops w2 + 1\<rparr>" F] unfolding only_touches_ops .
        from only_touches_trans [OF touch this] rest assms Inr 1 show ?thesis by auto
      next
        case (2 f w3)
        with rest assms Inr written touch b show ?thesis by (auto simp: stored_def)
      qed
    qed
  qed
qed

text \<open>C33: saving is atomic under crashes and faults. In every state the disk passes through while
  \<open>save\<close> runs, and in the one it leaves, the store's file is the old one, or the complete new one,
  flushed to disk; when \<open>save\<close> fails it is the old one throughout, and no file but the store's and the
  temporary one is touched.\<close>

theorem save_atomic:
  assumes "save F J st c w = (r, w')"
  shows "\<forall>fs \<in> set (drop (length (past w)) (past w')) \<union> {files w'}.
     (fs (store_path st) = files w (store_path st) \<or>
        r = Inr () \<and> (\<exists>bytes. to_vec J c = Inr bytes \<and> fs (store_path st) = Some (private_file F bytes))) \<and>
     (\<forall>q. q \<noteq> store_path st \<and> q \<noteq> temp_path F (store_path st) (temp_counter w) \<longrightarrow> fs q = files w q)"
proof -
  let ?p = "store_path st"
  let ?tmp = "temp_path F ?p (temp_counter w)"
  note ne = temp_path_not_store [of F ?p "temp_counter w"]
  show ?thesis
  proof (cases r)
    case (Inl e)
    then have "only_touches ?tmp w w'" using save_effect [OF assms] by simp
    then obtain new where "past w' = past w @ new" "\<forall>fs \<in> set new. \<forall>q. q \<noteq> ?tmp \<longrightarrow> fs q = files w q"
      "\<forall>q. q \<noteq> ?tmp \<longrightarrow> files w' q = files w q" by (auto simp: only_touches_def)
    with ne show ?thesis by auto
  next
    case (Inr u)
    then obtain bytes w2 where b: "to_vec J c = Inr bytes" and t: "only_touches ?tmp w w2"
      and w': "files w' = (files w2)(?tmp := None, ?p := Some (private_file F bytes))" "past w' = past w2 @ [files w']"
      using save_effect [OF assms] by (auto simp: stored_def)
    from t obtain new where "past w2 = past w @ new" "\<forall>fs \<in> set new. \<forall>q. q \<noteq> ?tmp \<longrightarrow> fs q = files w q"
      "\<forall>q. q \<noteq> ?tmp \<longrightarrow> files w2 q = files w q" by (auto simp: only_touches_def)
    with w' b Inr ne show ?thesis by auto
  qed
qed

text \<open>C37: credentials that were saved are loaded again, if the credentials survive the JSON encoding and
  the read does not fail: after \<open>save\<close> returns \<open>Ok\<close>, \<open>load\<close> returns them, the temporary file is gone, and
  the stored file gives no permission to group or others.\<close>

theorem save_load_roundtrip:
  assumes "save F J st c w = (Inr (), w')"
    and "\<And>bytes. to_vec J c = Inr bytes \<Longrightarrow> from_slice J bytes = Inr c"
    and "fault F (fs_ops w') = None"
  shows "fst (load F J st w') = Inr (Some c)
     \<and> files w' (temp_path F (store_path st) (temp_counter w)) = None
     \<and> (\<exists>f. files w' (store_path st) = Some f \<and> file_mode f AND 0x3F = 0)"
proof -
  obtain bytes where b: "to_vec J c = Inr bytes" "files w' (store_path st) = Some (private_file F bytes)"
    "files w' (temp_path F (store_path st) (temp_counter w)) = None"
    using save_effect [OF assms(1)] temp_path_not_store [of F "store_path st" "temp_counter w"]
    by (auto simp: stored_def)
  have "(0x180 AND NOT (umask F)) AND 0x3F = (0x180 AND 0x3F) AND NOT (umask F)"
    by (simp add: ac_simps del: and_numerals)
  also have "(0x180 AND 0x3F :: 32 word) = 0" by simp
  finally show ?thesis
    using b assms(2,3) by (simp add: load_def fs_read_def fs_call_def)
qed

text \<open>The temporary name is new at every call: calls of one process whose counter values differ get
  different names, none of them the name of the store itself, in the store's own directory, and the
  counter only repeats after \<open>2\<^sup>64\<close> calls.\<close>

theorem temp_names_unique:
  assumes "file_name p = Some nm"
  shows "(fst (unique_temp_path F p w) = fst (unique_temp_path F p w') \<longleftrightarrow> temp_counter w = temp_counter w')
     \<and> fst (unique_temp_path F p w) \<noteq> p
     \<and> parent (fst (unique_temp_path F p w)) = parent p
     \<and> temp_counter (((\<lambda>w. snd (unique_temp_path F p w)) ^^ k) w) = temp_counter w + of_nat k"
proof -
  have "temp_counter (((\<lambda>w. snd (unique_temp_path F p w)) ^^ k) w) = temp_counter w + of_nat k"
    by (induction k) (simp_all add: unique_temp_path_run)
  moreover have "parent (temp_path F p n) = parent p" for n
  proof -
    have "p \<noteq> []" "p \<noteq> [''/'']" using assms by (auto simp: file_name_def split: if_splits)
    moreover have "last (temp_path F p n) \<noteq> ''/''"
      using arg_cong [of "last (temp_path F p n)" "''/''" length] assms
      by (auto simp: temp_path_def with_file_name_def)
    ultimately show ?thesis
      using assms by (auto simp: parent_def temp_path_def with_file_name_def)
  qed
  ultimately show ?thesis
    using temp_path_not_store by (simp add: unique_temp_path_run) (simp add: temp_path_def word_unat_eq_iff)
qed

section \<open>A disk\<close>

definition demo_fs_env :: "(nat \<Rightarrow> io_error option) \<Rightarrow> fs_env" where
  "demo_fs_env faults = \<lparr>fault = faults, partial = (\<lambda>_. 1), umask = 0x12, process_id = 7\<rparr>"

definition demo_json :: "string json_env" where
  "demo_json = \<lparr>to_vec = Inr, from_slice = Inr\<rparr>"

definition demo_disk :: fs_world where
  "demo_disk = \<lparr>files = (\<lambda>p. if p = [''acme''] then Some \<lparr>contents = ''old'', file_mode = 0, synced = True\<rparr> else None),
     past = [], fs_ops = 0, temp_counter = 0\<rparr>"

lemma demo_save:
  "fst (save (demo_fs_env (\<lambda>_. None)) demo_json \<lparr>store_path = [''acme'']\<rparr> ''new'' demo_disk) = Inr ()"
  by code_simp

theorem save_atomic_witness:
  "files (snd (save (demo_fs_env (\<lambda>n. if n = 1 then Some \<lparr>io_kind = OtherIo, io_message = ''full''\<rparr> else None))
      demo_json \<lparr>store_path = [''acme'']\<rparr> ''new'' demo_disk)) [''acme'']
    = Some \<lparr>contents = ''old'', file_mode = 0, synced = True\<rparr>"
proof -
  let ?F = "demo_fs_env (\<lambda>n. if n = 1 then Some \<lparr>io_kind = OtherIo, io_message = ''full''\<rparr> else None)"
  let ?run = "save ?F demo_json \<lparr>store_path = [''acme'']\<rparr> ''new'' demo_disk"
  have "fst ?run \<noteq> Inr ()" by code_simp
  moreover have "?run = (fst ?run, snd ?run)" by simp
  from save_atomic [OF this] have "files (snd ?run) [''acme''] = files demo_disk [''acme''] \<or> fst ?run = Inr ()"
    by auto
  ultimately show ?thesis by (simp add: demo_disk_def)
qed

theorem save_load_roundtrip_witness:
  "fst (load (demo_fs_env (\<lambda>_. None)) demo_json \<lparr>store_path = [''acme'']\<rparr>
     (snd (save (demo_fs_env (\<lambda>_. None)) demo_json \<lparr>store_path = [''acme'']\<rparr> ''new'' demo_disk))) = Inr (Some ''new'')"
proof -
  let ?run = "save (demo_fs_env (\<lambda>_. None)) demo_json \<lparr>store_path = [''acme'']\<rparr> ''new'' demo_disk"
  have "?run = (Inr (), snd ?run)" using demo_save by (metis prod.collapse)
  from save_load_roundtrip [OF this] show ?thesis by (simp add: demo_json_def demo_fs_env_def)
qed

theorem temp_names_unique_witness:
  "fst (unique_temp_path (demo_fs_env (\<lambda>_. None)) [''acme''] demo_disk)
     \<noteq> fst (unique_temp_path (demo_fs_env (\<lambda>_. None)) [''acme''] (demo_disk\<lparr>temp_counter := 1\<rparr>))"
  using temp_names_unique [of "[''acme'']" "''acme''" "demo_fs_env (\<lambda>_. None)" demo_disk "demo_disk\<lparr>temp_counter := 1\<rparr>"]
  by (simp add: file_name_def demo_disk_def)

end
