(* ===== verification/Provider_Kit.thy ===== *)
theory Provider_Kit
  imports Provider_Spec Common_Facts
begin

text \<open>
  What the HTTP providers have in common: the environment they run in, the configuration fields and
  builder steps they repeat, sending a request and quoting TXT values. The second half is the library
  their proofs use: running an action to a postcondition, what a request may do to the state of the
  server, and the contract of \<open>Provider_Spec\<close> from postconditions of \<open>present\<close> and \<open>cleanup\<close>.
\<close>

section \<open>Environment and configuration\<close>

record ('b, 'r, 'n) api_env = "('b, 'r, 'n) http_env" +
  api_dns :: "'n dns_env"
  env_var :: "string \<Rightarrow> string option"
  url_parse :: "string \<Rightarrow> url option"
  client_build :: "duration \<Rightarrow> duration \<Rightarrow> reqwest_error option"

record api_config =
  api_base :: string
  zone_override :: "string option"
  ttl :: nat
  cfg_timeout :: duration

definition SLASH :: char where
  "SLASH = CHR ''/''"

definition set_api_base ::
  "('b, 'r, 'n, 'e) api_env_scheme \<Rightarrow> string \<Rightarrow> string \<Rightarrow> 'z api_config_scheme \<Rightarrow> 'z api_config_scheme result" where
  "set_api_base E provider base config =
     and_then (validate_https_base (url_parse E) base provider) (\<lambda>_.
       Inr (config\<lparr>api_base := trim_end_matches SLASH base\<rparr>))"

definition set_zone :: "string \<Rightarrow> 'z api_config_scheme \<Rightarrow> 'z api_config_scheme result" where
  "set_zone zone config =
     and_then (validate_zone zone) (\<lambda>_.
       Inr (config\<lparr>zone_override := Some (to_ascii_lowercase (trim_end_matches DOT zone))\<rparr>))"

definition set_ttl :: "nat \<Rightarrow> nat \<Rightarrow> nat \<Rightarrow> 'z api_config_scheme \<Rightarrow> 'z api_config_scheme result" where
  "set_ttl lo hi t config = and_then (validate_ttl_range t lo hi) (\<lambda>t. Inr (config\<lparr>ttl := t\<rparr>))"

definition build_client :: "('b, 'r, 'n, 'e) api_env_scheme \<Rightarrow> duration \<Rightarrow> duration \<Rightarrow> unit result" where
  "build_client E t connect = (case client_build E t connect of None \<Rightarrow> Inr () | Some e \<Rightarrow> Inl (Http e))"

definition required_var :: "('b, 'r, 'n, 'e) api_env_scheme \<Rightarrow> string \<Rightarrow> string result" where
  "required_var E name = ok_or (MissingCredentials name) (env_var E name)"

text \<open>Every provider file has these two constants.\<close>

definition HTTP_TIMEOUT :: duration where
  "HTTP_TIMEOUT = from_secs 30"

definition CONNECT_TIMEOUT :: duration where
  "CONNECT_TIMEOUT = from_secs 5"

section \<open>Requests and values\<close>

definition send :: "('b, 'r, 'n, 'e) api_env_scheme \<Rightarrow> 'b request \<Rightarrow> (('n, 'z) world_scheme, 'r response) io" where
  "send E rq = act_map_err Http (on_net (send_retrying E rq))"

fun method_str :: "http_method \<Rightarrow> string" where
  "method_str GET = ''GET''"
| "method_str HEAD = ''HEAD''"
| "method_str OPTIONS = ''OPTIONS''"
| "method_str TRACE = ''TRACE''"
| "method_str CONNECT = ''CONNECT''"
| "method_str POST = ''POST''"
| "method_str PUT = ''PUT''"
| "method_str PATCH = ''PATCH''"
| "method_str DELETE = ''DELETE''"

definition read_json :: "('r \<Rightarrow> reqwest_error + 'a) \<Rightarrow> 'r response \<Rightarrow> ('w, 'a) io" where
  "read_json decode response = from_result (map_err Http (decode (rs_body response)))"

definition bearer :: "string \<Rightarrow> (string \<times> string)" where
  "bearer secret = (''authorization'', ''Bearer '' @ secret)"

definition quote_txt :: "string \<Rightarrow> string" where
  "quote_txt v = QUOTE # v @ [QUOTE]"

definition unquote :: "string \<Rightarrow> string" where
  "unquote v =
     (let trimmed = trim v in
      case Option.bind (strip_prefix [QUOTE] trimmed) (strip_suffix [QUOTE]) of
        Some s \<Rightarrow> s | None \<Rightarrow> trimmed)"

text \<open>
  A section under the keyed mutex, seen from the task that runs it. What the lock does between tasks is
  the subject of \<open>Keyed_Mutex\<close>.
\<close>

definition with_lock :: "string \<Rightarrow> string \<Rightarrow> ('w, 'a) io \<Rightarrow> ('w, 'a) io" where
  "with_lock namespace key section_body = section_body"

text \<open>Reading and updating what a provider caches, under its mutex.\<close>

definition get_state :: "('w \<Rightarrow> 'a) \<Rightarrow> ('w, 'a) io" where
  "get_state f = (\<lambda>w. (Inr (f w), w))"

definition modify_state :: "('w \<Rightarrow> 'w) \<Rightarrow> ('w, unit) io" where
  "modify_state g = (\<lambda>w. (Inr (), g w))"

section \<open>Quoting\<close>

lemma trim_quoted [simp]: "trim (QUOTE # v @ [QUOTE]) = QUOTE # v @ [QUOTE]"
proof -
  have "ws_head (QUOTE # v @ [QUOTE]) = 0"
    by (auto simp: ws_head_def ws1_def ws2_def ws3_def split: list.splits)
  moreover have "ws_last (QUOTE # rev v @ [QUOTE]) = 0"
    by (auto simp: ws_last_def ws1_def ws2_def ws3_def split: list.splits)
  ultimately show ?thesis by (simp add: trim_def drop_ws_stop)
qed

lemma unquote_quote_txt [simp]: "unquote (quote_txt v) = v"
proof -
  have "strip_prefix [QUOTE] (QUOTE # v @ [QUOTE]) = Some (v @ [QUOTE])" "strip_suffix [QUOTE] (v @ [QUOTE]) = Some v"
    by simp_all
  then show ?thesis unfolding unquote_def quote_txt_def Let_def trim_quoted
    by (simp only: Option.bind.simps option.case)
qed

text \<open>What pushing a value and filtering it out do to the values a list of presentation strings stands for.\<close>

lemma unquote_push: "unquote ` set (vs @ [quote_txt v]) = insert v (unquote ` set vs)"
  by simp

lemma image_filter_neq: "g ` set (filter (\<lambda>x. g x \<noteq> v) vs) = g ` set vs - {v}"
  by auto

lemma filter_same_length: "length (filter (\<lambda>x. g x \<noteq> v) vs) = length vs \<longleftrightarrow> v \<notin> g ` set vs"
proof
  assume "length (filter (\<lambda>x. g x \<noteq> v) vs) = length vs"
  then show "v \<notin> g ` set vs" using length_filter_less [of _ vs "\<lambda>x. g x \<noteq> v"] by fastforce
next
  assume "v \<notin> g ` set vs"
  then have "filter (\<lambda>x. g x \<noteq> v) vs = vs" by (auto intro: filter_True)
  then show "length (filter (\<lambda>x. g x \<noteq> v) vs) = length vs" by simp
qed

section \<open>Running to a postcondition\<close>

definition after :: "('w \<Rightarrow> 'a \<times> 'w) \<Rightarrow> 'w \<Rightarrow> ('a \<Rightarrow> 'w \<Rightarrow> bool) \<Rightarrow> bool" where
  "after m w Q \<longleftrightarrow> Q (fst (m w)) (snd (m w))"

named_theorems after_simps \<open>postconditions of the ways to compose actions\<close>

lemma after_attempt [after_simps]:
  "after (attempt m f) w Q \<longleftrightarrow>
   after m w (\<lambda>r w1. case r of Inl e \<Rightarrow> Q (Inl e) w1 | Inr x \<Rightarrow> after (f x) w1 Q)"
  by (auto simp: after_def attempt_def split: prod.splits sum.splits)

lemma after_pure [after_simps]:
  "after (from_result r) w Q \<longleftrightarrow> Q r w" "after (done_ok x) w Q \<longleftrightarrow> Q (Inr x) w"
  "after (fail_with e) w Q \<longleftrightarrow> Q (Inl e) w"
  by (simp_all add: after_def)

lemma after_if [after_simps]: "after (if b then m else m') w Q \<longleftrightarrow> (if b then after m w Q else after m' w Q)"
  by simp

lemma after_with_lock [after_simps]: "after (with_lock ns k m) w Q \<longleftrightarrow> after m w Q"
  by (simp add: with_lock_def)

lemma after_read_json [after_simps]: "after (read_json dec resp) w Q \<longleftrightarrow> Q (map_err Http (dec (rs_body resp))) w"
  by (simp add: read_json_def after_pure)

lemma after_mono: "after m w Q \<Longrightarrow> (\<And>r w'. Q r w' \<Longrightarrow> Q' r w') \<Longrightarrow> after m w Q'"
  by (simp add: after_def)

lemma afterI: "(\<And>r w'. m w = (r, w') \<Longrightarrow> Q r w') \<Longrightarrow> after m w Q"
  by (simp add: after_def)

section \<open>What a request does to the server\<close>

text \<open>
  \<open>view n\<close> is the part of the server's state a provider edits, and \<open>up\<close> a condition on the network that no
  request breaks. \<open>reads\<close>: the request does not change the view and its answer satisfies \<open>ans\<close>.
  \<open>writes\<close>: the request changes the view by \<open>step\<close> or not at all, and by \<open>step\<close> when the answer says so.
\<close>

definition idles :: "('b, 'r, 'n, 'e) http_env_scheme \<Rightarrow> ('n \<Rightarrow> bool) \<Rightarrow> ('n \<Rightarrow> 's) \<Rightarrow> bool" where
  "idles E up view \<longleftrightarrow> (\<forall>d n. up n \<longrightarrow> up (http_sleep E d n) \<and> view (http_sleep E d n) = view n)"

definition reads ::
  "('b, 'r, 'n, 'e) http_env_scheme \<Rightarrow> ('n \<Rightarrow> bool) \<Rightarrow> ('n \<Rightarrow> 's) \<Rightarrow> 'b request \<Rightarrow> ('s \<Rightarrow> 'r response \<Rightarrow> bool) \<Rightarrow> bool" where
  "reads E up view rq ans \<longleftrightarrow> (\<forall>n x n'. up n \<longrightarrow> http_send E rq n = (x, n') \<longrightarrow>
     up n' \<and> view n' = view n \<and> (\<forall>resp. x = Inr resp \<longrightarrow> ans (view n) resp))"

definition writes ::
  "('b, 'r, 'n, 'e) http_env_scheme \<Rightarrow> ('n \<Rightarrow> bool) \<Rightarrow> ('n \<Rightarrow> 's) \<Rightarrow> 'b request \<Rightarrow> ('s \<Rightarrow> 's \<Rightarrow> bool) \<Rightarrow>
   ('r response \<Rightarrow> bool) \<Rightarrow> bool" where
  "writes E up view rq step applied \<longleftrightarrow> (\<forall>n x n'. up n \<longrightarrow> http_send E rq n = (x, n') \<longrightarrow>
     up n' \<and> (view n' = view n \<or> step (view n) (view n')) \<and>
     (\<forall>resp. x = Inr resp \<longrightarrow> applied resp \<longrightarrow> step (view n) (view n')))"

lemma send_loop_inv:
  assumes "\<And>d n. I n \<Longrightarrow> I (http_sleep E d n)"
    and "\<And>n x n'. I n \<Longrightarrow> http_send E rq n = (x, n') \<Longrightarrow> I n' \<and> (\<forall>resp. x = Inr resp \<longrightarrow> Q resp n')"
  shows "I n \<Longrightarrow> send_loop E meth rq att n = (x, n') \<Longrightarrow> I n' \<and> (\<forall>resp. x = Inr resp \<longrightarrow> Q resp n')"
proof (induction "MAX_ATTEMPTS - att" arbitrary: att n rule: less_induct)
  case less
  obtain y n1 where s: "http_send E rq n = (y, n1)" by fastforce
  note now = assms(2) [OF less(2) s]
  show ?case
  proof (cases "\<exists>resp m wait. y = Inr resp \<and> meth = Some m \<and> http_clonable E rq \<and> \<not> MAX_ATTEMPTS \<le> att \<and>
      retry_delay m (rs_status resp) (rs_header resp) att = Some wait")
    case True
    then obtain wait where "\<not> MAX_ATTEMPTS \<le> att"
      "send_loop E meth rq (att + 1) (http_sleep E wait n1) = (x, n')"
      using less(3) s by (subst (asm) send_loop.simps) auto
    with less(1) [of "att + 1" "http_sleep E wait n1"] assms(1) now show ?thesis by simp
  next
    case False
    with less(3) s have "x = y \<and> n' = n1"
      by (subst (asm) send_loop.simps) (auto split: sum.splits option.splits if_splits)
    with now show ?thesis by simp
  qed
qed

text \<open>A condition on worlds that holds between requests: it may read the network and the provider's caches.\<close>

lemma after_send:
  assumes "I w" "\<And>d w. I w \<Longrightarrow> I (w\<lparr>net := http_sleep E d (net w)\<rparr>)"
    and "\<And>w x n'. I w \<Longrightarrow> http_send E rq (net w) = (x, n') \<Longrightarrow>
      I (w\<lparr>net := n'\<rparr>) \<and> (\<forall>resp. x = Inr resp \<longrightarrow> Q resp (w\<lparr>net := n'\<rparr>))"
  shows "after (send E rq) w (\<lambda>r w'. I w' \<and> (\<forall>resp. r = Inr resp \<longrightarrow> Q resp w'))"
proof -
  obtain x n' where s: "send_retrying E rq (net w) = (x, n')" by fastforce
  have "I (w\<lparr>net := n'\<rparr>) \<and> (\<forall>resp. x = Inr resp \<longrightarrow> Q resp (w\<lparr>net := n'\<rparr>))"
  proof (rule send_loop_inv [where I = "\<lambda>n. I (w\<lparr>net := n\<rparr>)" and Q = "\<lambda>resp n. Q resp (w\<lparr>net := n\<rparr>)"])
    show "I (w\<lparr>net := net w\<rparr>)" using assms(1) by simp
    show "I (w\<lparr>net := http_sleep E d n\<rparr>)" if "I (w\<lparr>net := n\<rparr>)" for d n using assms(2) [OF that, of d] by simp
    show "I (w\<lparr>net := m\<rparr>) \<and> (\<forall>resp. y = Inr resp \<longrightarrow> Q resp (w\<lparr>net := m\<rparr>))"
      if "I (w\<lparr>net := n\<rparr>)" "http_send E rq n = (y, m)" for n y m using assms(3) [OF that(1)] that(2) by simp
  qed (rule s [unfolded send_retrying_def])
  then show ?thesis using s by (auto simp: after_def send_def act_map_err_def on_net_def split: sum.splits)
qed

text \<open>Reading and writing through retries, for a view that only the server holds.\<close>

lemma after_read:
  assumes "idles E up view" "reads E up view rq ans" "up (net w)"
    and "\<And>w' r. up (net w') \<Longrightarrow> view (net w') = view (net w) \<Longrightarrow> w'\<lparr>net := net w\<rparr> = w \<Longrightarrow>
      (\<forall>resp. r = Inr resp \<longrightarrow> ans (view (net w)) resp) \<Longrightarrow> Q r w'"
  shows "after (send E rq) w Q"
proof (rule after_mono)
  let ?I = "\<lambda>w'. up (net w') \<and> view (net w') = view (net w) \<and> w'\<lparr>net := net w\<rparr> = w"
  show "after (send E rq) w (\<lambda>r w'. ?I w' \<and> (\<forall>resp. r = Inr resp \<longrightarrow> ans (view (net w)) resp))"
  proof (rule after_send [where I = ?I and Q = "\<lambda>resp w'. ans (view (net w)) resp"])
    show "?I w" using assms(3) by simp
    show "?I (w'\<lparr>net := http_sleep E d (net w')\<rparr>)" if "?I w'" for d w'
      using that assms(1) unfolding idles_def by simp
    show "?I (w'\<lparr>net := n'\<rparr>) \<and> (\<forall>resp. x = Inr resp \<longrightarrow> ans (view (net w)) resp)"
      if I: "?I w'" and s: "http_send E rq (net w') = (x, n')" for w' x n'
    proof -
      have "up n' \<and> view n' = view (net w') \<and> (\<forall>resp. x = Inr resp \<longrightarrow> ans (view (net w')) resp)"
        using assms(2) I s unfolding reads_def by blast
      with I show ?thesis by simp
    qed
  qed
qed (use assms(4) in blast)

lemma after_write:
  assumes "idles E up view" "writes E up view rq step applied" "up (net w)"
    and "\<And>s s'. J s \<Longrightarrow> step s s' \<Longrightarrow> J s' \<and> K s'" "J (view (net w))"
    and "\<And>w' r. up (net w') \<Longrightarrow> J (view (net w')) \<Longrightarrow> w'\<lparr>net := net w\<rparr> = w \<Longrightarrow>
      (\<forall>resp. r = Inr resp \<longrightarrow> applied resp \<longrightarrow> K (view (net w'))) \<Longrightarrow> Q r w'"
  shows "after (send E rq) w Q"
proof (rule after_mono)
  let ?I = "\<lambda>w'. up (net w') \<and> J (view (net w')) \<and> w'\<lparr>net := net w\<rparr> = w"
  let ?Q = "\<lambda>resp w'. applied resp \<longrightarrow> K (view (net w'))"
  show "after (send E rq) w (\<lambda>r w'. ?I w' \<and> (\<forall>resp. r = Inr resp \<longrightarrow> ?Q resp w'))"
  proof (rule after_send [where I = ?I and Q = ?Q])
    show "?I w" using assms(3,5) by simp
    show "?I (w'\<lparr>net := http_sleep E d (net w')\<rparr>)" if "?I w'" for d w'
      using that assms(1) unfolding idles_def by simp
    show "?I (w'\<lparr>net := n'\<rparr>) \<and> (\<forall>resp. x = Inr resp \<longrightarrow> ?Q resp (w'\<lparr>net := n'\<rparr>))"
      if I: "?I w'" and s: "http_send E rq (net w') = (x, n')" for w' x n'
    proof -
      have "up n'" "view n' = view (net w') \<or> step (view (net w')) (view n')"
        "\<forall>resp. x = Inr resp \<longrightarrow> applied resp \<longrightarrow> step (view (net w')) (view n')"
        using assms(2) I s unfolding writes_def by blast+
      with I assms(4) show ?thesis by auto
    qed
  qed
qed (use assms(6) in blast)

section \<open>Observing and editing the server\<close>

text \<open>
  \<open>good\<close> is what holds between the calls of a provider and \<open>st w\<close> the state of the server. An action observes
  the server if it leaves the state as it is and what it returns satisfies \<open>post\<close>; it stores a change if it
  ends in the old state with an error or in a state after the change; and it edits the value \<open>v\<close> of the owner
  \<open>k\<close> if no other value that the state stands for (by \<open>T\<close>) changes, and \<open>v\<close> is there afterwards (\<open>b\<close>) or not,
  when it returns \<open>Ok\<close>. \<open>S\<close> is a condition on the state to start in.
\<close>

definition observes ::
  "('w \<Rightarrow> bool) \<Rightarrow> ('w \<Rightarrow> 's) \<Rightarrow> ('s \<Rightarrow> bool) \<Rightarrow> ('w, 'a) io \<Rightarrow> ('s \<Rightarrow> 'a \<Rightarrow> bool) \<Rightarrow> bool" where
  "observes good st S m post \<longleftrightarrow> (\<forall>w. good w \<longrightarrow> S (st w) \<longrightarrow>
     after m w (\<lambda>r w'. good w' \<and> st w' = st w \<and> (\<forall>x. r = Inr x \<longrightarrow> post (st w) x)))"

definition stores ::
  "('w \<Rightarrow> bool) \<Rightarrow> ('w \<Rightarrow> 's) \<Rightarrow> ('w, unit) io \<Rightarrow> ('s \<Rightarrow> 's \<Rightarrow> bool) \<Rightarrow> bool" where
  "stores good st m step \<longleftrightarrow> (\<forall>w. good w \<longrightarrow>
     after m w (\<lambda>r w'. good w' \<and> (st w' = st w \<and> r \<noteq> Inr () \<or> step (st w) (st w'))))"

definition edits ::
  "('w \<Rightarrow> bool) \<Rightarrow> ('w \<Rightarrow> 's) \<Rightarrow> ('s \<Rightarrow> 'k \<Rightarrow> string set) \<Rightarrow> ('s \<Rightarrow> bool) \<Rightarrow> 'k \<Rightarrow> string \<Rightarrow> bool \<Rightarrow> ('w, unit) io \<Rightarrow> bool" where
  "edits good st T S k v b m \<longleftrightarrow> (\<forall>w. good w \<longrightarrow> S (st w) \<longrightarrow>
     after m w (\<lambda>r w'. good w' \<and> same_except {(k, v)} (T (st w)) (T (st w')) \<and>
       (r = Inr () \<longrightarrow> (v \<in> T (st w') k) = b)))"

named_theorems editing \<open>rules for observing and editing\<close>

lemma observes_attempt:
  assumes "observes good st S m post" "\<And>x. observes good st (\<lambda>s. S s \<and> post s x) (f x) post'"
  shows "observes good st S (attempt m f) post'"
  unfolding observes_def after_simps
proof (intro allI impI)
  fix w assume w: "good w" "S (st w)"
  let ?Q = "\<lambda>r w'. good w' \<and> st w' = st w \<and> (\<forall>x. r = Inr x \<longrightarrow> post' (st w) x)"
  show "after m w (\<lambda>r w1. case r of Inl e \<Rightarrow> ?Q (Inl e) w1 | Inr x \<Rightarrow> after (f x) w1 ?Q)"
  proof (rule after_mono)
    show "after m w (\<lambda>r w'. good w' \<and> st w' = st w \<and> (\<forall>x. r = Inr x \<longrightarrow> post (st w) x))"
      using assms(1) w unfolding observes_def by blast
    show "case r of Inl e \<Rightarrow> ?Q (Inl e) w1 | Inr x \<Rightarrow> after (f x) w1 ?Q"
      if w1: "good w1 \<and> st w1 = st w \<and> (\<forall>x. r = Inr x \<longrightarrow> post (st w) x)" for r w1
    proof (cases r)
      case (Inr x)
      with w1 w assms(2) [unfolded observes_def, rule_format, of w1 x] show ?thesis by simp
    qed (use w1 in simp)
  qed
qed

lemma observes_pure [editing]:
  "(\<And>s x. S s \<Longrightarrow> r = Inr x \<Longrightarrow> post s x) \<Longrightarrow> observes good st S (from_result r) post"
  "(\<And>s. S s \<Longrightarrow> post s x) \<Longrightarrow> observes good st S (done_ok x) post"
  "observes good st S (fail_with e) post"
  "(\<And>s x. S s \<Longrightarrow> dec (rs_body resp) = Inr x \<Longrightarrow> post s x) \<Longrightarrow> observes good st S (read_json dec resp) post"
  by (simp_all add: observes_def after_simps)

lemma observes_then [editing]:
  "(\<And>x. r = Inr x \<Longrightarrow> observes good st S (f x) post) \<Longrightarrow> observes good st S (attempt (from_result r) f) post"
  "(\<And>x. dec (rs_body resp) = Inr x \<Longrightarrow> observes good st S (g x) post) \<Longrightarrow>
   observes good st S (attempt (read_json dec resp) g) post"
  by (auto simp: observes_def after_simps split: sum.splits)

text \<open>For a first action whose result satisfies a condition that does not read the state.\<close>

lemma observes_given:
  assumes "observes good st S m (\<lambda>_. P)" "\<And>x. P x \<Longrightarrow> observes good st S (f x) post"
  shows "observes good st S (attempt m f) post"
proof (rule observes_attempt [OF assms(1)])
  show "observes good st (\<lambda>s. S s \<and> P x) (f x) post" for x
    using assms(2) [of x] by (cases "P x") (simp_all add: observes_def)
qed

lemma observes_if [editing]:
  "(c \<Longrightarrow> observes good st S m post) \<Longrightarrow> (\<not> c \<Longrightarrow> observes good st S m' post) \<Longrightarrow>
   observes good st S (if c then m else m') post"
  by simp

lemma observes_option [editing]:
  "(\<And>y. x = Some y \<Longrightarrow> observes good st S (f y) post) \<Longrightarrow> (x = None \<Longrightarrow> observes good st S m post) \<Longrightarrow>
   observes good st S (case x of Some y \<Rightarrow> f y | None \<Rightarrow> m) post"
  by (cases x) simp_all

lemma observes_get_state:
  "(\<And>w. good w \<Longrightarrow> S (st w) \<Longrightarrow> post (st w) (f w)) \<Longrightarrow> observes good st S (get_state f) post"
  by (simp add: observes_def after_def get_state_def)

lemma observes_modify_state:
  "(\<And>w. good w \<Longrightarrow> S (st w) \<Longrightarrow> good (g w) \<and> st (g w) = st w \<and> post (st w) ()) \<Longrightarrow>
   observes good st S (modify_state g) post"
  by (simp add: observes_def after_def modify_state_def)

lemma observes_modify_then:
  assumes "\<And>w. good w \<Longrightarrow> S (st w) \<Longrightarrow> good (g w) \<and> st (g w) = st w" "\<And>s. S s \<Longrightarrow> post s x"
  shows "observes good st S (attempt (modify_state g) (\<lambda>_. done_ok x)) post"
  by (rule observes_attempt [OF observes_modify_state [where post = "\<lambda>_ _. True"]]) (use assms in \<open>auto intro: observes_pure\<close>)

lemma observes_weaken:
  "observes good st S m post \<Longrightarrow> (\<And>s x. S' s \<Longrightarrow> S s) \<Longrightarrow> (\<And>s x. S' s \<Longrightarrow> post s x \<Longrightarrow> post' s x) \<Longrightarrow>
   observes good st S' m post'"
  by (simp add: observes_def after_def)

lemma edits_attempt:
  assumes "observes good st S m post" "\<And>x. edits good st T (\<lambda>s. S s \<and> post s x) k v b (f x)"
  shows "edits good st T S k v b (attempt m f)"
  unfolding edits_def after_simps
proof (intro allI impI)
  fix w assume w: "good w" "S (st w)"
  let ?Q = "\<lambda>r w'. good w' \<and> same_except {(k, v)} (T (st w)) (T (st w')) \<and> (r = Inr () \<longrightarrow> (v \<in> T (st w') k) = b)"
  show "after m w (\<lambda>r w1. case r of Inl e \<Rightarrow> ?Q (Inl e) w1 | Inr x \<Rightarrow> after (f x) w1 ?Q)"
  proof (rule after_mono)
    show "after m w (\<lambda>r w'. good w' \<and> st w' = st w \<and> (\<forall>x. r = Inr x \<longrightarrow> post (st w) x))"
      using assms(1) w unfolding observes_def by blast
    show "case r of Inl e \<Rightarrow> ?Q (Inl e) w1 | Inr x \<Rightarrow> after (f x) w1 ?Q"
      if w1: "good w1 \<and> st w1 = st w \<and> (\<forall>x. r = Inr x \<longrightarrow> post (st w) x)" for r w1
    proof (cases r)
      case (Inr x)
      with w1 w assms(2) [unfolded edits_def, rule_format, of w1 x] show ?thesis by simp
    qed (use w1 in simp)
  qed
qed

lemma edits_given:
  assumes "observes good st S m (\<lambda>_. P)" "\<And>x. P x \<Longrightarrow> edits good st T S k v b (f x)"
  shows "edits good st T S k v b (attempt m f)"
proof (rule edits_attempt [OF assms(1)])
  show "edits good st T (\<lambda>s. S s \<and> P x) k v b (f x)" for x
    using assms(2) [of x] by (cases "P x") (simp_all add: edits_def)
qed

lemma stores_given:
  assumes "observes good st (\<lambda>_. True) m (\<lambda>_. P)" "\<And>x. P x \<Longrightarrow> stores good st (f x) step"
  shows "stores good st (attempt m f) step"
  unfolding stores_def after_attempt
proof (intro allI impI)
  fix w assume w: "good w"
  let ?Q = "\<lambda>r w'. good w' \<and> (st w' = st w \<and> r \<noteq> Inr () \<or> step (st w) (st w'))"
  show "after m w (\<lambda>r w1. case r of Inl e \<Rightarrow> ?Q (Inl e) w1 | Inr x \<Rightarrow> after (f x) w1 ?Q)"
  proof (rule after_mono)
    show "after m w (\<lambda>r w'. good w' \<and> st w' = st w \<and> (\<forall>x. r = Inr x \<longrightarrow> P x))"
      using assms(1) w unfolding observes_def by blast
    show "case r of Inl e \<Rightarrow> ?Q (Inl e) w1 | Inr x \<Rightarrow> after (f x) w1 ?Q"
      if "good w1 \<and> st w1 = st w \<and> (\<forall>x. r = Inr x \<longrightarrow> P x)" for r w1
      using that assms(2) [unfolded stores_def, rule_format, of _ w1] by (auto split: sum.splits)
  qed
qed

text \<open>An observation after the change.\<close>

lemma stores_then:
  assumes "stores good st m step" "observes good st (\<lambda>_. True) m' post"
  shows "stores good st (attempt m (\<lambda>_. m')) step"
  unfolding stores_def after_attempt
proof (intro allI impI)
  fix w assume w: "good w"
  let ?Q = "\<lambda>r w'. good w' \<and> (st w' = st w \<and> r \<noteq> Inr () \<or> step (st w) (st w'))"
  show "after m w (\<lambda>r w1. case r of Inl e \<Rightarrow> ?Q (Inl e) w1 | Inr x \<Rightarrow> after m' w1 ?Q)"
  proof (rule after_mono)
    show "after m w ?Q" using assms(1) w unfolding stores_def by blast
    show "case r of Inl e \<Rightarrow> ?Q (Inl e) w1 | Inr x \<Rightarrow> after m' w1 ?Q" if "?Q r w1" for r w1
      using that assms(2) [unfolded observes_def, rule_format, of w1] by (auto simp: after_def split: sum.splits)
  qed
qed

lemma edits_pure [editing]:
  "edits good st T S k v b (fail_with e)"
  "(\<And>s. S s \<Longrightarrow> (v \<in> T s k) = b) \<Longrightarrow> edits good st T S k v b (done_ok ())"
  "(\<And>x. r = Inr x \<Longrightarrow> edits good st T S k v b (f x)) \<Longrightarrow> edits good st T S k v b (attempt (from_result r) f)"
  "edits good st T S k v b m \<Longrightarrow> edits good st T S k v b (with_lock ns key m)"
  by (auto simp: edits_def after_simps same_except_def split: sum.splits)

lemma edits_if [editing]:
  "(c \<Longrightarrow> edits good st T S k v b m) \<Longrightarrow> (\<not> c \<Longrightarrow> edits good st T S k v b m') \<Longrightarrow>
   edits good st T S k v b (if c then m else m')"
  by simp

lemma edits_option:
  "(\<And>y. x = Some y \<Longrightarrow> edits good st T S k v b (f y)) \<Longrightarrow> (x = None \<Longrightarrow> edits good st T S k v b m) \<Longrightarrow>
   edits good st T S k v b (case x of Some y \<Rightarrow> f y | None \<Rightarrow> m)"
  by (cases x) simp_all

lemma edits_store:
  assumes "stores good st m step"
    and "\<And>s s'. S s \<Longrightarrow> step s s' \<Longrightarrow> same_except {(k, v)} (T s) (T s') \<and> (v \<in> T s' k) = b"
  shows "edits good st T S k v b m"
  unfolding edits_def
proof (intro allI impI)
  fix w assume w: "good w" "S (st w)"
  show "after m w (\<lambda>r w'. good w' \<and> same_except {(k, v)} (T (st w)) (T (st w')) \<and> (r = Inr () \<longrightarrow> (v \<in> T (st w') k) = b))"
    by (rule after_mono, rule assms(1) [unfolded stores_def, rule_format, OF w(1)]) (use assms(2) w in auto)
qed

text \<open>Requests, for a provider whose caches (\<open>C\<close>) are outside the network.\<close>

definition online :: "('n \<Rightarrow> bool) \<Rightarrow> (('n, 'z) world_scheme \<Rightarrow> bool) \<Rightarrow> ('n, 'z) world_scheme \<Rightarrow> bool" where
  "online up C w \<longleftrightarrow> up (net w) \<and> C w"

definition net_free :: "(('n, 'z) world_scheme \<Rightarrow> bool) \<Rightarrow> bool" where
  "net_free C \<longleftrightarrow> (\<forall>w n r. C (w\<lparr>net := n, RESOLVER := r\<rparr>) = C w)"

lemma net_free_same:
  assumes "net_free C"
  shows "w'\<lparr>net := net w\<rparr> = w \<Longrightarrow> C w' = C w" "w'\<lparr>net := net w, RESOLVER := RESOLVER w\<rparr> = w \<Longrightarrow> C w' = C w"
proof -
  show *: "C w' = C w" if "w'\<lparr>net := net w, RESOLVER := RESOLVER w\<rparr> = w"
    using assms that unfolding net_free_def by metis
  show "C w' = C w" if "w'\<lparr>net := net w\<rparr> = w"
  proof (rule *)
    have "RESOLVER w' = RESOLVER w" using arg_cong [OF that, of RESOLVER] by simp
    then show "w'\<lparr>net := net w, RESOLVER := RESOLVER w\<rparr> = w" using that by simp
  qed
qed

lemma net_free_True [simp]: "net_free (\<lambda>_. True)"
  by (simp add: net_free_def)

lemma observes_send:
  assumes "idles E up view" "reads E up view rq ans" "net_free C"
  shows "observes (online up C) (\<lambda>w. view (net w)) S (send E rq) ans"
  unfolding observes_def
  by (auto intro!: after_read [OF assms(1,2)] simp: online_def net_free_same [OF assms(3)])

lemma stores_send:
  assumes "idles E up view" "writes E up view rq step applied" "net_free C"
    and "\<And>s s' s''. step s s' \<Longrightarrow> step s' s'' \<Longrightarrow> step s s''"
    and "\<And>resp w. snd (rest resp w) = w" "\<And>resp w. fst (rest resp w) = Inr () \<Longrightarrow> applied resp"
  shows "stores (online up C) (\<lambda>w. view (net w)) (attempt (send E rq) rest) step"
  unfolding stores_def after_simps
proof (intro allI impI)
  fix w
  assume w: "online up C w"
  let ?Q = "\<lambda>r w'. online up C w' \<and> (view (net w') = view (net w) \<and> r \<noteq> Inr () \<or> step (view (net w)) (view (net w')))"
  show "after (send E rq) w (\<lambda>r w1. case r of Inl e \<Rightarrow> ?Q (Inl e) w1 | Inr x \<Rightarrow> after (rest x) w1 ?Q)"
  proof (rule after_write [OF assms(1,2), where J = "\<lambda>s. s = view (net w) \<or> step (view (net w)) s"
        and K = "\<lambda>s. step (view (net w)) s"])
    fix r w1
    assume w1: "up (net w1)" "view (net w1) = view (net w) \<or> step (view (net w)) (view (net w1))"
      "w1\<lparr>net := net w\<rparr> = w" "\<forall>resp. r = Inr resp \<longrightarrow> applied resp \<longrightarrow> step (view (net w)) (view (net w1))"
    have "online up C w1" using w w1(1) net_free_same(1) [OF assms(3) w1(3)] by (simp add: online_def)
    with w1(2,4) assms(5,6) show "case r of Inl e \<Rightarrow> ?Q (Inl e) w1 | Inr x \<Rightarrow> after (rest x) w1 ?Q"
      by (auto simp: after_def split: sum.splits)
  qed (use w assms(4) in \<open>auto simp: online_def\<close>)
qed

section \<open>Zones from the DNS\<close>

text \<open>The resolver does not touch what the provider edits, and says of the same name always the same.\<close>

definition quiet_dns :: "'n dns_env \<Rightarrow> ('n \<Rightarrow> bool) \<Rightarrow> ('n \<Rightarrow> 's) \<Rightarrow> (string \<Rightarrow> bool) \<Rightarrow> bool" where
  "quiet_dns D up view soa \<longleftrightarrow>
     (\<forall>n x n'. up n \<longrightarrow> read_system_conf D n = (x, n') \<longrightarrow> up n' \<and> view n' = view n) \<and>
     (\<forall>r n x n'. up n \<longrightarrow> resolver_build D r n = (x, n') \<longrightarrow> up n' \<and> view n' = view n) \<and>
     (\<forall>r c n x n'. up n \<longrightarrow> dns_lookup D r c SOA n = (x, n') \<longrightarrow>
        up n' \<and> view n' = view n \<and> has_answers x = soa c)"

definition soa_zone :: "(string \<Rightarrow> bool) \<Rightarrow> string \<Rightarrow> string option" where
  "soa_zone soa f = find soa (zone_candidates (split_char DOT (trim_end_matches DOT f)))"

lemma zone_walk_quiet:
  assumes "quiet_dns D up view soa" "proper_labels ls"
  shows "up n \<Longrightarrow> zone_walk D r f (join [DOT] ls) n = (x, n') \<Longrightarrow>
    up n' \<and> view n' = view n \<and> (\<forall>z. x = Inr z \<longrightarrow> find soa (zone_candidates ls) = Some z)"
  using assms(2)
proof (induction ls arbitrary: n rule: induct_list012)
  case (3 l m ls)
  obtain resp n1 where look: "dns_lookup D r (join [DOT] (l # m # ls)) SOA n = (resp, n1)"
    by fastforce
  then have "up n1 \<and> view n1 = view n \<and> has_answers resp = soa (join [DOT] (l # m # ls))"
    using assms(1) 3(3) unfolding quiet_dns_def by blast
  with zone_walk_step [OF 3(5) look] 3(2) [of n1] 3(4,5) show ?case
    by (auto simp del: join.simps split: if_splits)
qed (auto simp: zone_walk.simps)

lemma after_find_zone:
  assumes "quiet_dns D up view soa" "validate_fqdn f = Inr ()" "up (net w)"
    and "\<And>w' r. up (net w') \<Longrightarrow> view (net w') = view (net w) \<Longrightarrow>
      w'\<lparr>net := net w, RESOLVER := RESOLVER w\<rparr> = w \<Longrightarrow>
      (\<forall>z. r = Inr z \<longrightarrow> soa_zone soa f = Some z) \<Longrightarrow> Q r w'"
  shows "after (find_zone D f) w Q"
proof -
  note dns = assms(1) [unfolded quiet_dns_def]
  let ?I = "\<lambda>w'. up (net w') \<and> view (net w') = view (net w) \<and> w'\<lparr>net := net w, RESOLVER := RESOLVER w\<rparr> = w"
  have net: "?I (snd (on_net m w'))" if "?I w'" "\<And>n x n'. up n \<Longrightarrow> m n = (x, n') \<Longrightarrow> up n' \<and> view n' = view n"
    for w' and m :: "'a \<Rightarrow> (string + unit) \<times> 'a"
  proof -
    obtain x n' where m: "m (net w') = (x, n')" by fastforce
    with that(2) [of "net w'" x n'] that(1) show ?thesis by (simp add: on_net_def)
  qed
  have calls: "\<And>n x n'. up n \<Longrightarrow> read_system_conf D n = (x, n') \<Longrightarrow> up n' \<and> view n' = view n"
    "\<And>n x n'. up n \<Longrightarrow> resolver_build D SystemResolver n = (x, n') \<Longrightarrow> up n' \<and> view n' = view n"
    using dns by blast+
  have shared: "?I (snd (shared_resolver D w))"
  proof (cases "RESOLVER w")
    case None
    obtain a w1 where c: "on_net (read_system_conf D) w = (a, w1)" by fastforce
    obtain b w2 where b: "on_net (resolver_build D SystemResolver) w1 = (b, w2)" by fastforce
    have "?I w1" using net [of w "read_system_conf D"] calls(1) assms(3) c by simp
    moreover from this have "?I w2" using net [of w1 "resolver_build D SystemResolver"] calls(2) b by simp
    ultimately show ?thesis using None c b by (auto simp: shared_resolver_def split: sum.splits)
  qed (use assms(3) in \<open>simp add: shared_resolver_def\<close>)
  show ?thesis
  proof (cases "fst (shared_resolver D w)")
    case (Inl e)
    then have "find_zone D f w = (Inl e, snd (shared_resolver D w))"
      by (cases "shared_resolver D w") (simp add: find_zone_def attempt_def)
    with shared assms(4) show ?thesis by (simp add: after_def)
  next
    case (Inr res)
    let ?w1 = "snd (shared_resolver D w)"
    obtain x n2 where walk: "zone_walk D res f (trim_end_matches DOT f) (net ?w1) = (x, n2)" by fastforce
    then have run: "find_zone D f w = (x, ?w1\<lparr>net := n2\<rparr>)"
      using Inr by (cases "shared_resolver D w") (simp add: find_zone_def attempt_def on_net_def)
    have "up n2 \<and> view n2 = view (net ?w1) \<and> (\<forall>z. x = Inr z \<longrightarrow> soa_zone soa f = Some z)"
      using zone_walk_quiet [OF assms(1) split_labels_ok [OF assms(2)], of "net ?w1" res f x n2] walk shared
      by (simp add: join_split_char soa_zone_def)
    with shared run assms(4) show ?thesis by (simp add: after_def)
  qed
qed

lemma observes_find_zone:
  assumes "quiet_dns D up view soa" "validate_fqdn f = Inr ()" "net_free C"
  shows "observes (online up C) (\<lambda>w. view (net w)) S (find_zone D f) (\<lambda>_ z. soa_zone soa f = Some z)"
  unfolding observes_def
  by (auto intro!: after_find_zone [OF assms(1,2)] simp: online_def net_free_same [OF assms(3)])

text \<open>Where most providers take the zone from: the configured one, or the DNS with a check of its syntax.\<close>

definition zone_for :: "'z api_config_scheme \<Rightarrow> (string \<Rightarrow> bool) \<Rightarrow> string \<Rightarrow> string option" where
  "zone_for config soa f = (case zone_override config of Some z \<Rightarrow> Some z | None \<Rightarrow> soa_zone soa f)"

lemma observes_zone_for:
  assumes "quiet_dns D up view soa" "validate_fqdn f = Inr ()" "net_free C"
  shows "observes (online up C) (\<lambda>w. view (net w)) S
    (case zone_override config of Some z \<Rightarrow> done_ok z
     | None \<Rightarrow> attempt (find_zone D f) (\<lambda>z. attempt (from_result (check z)) (\<lambda>_. done_ok z)))
    (\<lambda>_ z. zone_for config soa f = Some z)"
proof (cases "zone_override config")
  case None
  have "observes (online up C) (\<lambda>w. view (net w)) S
      (attempt (find_zone D f) (\<lambda>z. attempt (from_result (check z)) (\<lambda>_. done_ok z))) (\<lambda>_ z. soa_zone soa f = Some z)"
    by (rule observes_attempt [OF observes_find_zone [OF assms]]) (intro editing, simp)
  then show ?thesis using None by (simp add: zone_for_def)
qed (simp add: zone_for_def observes_pure)

section \<open>The record of a name\<close>

definition owner :: "(string \<Rightarrow> string \<Rightarrow> 'k) \<Rightarrow> string option \<Rightarrow> string \<Rightarrow> 'k option" where
  "owner K zone f = (case zone of None \<Rightarrow> None | Some z \<Rightarrow>
     (case relative_name f z of Inl _ \<Rightarrow> None | Inr r \<Rightarrow> Some (K z r)))"

lemma edits_in_zone_by:
  assumes "observes good st S resolve (\<lambda>_ x. zone = Some (name x))"
    and "\<And>x r. zone = Some (name x) \<Longrightarrow> relative_name f (name x) = Inr r \<Longrightarrow>
      edits good st T S (Some (K (name x) r)) v b (body x r)"
  shows "edits good st T S (owner K zone f) v b
    (attempt resolve (\<lambda>x. attempt (from_result (relative_name f (name x))) (body x)))"
proof (rule edits_attempt [OF assms(1)], rule edits_pure(3))
  fix x r assume rel: "relative_name f (name x) = Inr r"
  show "edits good st T (\<lambda>s. S s \<and> zone = Some (name x)) (owner K zone f) v b (body x r)"
  proof (cases "zone = Some (name x)")
    case True
    with rel assms(2) show ?thesis by (simp add: owner_def)
  qed (simp add: edits_def)
qed

lemmas edits_in_zone = edits_in_zone_by [where name = "\<lambda>z. z"]

lemma relative_name_nonempty:
  assumes "validate_fqdn f = Inr ()" "relative_name f z = Inr r"
  shows "r \<noteq> []"
proof
  assume "r = []"
  with assms(2) have "trim_end_matches DOT f = DOT # trim_end_matches DOT z"
    by (auto simp: relative_name_Inr split: if_splits)
  then have "[] \<in> set (split_char DOT (trim_end_matches DOT f))" by simp
  with split_labels_ok [OF assms(1)] show False by (auto simp: list_all_iff)
qed

lemma lower_eq_at: "to_ascii_lowercase t = ''@'' \<longleftrightarrow> t = ''@''"
proof -
  have "ascii_lower c = CHR ''@'' \<longleftrightarrow> c = CHR ''@''" for c
  proof -
    have "byte (ascii_lower c) = byte (CHR ''@'') \<longleftrightarrow> byte c = byte (CHR ''@'')" by (auto simp: byte_ascii_lower)
    then show ?thesis by (metis byte_eqD)
  qed
  then show ?thesis by (cases t) (auto simp: to_ascii_lowercase_def)
qed

lemma relative_name_lower:
  assumes "relative_name (to_ascii_lowercase f) z = Inr r"
  shows "to_ascii_lowercase r = r"
proof (cases "r = ''@''")
  case False
  with assms have "trim_end_matches DOT (to_ascii_lowercase f) = r @ DOT # trim_end_matches DOT z"
    by (auto simp: relative_name_Inr split: if_splits)
  then have "to_ascii_lowercase (r @ DOT # trim_end_matches DOT z) = r @ DOT # trim_end_matches DOT z"
    by (metis to_ascii_lowercase_idem trim_end_matches_DOT_lower)
  then show ?thesis by simp
qed (use lower_eq_at [of "''@''"] in simp)

lemma split_char_append: "split_char c (a @ c # b) = split_char c a @ split_char c b"
proof (induction a)
  case (Cons d a)
  then show ?case by (cases "split_char c a") (auto simp: split_char_not_Nil)
qed simp

lemma relative_name_dot:
  assumes "validate_fqdn f = Inr ()" "relative_name f z = Inr r"
  shows "trim_end_matches DOT r = r"
proof (cases "r = ''@''")
  case False
  with assms(2) have f: "trim_end_matches DOT f = r @ DOT # trim_end_matches DOT z"
    by (auto simp: relative_name_Inr split: if_splits)
  have "\<not> (\<exists>a. r = a @ [DOT])"
  proof
    assume "\<exists>a. r = a @ [DOT]"
    then obtain a where "r = a @ [DOT]" ..
    with f have "[] \<in> set (split_char DOT (trim_end_matches DOT f))" by (simp add: split_char_append)
    with split_labels_ok [OF assms(1)] show False by (auto simp: list_all_iff)
  qed
  then show ?thesis by (cases r rule: rev_cases) (auto simp: trim_end_matches_snoc)
qed (simp add: trim_end_matches_def)

text \<open>Record sets that are read and replaced as a whole.\<close>

definition rr_values :: "('k \<Rightarrow> string list) \<Rightarrow> 'k option \<Rightarrow> string set" where
  "rr_values s k = (case k of None \<Rightarrow> {} | Some u \<Rightarrow> unquote ` set (s u))"

lemma add_to_rrset:
  assumes "observes good st S fetch (\<lambda>s vs. vs = s u)"
    and "\<And>vs. stores good st (store (vs @ [quote_txt v])) (\<lambda>s s'. s' = s(u := vs @ [quote_txt v]))"
  shows "edits good st rr_values S (Some u) v True
    (attempt fetch (\<lambda>vs. if list_ex (\<lambda>x. unquote x = v) vs then done_ok () else store (vs @ [quote_txt v])))"
proof (rule edits_attempt [OF assms(1)], rule edits_if)
  fix vs
  show "edits good st rr_values (\<lambda>s. S s \<and> vs = s u) (Some u) v True (done_ok ())" if "list_ex (\<lambda>x. unquote x = v) vs"
    using that by (intro edits_pure) (auto simp: rr_values_def list_ex_iff)
  show "edits good st rr_values (\<lambda>s. S s \<and> vs = s u) (Some u) v True (store (vs @ [quote_txt v]))"
    by (rule edits_store [OF assms(2)]) (auto simp: same_except_def rr_values_def split: option.splits)
qed

lemma drop_from_rrset:
  assumes "observes good st S fetch (\<lambda>s vs. vs = s u)"
    and "\<And>vs. stores good st (store vs) (\<lambda>s s'. s' = s(u := vs))" "stores good st wipe (\<lambda>s s'. s' = s(u := []))"
  shows "edits good st rr_values S (Some u) v False
    (attempt fetch (\<lambda>vs. let remaining = filter (\<lambda>x. unquote x \<noteq> v) vs in
       if length remaining = length vs then done_ok ()
       else if remaining = [] then wipe else store remaining))"
  unfolding Let_def
proof (rule edits_attempt [OF assms(1)], rule edits_if)
  fix vs
  let ?rem = "filter (\<lambda>x. unquote x \<noteq> v) vs"
  show "edits good st rr_values (\<lambda>s. S s \<and> vs = s u) (Some u) v False (done_ok ())" if "length ?rem = length vs"
    using that by (intro edits_pure) (auto simp: rr_values_def filter_same_length)
  have "stores good st (if ?rem = [] then wipe else store ?rem) (\<lambda>s s'. s' = s(u := ?rem))"
    using assms(2,3) by simp
  then show "edits good st rr_values (\<lambda>s. S s \<and> vs = s u) (Some u) v False (if ?rem = [] then wipe else store ?rem)"
    by (rule edits_store) (auto simp: same_except_def rr_values_def split: option.splits)
qed

section \<open>The contract\<close>

lemma dns_providerI:
  assumes "\<And>f v. edits good st T (\<lambda>_. True) (key f) v True (present P f v)"
    and "\<And>f v. edits good st T (\<lambda>_. True) (key f) v False (cleanup P f v)"
  shows "dns_provider P (\<lambda>w. T (st w)) key good"
proof
  fix w f v w' k u
  assume good: "good w"
  note laws = assms(1) [of f v] assms(2) [of f v]
  note laws = laws [unfolded edits_def after_def, rule_format, OF good TrueI]
  show "good (snd (present P f v w))" "good (snd (cleanup P f v w))" using laws by blast+
  show "v \<in> T (st w') (key f)" if "present P f v w = (Inr (), w')" using laws that by simp
  show "v \<notin> T (st w') (key f)" if "cleanup P f v w = (Inr (), w')" using laws that by simp
  show "u \<in> T (st (snd (present P f v w))) k \<longleftrightarrow> u \<in> T (st w) k"
    "u \<in> T (st (snd (cleanup P f v w))) k \<longleftrightarrow> u \<in> T (st w) k"
    if "(k, u) \<noteq> (key f, v)" using laws that by (auto simp: same_except_def)
qed

section \<open>Pieces of a concrete environment\<close>

definition still_dns :: "(string \<Rightarrow> bool) \<Rightarrow> 'n dns_env" where
  "still_dns soa =
     \<lparr>read_system_conf = (\<lambda>n. (Inr (), n)), resolver_build = (\<lambda>_ n. (Inr (), n)),
      dns_lookup = (\<lambda>_ c ty n. (if ty = SOA \<and> soa c then Inr [RD_Other] else Inl ''no records'', n)),
      dns_lookup_ip = (\<lambda>_ _ n. (Inl ''no records'', n)), parse_socket_addr = (\<lambda>_. Inl ''none''),
      dns_now = (\<lambda>_. 0), dns_sleep = (\<lambda>_ n. n)\<rparr>"

lemma quiet_still_dns: "quiet_dns (still_dns soa) up view soa"
  by (auto simp: quiet_dns_def still_dns_def has_answers_def)

definition answer :: "nat \<Rightarrow> 'r \<Rightarrow> reqwest_error + 'r response" where
  "answer status body = Inr \<lparr>rs_status = status, rs_header = (\<lambda>_. None), rs_body = body\<rparr>"

text \<open>An environment around a server, for the provider-specific decoders \<open>more\<close>.\<close>

definition api_around ::
  "('b request \<Rightarrow> 'n \<Rightarrow> (reqwest_error + 'r response) \<times> 'n) \<Rightarrow> (string \<Rightarrow> bool) \<Rightarrow> 'm \<Rightarrow> ('b, 'r, 'n, 'm) api_env_scheme" where
  "api_around server soa decoders =
     \<lparr>http_send = server, http_clonable = (\<lambda>_. True), http_builds = (\<lambda>_. True), http_sleep = (\<lambda>_ n. n),
      http_text = (\<lambda>_. Inr []), status_display = show_nat, pct_encode = (\<lambda>_ s. s), api_dns = still_dns soa,
      env_var = (\<lambda>_. None), url_parse = (\<lambda>_. None), client_build = (\<lambda>_ _. None), \<dots> = decoders\<rparr>"

lemma api_around_simps [simp]:
  "http_send (api_around server soa decoders) = server" "http_sleep (api_around server soa decoders) = (\<lambda>_ n. n)"
  "api_dns (api_around server soa decoders) = still_dns soa" "api_env.more (api_around server soa decoders) = decoders"
  by (simp_all add: api_around_def)

lemma idles_api_around [simp]: "idles (api_around server soa decoders) up view"
  by (simp add: idles_def)

text \<open>The part of a path that is a variable.\<close>

definition between :: "string \<Rightarrow> string \<Rightarrow> string \<Rightarrow> string" where
  "between before behind s = (case Option.bind (strip_prefix before s) (strip_suffix behind) of None \<Rightarrow> [] | Some t \<Rightarrow> t)"

lemma between_eq: "u = before @ x @ behind \<Longrightarrow> between before behind u = x"
proof -
  assume "u = before @ x @ behind"
  then have "strip_prefix before u = Some (x @ behind)" "strip_suffix behind (x @ behind) = Some x" by simp_all
  then show ?thesis by (simp only: between_def Option.bind.simps option.case)
qed

end
