(* ===== verification/Provider_Config.thy ===== *)
theory Provider_Config
  imports Provider_Kit
begin

text \<open>
  What the builder methods of the provider configurations promise. A configuration is made by a constructor and any
  sequence of accepted builder calls; the interface \<open>config_builder\<close> says what each call does, and every provider
  with these builders is an instance of it.
\<close>

inductive built ::
  "(string \<Rightarrow> 'a \<Rightarrow> 'a result) \<Rightarrow> (string \<Rightarrow> 'a \<Rightarrow> 'a result) \<Rightarrow> (nat \<Rightarrow> 'a \<Rightarrow> 'a result) \<Rightarrow> (duration \<Rightarrow> 'a \<Rightarrow> 'a) \<Rightarrow> 'a \<Rightarrow> 'a \<Rightarrow> bool"
  for with_base with_zone with_ttl with_limit start where
  built_new: "built with_base with_zone with_ttl with_limit start start"
| built_base: "built with_base with_zone with_ttl with_limit start c \<Longrightarrow> with_base b c = Inr c' \<Longrightarrow>
    built with_base with_zone with_ttl with_limit start c'"
| built_zone: "built with_base with_zone with_ttl with_limit start c \<Longrightarrow> with_zone z c = Inr c' \<Longrightarrow>
    built with_base with_zone with_ttl with_limit start c'"
| built_ttl: "built with_base with_zone with_ttl with_limit start c \<Longrightarrow> with_ttl t c = Inr c' \<Longrightarrow>
    built with_base with_zone with_ttl with_limit start c'"
| built_limit: "built with_base with_zone with_ttl with_limit start c \<Longrightarrow>
    built with_base with_zone with_ttl with_limit start (with_limit d c)"

text \<open>The zone is in the form that later comparisons assume: valid, in lower case and without a trailing dot.\<close>

definition config_wf :: "(string \<Rightarrow> url option) \<Rightarrow> string \<Rightarrow> string \<Rightarrow> nat \<Rightarrow> nat \<Rightarrow> 'z api_config_scheme \<Rightarrow> bool" where
  "config_wf parse provider base lo hi c \<longleftrightarrow>
     (api_base c = base \<or> (\<exists>b. validate_https_base parse b provider = Inr () \<and> api_base c = trim_end_matches SLASH b)) \<and>
     (\<forall>z. zone_override c = Some z \<longrightarrow> validate_zone z = Inr () \<and> to_ascii_lowercase z = z \<and> trim_end_matches DOT z = z) \<and>
     lo \<le> ttl c \<and> ttl c \<le> hi"

locale config_builder =
  fixes parse :: "string \<Rightarrow> url option" and provider :: string and lo hi :: nat and start :: "'z api_config_scheme"
    and with_base with_zone :: "string \<Rightarrow> 'z api_config_scheme \<Rightarrow> 'z api_config_scheme result"
    and with_ttl :: "nat \<Rightarrow> 'z api_config_scheme \<Rightarrow> 'z api_config_scheme result"
    and with_limit :: "duration \<Rightarrow> 'z api_config_scheme \<Rightarrow> 'z api_config_scheme"
  assumes starts: "zone_override start = None" "lo \<le> ttl start" "ttl start \<le> hi"
    and base_step: "with_base b c = Inr c' \<Longrightarrow> validate_https_base parse b provider = Inr () \<and> api_base c' = trim_end_matches SLASH b \<and>
      zone_override c' = zone_override c \<and> ttl c' = ttl c"
    and zone_step: "with_zone z c = Inr c' \<Longrightarrow> validate_zone z = Inr () \<and> zone_override c' = Some (to_ascii_lowercase (trim_end_matches DOT z)) \<and>
      api_base c' = api_base c \<and> ttl c' = ttl c"
    and ttl_step: "with_ttl t c = Inr c' \<Longrightarrow> lo \<le> ttl c' \<and> ttl c' \<le> hi \<and> zone_override c' = zone_override c \<and> api_base c' = api_base c"
    and limit_step: "ttl (with_limit d c) = ttl c" "zone_override (with_limit d c) = zone_override c" "api_base (with_limit d c) = api_base c"
begin

lemma zone_canonical:
  assumes "validate_zone z = Inr ()"
  shows "validate_zone (to_ascii_lowercase (trim_end_matches DOT z)) = Inr ()"
    "trim_end_matches DOT (to_ascii_lowercase (trim_end_matches DOT z)) = to_ascii_lowercase (trim_end_matches DOT z)"
proof -
  let ?t = "trim_end_matches DOT z"
  have trimmed: "trim_end_matches DOT (to_ascii_lowercase ?t) = to_ascii_lowercase ?t" by (simp add: trim_end_matches_DOT_lower)
  then show "trim_end_matches DOT (to_ascii_lowercase ?t) = to_ascii_lowercase ?t" .
  have "validate_fqdn ?t = Inr ()" using assms by (simp add: validate_zone_Inr validate_fqdn_labels Let_def)
  then have "validate_fqdn (to_ascii_lowercase ?t) = Inr ()" by (rule validate_fqdn_lower)
  moreover have "DOT \<in> set (to_ascii_lowercase ?t)"
  proof -
    have "ascii_lower DOT \<in> ascii_lower ` set ?t" using assms by (intro imageI) (simp add: validate_zone_Inr)
    moreover have "ascii_lower DOT = DOT" by simp
    ultimately show ?thesis by (simp only: to_ascii_lowercase_def set_map)
  qed
  ultimately show "validate_zone (to_ascii_lowercase ?t) = Inr ()" by (simp add: validate_zone_Inr trimmed)
qed

lemma built_wf:
  "built with_base with_zone with_ttl with_limit start c \<Longrightarrow> config_wf parse provider (api_base start) lo hi c"
proof (induction rule: built.induct)
  case built_new
  show ?case by (simp add: config_wf_def starts)
next
  case (built_base c b c')
  with base_step [of b c c'] show ?case by (auto simp: config_wf_def)
next
  case (built_zone c z c')
  with zone_step [of z c c'] zone_canonical [of z] show ?case by (auto simp: config_wf_def)
next
  case (built_ttl c t c')
  with ttl_step [of t c c'] show ?case by (auto simp: config_wf_def)
qed (simp add: config_wf_def limit_step)

end

lemmas builder_simps = set_api_base_def set_zone_def set_ttl_def and_then_eq_Inr validate_ttl_def MAX_TTL_def

end
