(* ===== verification/Gandi.thy ===== *)
theory Gandi
  imports Provider_Kit Provider_Config
begin

text \<open>
  The Gandi provider (\<open>providers/gandi.rs\<close>): a TXT record set is one resource of the API, read and
  replaced as a whole.
\<close>

section \<open>Configuration\<close>

definition GANDI_API_BASE :: string where
  "GANDI_API_BASE = ''https://api.gandi.net/v5''"

definition GANDI_ENV_TOKEN :: string where
  "GANDI_ENV_TOKEN = ''GANDIV5_PERSONAL_ACCESS_TOKEN''"

definition GANDI_DEFAULT_TTL :: nat where
  "GANDI_DEFAULT_TTL = 300"

definition GANDI_PROVIDER :: string where
  "GANDI_PROVIDER = ''gandi''"

record TxtRecordBody =
  rrset_ttl :: nat
  rrset_values :: "string list"

record ('r, 'n) gandi_env = "(TxtRecordBody, 'r, 'n) api_env" +
  gandi_json :: "'r \<Rightarrow> reqwest_error + TxtRecordBody"

record GandiConfig = api_config +
  personal_access_token :: string

text \<open>The provider is its configuration; the HTTP client and the lock namespace have no state of their own.\<close>

type_synonym GandiProvider = GandiConfig

definition GandiConfig_new :: "string \<Rightarrow> GandiConfig" where
  "GandiConfig_new secret =
     \<lparr>api_base = GANDI_API_BASE, zone_override = None, ttl = GANDI_DEFAULT_TTL, cfg_timeout = HTTP_TIMEOUT,
      personal_access_token = secret\<rparr>"

definition gandi_with_api_base :: "('r, 'n) gandi_env \<Rightarrow> string \<Rightarrow> GandiConfig \<Rightarrow> GandiConfig result" where
  "gandi_with_api_base E base config = set_api_base E GANDI_PROVIDER base config"

definition gandi_with_zone :: "string \<Rightarrow> GandiConfig \<Rightarrow> GandiConfig result" where
  "gandi_with_zone zone config = set_zone zone config"

definition gandi_with_ttl :: "nat \<Rightarrow> GandiConfig \<Rightarrow> GandiConfig result" where
  "gandi_with_ttl t config = set_ttl 300 2592000 t config"

definition gandi_with_timeout :: "duration \<Rightarrow> GandiConfig \<Rightarrow> GandiConfig" where
  "gandi_with_timeout t config = config\<lparr>cfg_timeout := t\<rparr>"

interpretation gandi_config: config_builder "url_parse E" GANDI_PROVIDER "300" "2592000" "GandiConfig_new t" "gandi_with_api_base E"
  gandi_with_zone gandi_with_ttl gandi_with_timeout for E :: "('r, 'n) gandi_env" and t
  by unfold_locales
    (auto simp: gandi_with_api_base_def gandi_with_zone_def gandi_with_ttl_def gandi_with_timeout_def GandiConfig_new_def GANDI_DEFAULT_TTL_def builder_simps)

definition GandiProvider_new :: "('r, 'n) gandi_env \<Rightarrow> GandiConfig \<Rightarrow> GandiProvider result" where
  "GandiProvider_new E config =
     and_then (build_client E (cfg_timeout config) CONNECT_TIMEOUT) (\<lambda>_. Inr config)"

definition gandi_from_env :: "('r, 'n) gandi_env \<Rightarrow> GandiProvider result" where
  "gandi_from_env E =
     and_then (required_var E GANDI_ENV_TOKEN) (\<lambda>secret. GandiProvider_new E (GandiConfig_new secret))"

section \<open>The API calls\<close>

definition gandi_record_path :: "('r, 'n) gandi_env \<Rightarrow> string \<Rightarrow> string \<Rightarrow> string" where
  "gandi_record_path E zone rname =
     ''/livedns/domains/'' @ encode_path E zone @ ''/records/'' @ encode_path E rname @ ''/TXT''"

definition gandi_record_url :: "('r, 'n) gandi_env \<Rightarrow> GandiProvider \<Rightarrow> string \<Rightarrow> string \<Rightarrow> string" where
  "gandi_record_url E self zone rname =
     api_base self @ ''/livedns/domains/'' @ encode_path E zone @ ''/records/'' @ encode_path E rname @ ''/TXT''"

definition gandi_fetch_existing ::
  "('r, 'n) gandi_env \<Rightarrow> GandiProvider \<Rightarrow> string \<Rightarrow> string \<Rightarrow> (('n, 'z) world_scheme, string list) io" where
  "gandi_fetch_existing E self zone rname =
     (let url = gandi_record_url E self zone rname in
      attempt (send E \<lparr>rq_method = GET, rq_url = url, rq_query = [],
         rq_headers = [bearer (personal_access_token self)], rq_body = None\<rparr>) (\<lambda>response.
      let status = rs_status response in
      if status = 404 then done_ok []
      else if \<not> is_success status
      then fail_with (api_error E GANDI_PROVIDER ''GET'' (gandi_record_path E zone rname) status response)
      else attempt (read_json (gandi_json E) response) (\<lambda>body. done_ok (rrset_values body))))"

definition gandi_put_values ::
  "('r, 'n) gandi_env \<Rightarrow> GandiProvider \<Rightarrow> string \<Rightarrow> string \<Rightarrow> string list \<Rightarrow> (('n, 'z) world_scheme, unit) io" where
  "gandi_put_values E self zone rname vs =
     (let url = gandi_record_url E self zone rname;
          body = \<lparr>rrset_ttl = ttl self, rrset_values = vs\<rparr> in
      attempt (send E \<lparr>rq_method = PUT, rq_url = url, rq_query = [],
         rq_headers = [bearer (personal_access_token self)], rq_body = Some body\<rparr>) (\<lambda>response.
      let status = rs_status response in
      if \<not> is_success status
      then fail_with (api_error E GANDI_PROVIDER ''PUT'' (gandi_record_path E zone rname) status response)
      else done_ok ()))"

definition gandi_delete_record ::
  "('r, 'n) gandi_env \<Rightarrow> GandiProvider \<Rightarrow> string \<Rightarrow> string \<Rightarrow> (('n, 'z) world_scheme, unit) io" where
  "gandi_delete_record E self zone rname =
     (let url = gandi_record_url E self zone rname in
      attempt (send E \<lparr>rq_method = DELETE, rq_url = url, rq_query = [],
         rq_headers = [bearer (personal_access_token self)], rq_body = None\<rparr>) (\<lambda>response.
      let status = rs_status response in
      if \<not> is_success status \<and> status \<noteq> 404
      then fail_with (api_error E GANDI_PROVIDER ''DELETE'' (gandi_record_path E zone rname) status response)
      else done_ok ()))"

definition gandi_resolve_zone ::
  "('r, 'n) gandi_env \<Rightarrow> GandiProvider \<Rightarrow> string \<Rightarrow> (('n, 'z) world_scheme, string) io" where
  "gandi_resolve_zone E self fqdn =
     (case zone_override self of
        Some z \<Rightarrow> done_ok z
      | None \<Rightarrow>
          attempt (find_zone (api_dns E) fqdn) (\<lambda>zone.
          attempt (from_result (validate_fqdn zone)) (\<lambda>_.
          done_ok zone)))"

section \<open>The provider\<close>

definition gandi_present ::
  "('r, 'n) gandi_env \<Rightarrow> GandiProvider \<Rightarrow> string \<Rightarrow> string \<Rightarrow> (('n, 'z) world_scheme, unit) io" where
  "gandi_present E self fqdn v =
     attempt (from_result (validate_fqdn fqdn)) (\<lambda>_.
     let fqdn = to_ascii_lowercase fqdn in
     attempt (from_result (validate_acme_value v)) (\<lambda>_.
     attempt (gandi_resolve_zone E self fqdn) (\<lambda>zone.
     attempt (from_result (relative_name fqdn zone)) (\<lambda>rname.
     with_lock GANDI_PROVIDER (zone @ ''|'' @ rname) (
     attempt (gandi_fetch_existing E self zone rname) (\<lambda>vs.
     if list_ex (\<lambda>u. unquote u = v) vs then done_ok ()
     else gandi_put_values E self zone rname (vs @ [quote_txt v])))))))"

definition gandi_cleanup ::
  "('r, 'n) gandi_env \<Rightarrow> GandiProvider \<Rightarrow> string \<Rightarrow> string \<Rightarrow> (('n, 'z) world_scheme, unit) io" where
  "gandi_cleanup E self fqdn v =
     attempt (from_result (validate_fqdn fqdn)) (\<lambda>_.
     let fqdn = to_ascii_lowercase fqdn in
     attempt (gandi_resolve_zone E self fqdn) (\<lambda>zone.
     attempt (from_result (relative_name fqdn zone)) (\<lambda>rname.
     with_lock GANDI_PROVIDER (zone @ ''|'' @ rname) (
     attempt (gandi_fetch_existing E self zone rname) (\<lambda>vs.
     let remaining = filter (\<lambda>u. unquote u \<noteq> v) vs in
     if length remaining = length vs then done_ok ()
     else if remaining = [] then gandi_delete_record E self zone rname
     else gandi_put_values E self zone rname remaining)))))"

definition gandi_provider :: "('r, 'n) gandi_env \<Rightarrow> GandiProvider \<Rightarrow> ('n, 'z) world_scheme DnsProvider" where
  "gandi_provider E self =
     \<lparr>present = gandi_present E self, cleanup = gandi_cleanup E self,
      provider_timing = PropagationTiming_default\<rparr>"

lemma gandi_provider_simps [simp]:
  "present (gandi_provider E self) = gandi_present E self" "cleanup (gandi_provider E self) = gandi_cleanup E self"
  by (simp_all add: gandi_provider_def)

section \<open>The documented API\<close>

text \<open>
  \<open>rr n url\<close> are the presentation strings of the record set at a URL. Reading a record set gives its values,
  or 404 when it has none; \<open>PUT\<close> replaces them and \<open>DELETE\<close> removes them, on success. A request that
  fails, or whose answer is lost, may have been carried out.
\<close>

definition gandi_api :: "('r, 'n) gandi_env \<Rightarrow> ('n \<Rightarrow> bool) \<Rightarrow> ('n \<Rightarrow> string \<Rightarrow> string list) \<Rightarrow> bool" where
  "gandi_api E up rr \<longleftrightarrow> idles E up rr \<and>
     (\<forall>rq. rq_method rq = GET \<longrightarrow> reads E up rr rq (\<lambda>s resp.
        (rs_status resp = 404 \<longrightarrow> s (rq_url rq) = []) \<and>
        (is_success (rs_status resp) \<longrightarrow> (\<forall>b. gandi_json E (rs_body resp) = Inr b \<longrightarrow> rrset_values b = s (rq_url rq))))) \<and>
     (\<forall>rq b. rq_method rq = PUT \<longrightarrow> rq_body rq = Some b \<longrightarrow>
        writes E up rr rq (\<lambda>s s'. s' = s(rq_url rq := rrset_values b)) (\<lambda>resp. is_success (rs_status resp))) \<and>
     (\<forall>rq. rq_method rq = DELETE \<longrightarrow>
        writes E up rr rq (\<lambda>s s'. s' = s(rq_url rq := []))
          (\<lambda>resp. is_success (rs_status resp) \<or> rs_status resp = 404))"

text \<open>The record set a name stands for.\<close>

definition gandi_owner ::
  "('r, 'n) gandi_env \<Rightarrow> GandiProvider \<Rightarrow> (string \<Rightarrow> bool) \<Rightarrow> string \<Rightarrow> string option" where
  "gandi_owner E self soa f =
     owner (gandi_record_url E self) (zone_for self soa (to_ascii_lowercase f)) (to_ascii_lowercase f)"

lemma gandi_apiD:
  assumes "gandi_api E up rr"
  shows "idles E up rr"
    "rq_method rq = GET \<Longrightarrow> reads E up rr rq (\<lambda>s resp.
        (rs_status resp = 404 \<longrightarrow> s (rq_url rq) = []) \<and>
        (is_success (rs_status resp) \<longrightarrow> (\<forall>b. gandi_json E (rs_body resp) = Inr b \<longrightarrow> rrset_values b = s (rq_url rq))))"
    "rq_method rq = PUT \<Longrightarrow> rq_body rq = Some b \<Longrightarrow>
        writes E up rr rq (\<lambda>s s'. s' = s(rq_url rq := rrset_values b)) (\<lambda>resp. is_success (rs_status resp))"
    "rq_method rq = DELETE \<Longrightarrow> writes E up rr rq (\<lambda>s s'. s' = s(rq_url rq := []))
          (\<lambda>resp. is_success (rs_status resp) \<or> rs_status resp = 404)"
  using assms by (simp_all add: gandi_api_def)

lemma gandi_fetch:
  assumes "gandi_api E up rr"
  shows "observes (online up (\<lambda>_. True)) (\<lambda>w. rr (net w)) S (gandi_fetch_existing E self z rn)
    (\<lambda>s vs. vs = s (gandi_record_url E self z rn))"
  unfolding gandi_fetch_existing_def Let_def
  by (rule observes_attempt [OF observes_send [OF gandi_apiD(1,2) [OF assms]]]) (auto intro!: editing)

lemma gandi_put:
  assumes "gandi_api E up rr"
  shows "stores (online up (\<lambda>_. True)) (\<lambda>w. rr (net w)) (gandi_put_values E self z rn vs)
    (\<lambda>s s'. s' = s(gandi_record_url E self z rn := vs))"
proof -
  let ?rq = "\<lparr>rq_method = PUT, rq_url = gandi_record_url E self z rn, rq_query = [],
    rq_headers = [bearer (personal_access_token self)], rq_body = Some \<lparr>rrset_ttl = ttl self, rrset_values = vs\<rparr>\<rparr>"
  have "writes E up rr ?rq (\<lambda>s s'. s' = s(gandi_record_url E self z rn := vs)) (\<lambda>resp. is_success (rs_status resp))"
    using gandi_apiD(3) [OF assms, of ?rq] by simp
  then show ?thesis
    unfolding gandi_put_values_def Let_def
    by (rule stores_send [OF gandi_apiD(1) [OF assms]]) (auto split: if_splits)
qed

lemma gandi_delete:
  assumes "gandi_api E up rr"
  shows "stores (online up (\<lambda>_. True)) (\<lambda>w. rr (net w)) (gandi_delete_record E self z rn)
    (\<lambda>s s'. s' = s(gandi_record_url E self z rn := []))"
proof -
  let ?rq = "\<lparr>rq_method = DELETE, rq_url = gandi_record_url E self z rn, rq_query = [],
    rq_headers = [bearer (personal_access_token self)], rq_body = None\<rparr>"
  have "writes E up rr ?rq (\<lambda>s s'. s' = s(gandi_record_url E self z rn := []))
      (\<lambda>resp. is_success (rs_status resp) \<or> rs_status resp = 404)"
    using gandi_apiD(4) [OF assms, of ?rq] by simp
  then show ?thesis
    unfolding gandi_delete_record_def Let_def
    by (rule stores_send [OF gandi_apiD(1) [OF assms]]) (auto split: if_splits)
qed

lemmas gandi_calls = observes_zone_for gandi_fetch gandi_put gandi_delete

lemma gandi_present_edits:
  assumes "gandi_api E up rr" "quiet_dns (api_dns E) up rr soa"
  shows "edits (online up (\<lambda>_. True)) (\<lambda>w. rr (net w)) rr_values (\<lambda>_. True) (gandi_owner E self soa f) v True
    (gandi_present E self f v)"
  unfolding gandi_present_def gandi_owner_def gandi_resolve_zone_def Let_def
  by (intro editing edits_in_zone add_to_rrset gandi_calls assms) (simp_all add: validate_fqdn_lower)

lemma gandi_cleanup_edits:
  assumes "gandi_api E up rr" "quiet_dns (api_dns E) up rr soa"
  shows "edits (online up (\<lambda>_. True)) (\<lambda>w. rr (net w)) rr_values (\<lambda>_. True) (gandi_owner E self soa f) v False
    (gandi_cleanup E self f v)"
  unfolding gandi_cleanup_def gandi_owner_def gandi_resolve_zone_def Let_def [of "to_ascii_lowercase f"]
  by (intro editing edits_in_zone drop_from_rrset gandi_calls assms) (simp_all add: validate_fqdn_lower)

text \<open>C11: the Gandi provider keeps the provider contract on any server with the documented behaviour and
  any resolver with stable answers.\<close>

theorem gandi_contract:
  assumes "gandi_api E up rr" "quiet_dns (api_dns E) up rr soa"
  shows "dns_provider (gandi_provider E self) (\<lambda>w. rr_values (rr (net w))) (gandi_owner E self soa) (online up (\<lambda>_. True))"
  by (rule dns_providerI [where st = "\<lambda>w. rr (net w)" and T = rr_values])
    (simp_all add: gandi_present_edits [OF assms] gandi_cleanup_edits [OF assms])

section \<open>A server\<close>

definition gandi_server ::
  "TxtRecordBody request \<Rightarrow> (string \<Rightarrow> string list) \<Rightarrow> (reqwest_error + TxtRecordBody response) \<times> (string \<Rightarrow> string list)" where
  "gandi_server rq n =
     (let u = rq_url rq in
      case (rq_method rq, rq_body rq) of
        (PUT, Some b) \<Rightarrow> (answer 201 b, n(u := rrset_values b))
      | (DELETE, _) \<Rightarrow> (answer 204 \<lparr>rrset_ttl = 0, rrset_values = []\<rparr>, n(u := []))
      | _ \<Rightarrow> (answer (if n u = [] then 404 else 200) \<lparr>rrset_ttl = 300, rrset_values = n u\<rparr>, n))"

definition demo_gandi :: "(TxtRecordBody, string \<Rightarrow> string list) gandi_env" where
  "demo_gandi = api_around gandi_server (\<lambda>c. c = ''a.org'') (gandi_env.fields Inr)"

lemma demo_gandi_api: "gandi_api demo_gandi (\<lambda>_. True) (\<lambda>n. n)"
  by (auto simp: gandi_api_def demo_gandi_def idles_def reads_def writes_def gandi_server_def answer_def is_success_def
      api_around_def gandi_env.defs Let_def split: http_method.splits option.splits if_splits)

definition demo_gandi_provider :: GandiProvider where
  "demo_gandi_provider = \<lparr>api_base = ''api'', zone_override = None, ttl = 300, cfg_timeout = 1, personal_access_token = ''t''\<rparr>"

definition demo_gandi_world :: "(string \<Rightarrow> string list) world" where
  "demo_gandi_world = \<lparr>RESOLVER = None, net = (\<lambda>_. [quote_txt ''other''])\<rparr>"

lemma demo_gandi_run:
  "fst (gandi_present demo_gandi demo_gandi_provider ''_acme-challenge.A.org'' ''v'' demo_gandi_world) = Inr ()"
  "fst (gandi_cleanup demo_gandi demo_gandi_provider ''_acme-challenge.A.org'' ''v''
     (snd (gandi_present demo_gandi demo_gandi_provider ''_acme-challenge.A.org'' ''v'' demo_gandi_world))) = Inr ()"
  by code_simp+

theorem gandi_contract_witness:
  "\<exists>w1 w2. present (gandi_provider demo_gandi demo_gandi_provider) ''_acme-challenge.A.org'' ''v'' demo_gandi_world = (Inr (), w1)
     \<and> ''v'' \<in> rr_values (net w1) (gandi_owner demo_gandi demo_gandi_provider (\<lambda>c. c = ''a.org'') ''_acme-challenge.A.org'')
     \<and> cleanup (gandi_provider demo_gandi demo_gandi_provider) ''_acme-challenge.A.org'' ''v'' w1 = (Inr (), w2)
     \<and> rr_values (net w2) = rr_values (net demo_gandi_world)"
proof -
  have "quiet_dns (api_dns demo_gandi) (\<lambda>_. True) (\<lambda>n. n) (\<lambda>c. c = ''a.org'')"
    by (simp add: demo_gandi_def quiet_still_dns)
  note contract = gandi_contract [OF demo_gandi_api this]
  have "''v'' \<notin> rr_values (net demo_gandi_world) k" for k
    by (auto simp: rr_values_def demo_gandi_world_def split: option.splits)
  then show ?thesis
    by (intro dns_provider.round_trip [OF contract]) (simp_all add: demo_gandi_run online_def)
qed

end
