(* ===== verification/Scaleway.thy ===== *)
theory Scaleway
  imports Provider_Kit Provider_Config
begin

text \<open>
  The Scaleway provider (\<open>providers/scaleway.rs\<close>): the records of a name are listed in one page and
  replaced or deleted by a change request on the zone.
\<close>

section \<open>Configuration\<close>

definition SCW_API_BASE :: string where
  "SCW_API_BASE = ''https://api.scaleway.com''"

definition SCW_ENV_SECRET_KEY :: string where
  "SCW_ENV_SECRET_KEY = ''SCW_SECRET_KEY''"

definition SCW_DEFAULT_TTL :: nat where
  "SCW_DEFAULT_TTL = 300"

definition SCW_PROVIDER :: string where
  "SCW_PROVIDER = ''scaleway''"

record IdFields =
  id_name :: string
  id_type :: string

record RecordSpec =
  spec_name :: string
  spec_type :: string
  spec_data :: string
  spec_ttl :: nat

record SetChange =
  id_fields :: IdFields
  set_records :: "RecordSpec list"

datatype Change = Set_Change SetChange | Delete_Change IdFields

record ChangeRequest =
  changes :: "Change list"
  return_all_records :: bool

record scw_record =
  scw_type :: string
  scw_data :: string

record RecordsResponse =
  scw_records :: "scw_record list"

record ('r, 'n) scw_env = "(ChangeRequest, 'r, 'n) api_env" +
  scw_json :: "'r \<Rightarrow> reqwest_error + RecordsResponse"

record ScalewayConfig = api_config +
  secret_key :: string

type_synonym ScalewayProvider = ScalewayConfig

definition ScalewayConfig_new :: "string \<Rightarrow> ScalewayConfig" where
  "ScalewayConfig_new secret =
     \<lparr>api_base = SCW_API_BASE, zone_override = None, ttl = SCW_DEFAULT_TTL, cfg_timeout = HTTP_TIMEOUT,
      secret_key = secret\<rparr>"

definition scw_with_api_base :: "('r, 'n) scw_env \<Rightarrow> string \<Rightarrow> ScalewayConfig \<Rightarrow> ScalewayConfig result" where
  "scw_with_api_base E base config = set_api_base E SCW_PROVIDER base config"

definition scw_with_zone :: "string \<Rightarrow> ScalewayConfig \<Rightarrow> ScalewayConfig result" where
  "scw_with_zone zone config = set_zone zone config"

definition scw_with_ttl :: "nat \<Rightarrow> ScalewayConfig \<Rightarrow> ScalewayConfig result" where
  "scw_with_ttl t config = and_then (validate_ttl t) (\<lambda>t. Inr (config\<lparr>ttl := t\<rparr>))"

definition scw_with_timeout :: "duration \<Rightarrow> ScalewayConfig \<Rightarrow> ScalewayConfig" where
  "scw_with_timeout t config = config\<lparr>cfg_timeout := t\<rparr>"

interpretation scw_config: config_builder "url_parse E" SCW_PROVIDER "0" "MAX_TTL" "ScalewayConfig_new t" "scw_with_api_base E"
  scw_with_zone scw_with_ttl scw_with_timeout for E :: "('r, 'n) scw_env" and t
  by unfold_locales
    (auto simp: scw_with_api_base_def scw_with_zone_def scw_with_ttl_def scw_with_timeout_def ScalewayConfig_new_def SCW_DEFAULT_TTL_def builder_simps)

definition ScalewayProvider_new :: "('r, 'n) scw_env \<Rightarrow> ScalewayConfig \<Rightarrow> ScalewayProvider result" where
  "ScalewayProvider_new E config =
     and_then (build_client E (cfg_timeout config) CONNECT_TIMEOUT) (\<lambda>_. Inr config)"

definition scw_from_env :: "('r, 'n) scw_env \<Rightarrow> ScalewayProvider result" where
  "scw_from_env E =
     and_then (required_var E SCW_ENV_SECRET_KEY) (\<lambda>key. ScalewayProvider_new E (ScalewayConfig_new key))"

section \<open>The API calls\<close>

definition scw_records_path :: "('r, 'n) scw_env \<Rightarrow> string \<Rightarrow> string" where
  "scw_records_path E zone = ''/domain/v2beta1/dns-zones/'' @ encode_path E zone @ ''/records''"

definition scw_records_url :: "('r, 'n) scw_env \<Rightarrow> ScalewayProvider \<Rightarrow> string \<Rightarrow> string" where
  "scw_records_url E self zone =
     api_base self @ ''/domain/v2beta1/dns-zones/'' @ encode_path E zone @ ''/records''"

definition scw_fetch_existing ::
  "('r, 'n) scw_env \<Rightarrow> ScalewayProvider \<Rightarrow> string \<Rightarrow> string \<Rightarrow> (('n, 'z) world_scheme, string list) io" where
  "scw_fetch_existing E self zone rname =
     (let url = scw_records_url E self zone in
      attempt (send E \<lparr>rq_method = GET, rq_url = url,
         rq_query = [(''name'', rname), (''type'', ''TXT''), (''page_size'', ''100'')],
         rq_headers = [(''X-Auth-Token'', secret_key self)], rq_body = None\<rparr>) (\<lambda>response.
      let status = rs_status response in
      if status = 404 then done_ok []
      else if \<not> is_success status
      then fail_with (api_error E SCW_PROVIDER ''GET'' (scw_records_path E zone) status response)
      else attempt (read_json (scw_json E) response) (\<lambda>body.
        done_ok (map scw_data (filter (\<lambda>r. scw_type r = ''TXT'') (scw_records body))))))"

definition scw_patch ::
  "ScalewayProvider \<Rightarrow> string \<Rightarrow> ChangeRequest \<Rightarrow> ChangeRequest request" where
  "scw_patch self url body =
     \<lparr>rq_method = PATCH, rq_url = url, rq_query = [], rq_headers = [(''X-Auth-Token'', secret_key self)],
      rq_body = Some body\<rparr>"

definition scw_apply_set ::
  "('r, 'n) scw_env \<Rightarrow> ScalewayProvider \<Rightarrow> string \<Rightarrow> string \<Rightarrow> string list \<Rightarrow> (('n, 'z) world_scheme, unit) io" where
  "scw_apply_set E self zone rname vs =
     (let url = scw_records_url E self zone;
          id = \<lparr>id_name = rname, id_type = ''TXT''\<rparr>;
          records = map (\<lambda>v. \<lparr>spec_name = id_name id, spec_type = id_type id, spec_data = v, spec_ttl = ttl self\<rparr>) vs;
          body = \<lparr>changes = [Set_Change \<lparr>id_fields = id, set_records = records\<rparr>], return_all_records = False\<rparr> in
      attempt (send E (scw_patch self url body)) (\<lambda>response.
      let status = rs_status response in
      if \<not> is_success status
      then fail_with (api_error E SCW_PROVIDER ''PATCH'' (scw_records_path E zone) status response)
      else done_ok ()))"

definition scw_apply_delete ::
  "('r, 'n) scw_env \<Rightarrow> ScalewayProvider \<Rightarrow> string \<Rightarrow> string \<Rightarrow> (('n, 'z) world_scheme, unit) io" where
  "scw_apply_delete E self zone rname =
     (let url = scw_records_url E self zone;
          body = \<lparr>changes = [Delete_Change \<lparr>id_name = rname, id_type = ''TXT''\<rparr>], return_all_records = False\<rparr> in
      attempt (send E (scw_patch self url body)) (\<lambda>response.
      let status = rs_status response in
      if \<not> is_success status \<and> status \<noteq> 404
      then fail_with (api_error E SCW_PROVIDER ''PATCH'' (scw_records_path E zone) status response)
      else done_ok ()))"

definition scw_resolve_zone ::
  "('r, 'n) scw_env \<Rightarrow> ScalewayProvider \<Rightarrow> string \<Rightarrow> (('n, 'z) world_scheme, string) io" where
  "scw_resolve_zone E self fqdn =
     (case zone_override self of
        Some z \<Rightarrow> done_ok z
      | None \<Rightarrow>
          attempt (find_zone (api_dns E) fqdn) (\<lambda>zone.
          attempt (from_result (validate_fqdn zone)) (\<lambda>_.
          done_ok zone)))"

section \<open>The provider\<close>

definition scw_present ::
  "('r, 'n) scw_env \<Rightarrow> ScalewayProvider \<Rightarrow> string \<Rightarrow> string \<Rightarrow> (('n, 'z) world_scheme, unit) io" where
  "scw_present E self fqdn v =
     attempt (from_result (validate_fqdn fqdn)) (\<lambda>_.
     let fqdn = to_ascii_lowercase fqdn in
     attempt (from_result (validate_acme_value v)) (\<lambda>_.
     attempt (scw_resolve_zone E self fqdn) (\<lambda>zone.
     attempt (from_result (relative_name fqdn zone)) (\<lambda>rname.
     with_lock SCW_PROVIDER (zone @ ''|'' @ rname) (
     attempt (scw_fetch_existing E self zone rname) (\<lambda>vs.
     if list_ex (\<lambda>u. unquote u = v) vs then done_ok ()
     else scw_apply_set E self zone rname (vs @ [quote_txt v])))))))"

definition scw_cleanup ::
  "('r, 'n) scw_env \<Rightarrow> ScalewayProvider \<Rightarrow> string \<Rightarrow> string \<Rightarrow> (('n, 'z) world_scheme, unit) io" where
  "scw_cleanup E self fqdn v =
     attempt (from_result (validate_fqdn fqdn)) (\<lambda>_.
     let fqdn = to_ascii_lowercase fqdn in
     attempt (scw_resolve_zone E self fqdn) (\<lambda>zone.
     attempt (from_result (relative_name fqdn zone)) (\<lambda>rname.
     with_lock SCW_PROVIDER (zone @ ''|'' @ rname) (
     attempt (scw_fetch_existing E self zone rname) (\<lambda>vs.
     let remaining = filter (\<lambda>u. unquote u \<noteq> v) vs in
     if length remaining = length vs then done_ok ()
     else if remaining = [] then scw_apply_delete E self zone rname
     else scw_apply_set E self zone rname remaining)))))"

definition scw_provider :: "('r, 'n) scw_env \<Rightarrow> ScalewayProvider \<Rightarrow> ('n, 'z) world_scheme DnsProvider" where
  "scw_provider E self =
     \<lparr>present = scw_present E self, cleanup = scw_cleanup E self, provider_timing = PropagationTiming_default\<rparr>"

lemma scw_provider_simps [simp]:
  "present (scw_provider E self) = scw_present E self" "cleanup (scw_provider E self) = scw_cleanup E self"
  by (simp_all add: scw_provider_def)

section \<open>The documented API\<close>











section \<open>A server\<close>








end
