(* ===== verification/Desec.thy ===== *)
theory Desec
  imports Provider_Kit Provider_Config
begin

text \<open>
  The deSEC provider (\<open>providers/desec.rs\<close>): zones come from the account's domains, and a record set is
  replaced by a bulk \<open>PATCH\<close> of the zone.
\<close>

section \<open>Configuration\<close>

definition DESEC_API_BASE :: string where
  "DESEC_API_BASE = ''https://desec.io/api/v1''"

definition DESEC_ENV_TOKEN :: string where
  "DESEC_ENV_TOKEN = ''DESEC_TOKEN''"

definition DESEC_DEFAULT_TTL :: nat where
  "DESEC_DEFAULT_TTL = 3600"

definition DESEC_PROVIDER :: string where
  "DESEC_PROVIDER = ''desec''"

record DesecDomain =
  domain_name :: string
  minimum_ttl :: "nat option"

record DesecRrset =
  desec_records :: "string list"

record DesecRrsetWrite =
  subname :: string
  rrset_type :: string
  write_ttl :: nat
  write_records :: "string list"

record ResolvedZone =
  zone_name :: string
  zone_ttl :: nat

record ('r, 'n) desec_env = "(DesecRrsetWrite list, 'r, 'n) api_env" +
  desec_domains_json :: "'r \<Rightarrow> reqwest_error + DesecDomain list"
  desec_domain_json :: "'r \<Rightarrow> reqwest_error + DesecDomain"
  desec_rrset_json :: "'r \<Rightarrow> reqwest_error + DesecRrset"

record DesecConfig = api_config +
  desec_token :: string

type_synonym DesecProvider = DesecConfig

definition DesecConfig_new :: "string \<Rightarrow> DesecConfig" where
  "DesecConfig_new secret =
     \<lparr>api_base = DESEC_API_BASE, zone_override = None, ttl = DESEC_DEFAULT_TTL, cfg_timeout = HTTP_TIMEOUT,
      desec_token = secret\<rparr>"

definition desec_with_api_base :: "('r, 'n) desec_env \<Rightarrow> string \<Rightarrow> DesecConfig \<Rightarrow> DesecConfig result" where
  "desec_with_api_base E base config = set_api_base E DESEC_PROVIDER base config"

definition desec_with_zone :: "string \<Rightarrow> DesecConfig \<Rightarrow> DesecConfig result" where
  "desec_with_zone zone config = set_zone zone config"

definition desec_with_ttl :: "nat \<Rightarrow> DesecConfig \<Rightarrow> DesecConfig result" where
  "desec_with_ttl t config = set_ttl 0 86400 t config"

definition desec_with_timeout :: "duration \<Rightarrow> DesecConfig \<Rightarrow> DesecConfig" where
  "desec_with_timeout t config = config\<lparr>cfg_timeout := t\<rparr>"

interpretation desec_config: config_builder "url_parse E" DESEC_PROVIDER "0" "86400" "DesecConfig_new t" "desec_with_api_base E"
  desec_with_zone desec_with_ttl desec_with_timeout for E :: "('r, 'n) desec_env" and t
  by unfold_locales
    (auto simp: desec_with_api_base_def desec_with_zone_def desec_with_ttl_def desec_with_timeout_def DesecConfig_new_def DESEC_DEFAULT_TTL_def builder_simps)

definition DesecProvider_new :: "('r, 'n) desec_env \<Rightarrow> DesecConfig \<Rightarrow> DesecProvider result" where
  "DesecProvider_new E config =
     and_then (build_client E (cfg_timeout config) CONNECT_TIMEOUT) (\<lambda>_. Inr config)"

definition desec_from_env :: "('r, 'n) desec_env \<Rightarrow> DesecProvider result" where
  "desec_from_env E =
     and_then (required_var E DESEC_ENV_TOKEN) (\<lambda>secret. DesecProvider_new E (DesecConfig_new secret))"

section \<open>The API calls\<close>

definition desec_auth_header :: "DesecProvider \<Rightarrow> string \<times> string" where
  "desec_auth_header self = (''authorization'', ''Token '' @ desec_token self)"

definition desec_rrsets_url :: "('r, 'n) desec_env \<Rightarrow> DesecProvider \<Rightarrow> string \<Rightarrow> string" where
  "desec_rrsets_url E self zone = api_base self @ ''/domains/'' @ encode_path E zone @ ''/rrsets/''"

definition desec_rrset_url :: "('r, 'n) desec_env \<Rightarrow> DesecProvider \<Rightarrow> string \<Rightarrow> string \<Rightarrow> string" where
  "desec_rrset_url E self zone rname =
     api_base self @ ''/domains/'' @ encode_path E zone @ ''/rrsets/'' @ encode_path E rname @ ''/TXT/''"

definition desec_rrset_path :: "('r, 'n) desec_env \<Rightarrow> string \<Rightarrow> string \<Rightarrow> string" where
  "desec_rrset_path E zone rname =
     ''/domains/'' @ encode_path E zone @ ''/rrsets/'' @ encode_path E rname @ ''/TXT/''"

definition desec_check_error ::
  "('r, 'n) desec_env \<Rightarrow> string \<Rightarrow> string \<Rightarrow> nat \<Rightarrow> 'r response \<Rightarrow> DnsError" where
  "desec_check_error E meth path status response =
     (if status = 429
      then
        (let hint = (case rs_header response ''retry-after'' of
               Some secs \<Rightarrow> ''retry after '' @ secs @ ''s'' | None \<Rightarrow> ''retry later'') in
         Api (DESEC_PROVIDER @ '' '' @ meth @ '' '' @ path @ '' was rate limited (429), '' @ hint))
      else api_error E DESEC_PROVIDER meth path status response)"

definition into_resolved :: "DesecDomain \<Rightarrow> nat \<Rightarrow> ResolvedZone" where
  "into_resolved d t =
     \<lparr>zone_name = domain_name d,
      zone_ttl = max t (case minimum_ttl d of None \<Rightarrow> DESEC_DEFAULT_TTL | Some m \<Rightarrow> m)\<rparr>"

definition desec_get :: "DesecProvider \<Rightarrow> string \<Rightarrow> (string \<times> string) list \<Rightarrow> DesecRrsetWrite list request" where
  "desec_get self url query =
     \<lparr>rq_method = GET, rq_url = url, rq_query = query, rq_headers = [desec_auth_header self], rq_body = None\<rparr>"

definition desec_fetch_domain ::
  "('r, 'n) desec_env \<Rightarrow> DesecProvider \<Rightarrow> string \<Rightarrow> (('n, 'z) world_scheme, ResolvedZone) io" where
  "desec_fetch_domain E self zone =
     (let path = ''/domains/'' @ encode_path E zone @ ''/'' in
      attempt (send E (desec_get self (api_base self @ path) [])) (\<lambda>response.
      let status = rs_status response in
      if status = 404 then fail_with (ZoneNotFound zone)
      else if \<not> is_success status then fail_with (desec_check_error E ''GET'' path status response)
      else attempt (read_json (desec_domain_json E) response) (\<lambda>d. done_ok (into_resolved d (ttl self)))))"

definition desec_resolve_zone ::
  "('r, 'n) desec_env \<Rightarrow> DesecProvider \<Rightarrow> string \<Rightarrow> (('n, 'z) world_scheme, ResolvedZone) io" where
  "desec_resolve_zone E self fqdn =
     (case zone_override self of
        Some zone \<Rightarrow> desec_fetch_domain E self zone
      | None \<Rightarrow>
          (let qname = trim_end_matches DOT fqdn; url = api_base self @ ''/domains/'' in
           attempt (send E (desec_get self url [(''owns_qname'', qname)])) (\<lambda>response.
           let status = rs_status response in
           if \<not> is_success status then fail_with (desec_check_error E ''GET'' ''/domains/'' status response)
           else
             attempt (read_json (desec_domains_json E) response) (\<lambda>domains.
             attempt (from_result (ok_or (ZoneNotFound fqdn) (case domains of [] \<Rightarrow> None | d # _ \<Rightarrow> Some d))) (\<lambda>d.
             attempt (from_result (validate_zone (domain_name d))) (\<lambda>_.
             done_ok (into_resolved d (ttl self))))))))"

definition desec_fetch_existing ::
  "('r, 'n) desec_env \<Rightarrow> DesecProvider \<Rightarrow> string \<Rightarrow> string \<Rightarrow> (('n, 'z) world_scheme, string list) io" where
  "desec_fetch_existing E self zone rname =
     attempt (send E (desec_get self (desec_rrset_url E self zone rname) [])) (\<lambda>response.
     let status = rs_status response in
     if status = 404 then done_ok []
     else if \<not> is_success status
     then fail_with (desec_check_error E ''GET'' (desec_rrset_path E zone rname) status response)
     else attempt (read_json (desec_rrset_json E) response) (\<lambda>body. done_ok (map unquote (desec_records body))))"

definition desec_write_values ::
  "('r, 'n) desec_env \<Rightarrow> DesecProvider \<Rightarrow> string \<Rightarrow> string \<Rightarrow> nat \<Rightarrow> string list \<Rightarrow> (('n, 'z) world_scheme, unit) io" where
  "desec_write_values E self zone rname t vs =
     (let sub = (if rname = ''@'' then [] else rname);
          body = [\<lparr>subname = sub, rrset_type = ''TXT'', write_ttl = t, write_records = map quote_txt vs\<rparr>] in
      attempt (send E \<lparr>rq_method = PATCH, rq_url = desec_rrsets_url E self zone, rq_query = [],
         rq_headers = [desec_auth_header self], rq_body = Some body\<rparr>) (\<lambda>response.
      let status = rs_status response in
      if \<not> is_success status
      then fail_with (desec_check_error E ''PATCH'' (''/domains/'' @ encode_path E zone @ ''/rrsets/'') status response)
      else done_ok ()))"

section \<open>The provider\<close>

definition desec_present ::
  "('r, 'n) desec_env \<Rightarrow> DesecProvider \<Rightarrow> string \<Rightarrow> string \<Rightarrow> (('n, 'z) world_scheme, unit) io" where
  "desec_present E self fqdn v =
     attempt (from_result (validate_fqdn fqdn)) (\<lambda>_.
     let fqdn = to_ascii_lowercase fqdn in
     attempt (from_result (validate_acme_value v)) (\<lambda>_.
     attempt (desec_resolve_zone E self fqdn) (\<lambda>zone.
     attempt (from_result (relative_name fqdn (zone_name zone))) (\<lambda>rname.
     with_lock DESEC_PROVIDER (zone_name zone @ ''|'' @ rname) (
     attempt (desec_fetch_existing E self (zone_name zone) rname) (\<lambda>vs.
     if v \<in> set vs then done_ok ()
     else desec_write_values E self (zone_name zone) rname (zone_ttl zone) (vs @ [v])))))))"

definition desec_cleanup ::
  "('r, 'n) desec_env \<Rightarrow> DesecProvider \<Rightarrow> string \<Rightarrow> string \<Rightarrow> (('n, 'z) world_scheme, unit) io" where
  "desec_cleanup E self fqdn v =
     attempt (from_result (validate_fqdn fqdn)) (\<lambda>_.
     let fqdn = to_ascii_lowercase fqdn in
     attempt (desec_resolve_zone E self fqdn) (\<lambda>zone.
     attempt (from_result (relative_name fqdn (zone_name zone))) (\<lambda>rname.
     with_lock DESEC_PROVIDER (zone_name zone @ ''|'' @ rname) (
     attempt (desec_fetch_existing E self (zone_name zone) rname) (\<lambda>vs.
     if \<not> list_ex (\<lambda>u. u = v) vs then done_ok ()
     else
       let remaining = filter (\<lambda>u. u \<noteq> v) vs in
       desec_write_values E self (zone_name zone) rname (zone_ttl zone) remaining)))))"

definition desec_provider :: "('r, 'n) desec_env \<Rightarrow> DesecProvider \<Rightarrow> ('n, 'z) world_scheme DnsProvider" where
  "desec_provider E self =
     \<lparr>present = desec_present E self, cleanup = desec_cleanup E self, provider_timing = PropagationTiming_default\<rparr>"

lemma desec_provider_simps [simp]:
  "present (desec_provider E self) = desec_present E self" "cleanup (desec_provider E self) = desec_cleanup E self"
  by (simp_all add: desec_provider_def)

section \<open>The documented API\<close>

text \<open>
  \<open>owns q\<close> is the domain of the account that owns a name, and \<open>rr n (zone, name)\<close> are the presentation strings
  of a TXT record set, with \<open>@\<close> for the apex. A \<open>PATCH\<close> of the zone replaces a record set, where the apex is
  the empty subname; no records delete it.
\<close>

definition desec_zone :: "DesecProvider \<Rightarrow> (string \<Rightarrow> string option) \<Rightarrow> string \<Rightarrow> string option" where
  "desec_zone self owns f =
     (case zone_override self of Some z \<Rightarrow> Some z | None \<Rightarrow> owns (trim_end_matches DOT f))"

definition desec_api ::
  "('r, 'n) desec_env \<Rightarrow> DesecProvider \<Rightarrow> (string \<Rightarrow> string option) \<Rightarrow> ('n \<Rightarrow> bool) \<Rightarrow>
   ('n \<Rightarrow> string \<times> string \<Rightarrow> string list) \<Rightarrow> bool" where
  "desec_api E self owns up rr \<longleftrightarrow> idles E up rr \<and>
     (\<forall>q. reads E up rr (desec_get self (api_base self @ ''/domains/'') [(''owns_qname'', q)]) (\<lambda>s resp.
        is_success (rs_status resp) \<longrightarrow> (\<forall>d ds. desec_domains_json E (rs_body resp) = Inr (d # ds) \<longrightarrow>
          owns q = Some (domain_name d)))) \<and>
     (\<forall>z. reads E up rr (desec_get self (api_base self @ ''/domains/'' @ encode_path E z @ ''/'') []) (\<lambda>s resp.
        is_success (rs_status resp) \<longrightarrow> (\<forall>d. desec_domain_json E (rs_body resp) = Inr d \<longrightarrow> domain_name d = z))) \<and>
     (\<forall>f z r. desec_zone self owns f = Some z \<longrightarrow> reads E up rr (desec_get self (desec_rrset_url E self z r) []) (\<lambda>s resp.
        (rs_status resp = 404 \<longrightarrow> s (z, r) = []) \<and>
        (is_success (rs_status resp) \<longrightarrow> (\<forall>b. desec_rrset_json E (rs_body resp) = Inr b \<longrightarrow> desec_records b = s (z, r))))) \<and>
     (\<forall>f z rq b. desec_zone self owns f = Some z \<longrightarrow> rq_method rq = PATCH \<longrightarrow> rq_url rq = desec_rrsets_url E self z \<longrightarrow>
        rq_body rq = Some [b] \<longrightarrow> rrset_type b = ''TXT'' \<longrightarrow>
        writes E up rr rq (\<lambda>s s'. s' = s((z, if subname b = [] then ''@'' else subname b) := write_records b))
          (\<lambda>resp. is_success (rs_status resp)))"

definition desec_owner :: "DesecProvider \<Rightarrow> (string \<Rightarrow> string option) \<Rightarrow> string \<Rightarrow> (string \<times> string) option" where
  "desec_owner self owns f = owner Pair (desec_zone self owns (to_ascii_lowercase f)) (to_ascii_lowercase f)"

lemma desec_apiD:
  assumes "desec_api E self owns up rr"
  shows "idles E up rr"
    "reads E up rr (desec_get self (api_base self @ ''/domains/'') [(''owns_qname'', q)]) (\<lambda>s resp.
        is_success (rs_status resp) \<longrightarrow> (\<forall>d ds. desec_domains_json E (rs_body resp) = Inr (d # ds) \<longrightarrow>
          owns q = Some (domain_name d)))"
    "reads E up rr (desec_get self (api_base self @ ''/domains/'' @ encode_path E z @ ''/'') []) (\<lambda>s resp.
        is_success (rs_status resp) \<longrightarrow> (\<forall>d. desec_domain_json E (rs_body resp) = Inr d \<longrightarrow> domain_name d = z))"
    "desec_zone self owns f = Some z \<Longrightarrow> reads E up rr (desec_get self (desec_rrset_url E self z r) []) (\<lambda>s resp.
        (rs_status resp = 404 \<longrightarrow> s (z, r) = []) \<and>
        (is_success (rs_status resp) \<longrightarrow> (\<forall>b. desec_rrset_json E (rs_body resp) = Inr b \<longrightarrow> desec_records b = s (z, r))))"
    "desec_zone self owns f = Some z \<Longrightarrow> rq_method rq = PATCH \<Longrightarrow> rq_url rq = desec_rrsets_url E self z \<Longrightarrow>
        rq_body rq = Some [b] \<Longrightarrow> rrset_type b = ''TXT'' \<Longrightarrow>
        writes E up rr rq (\<lambda>s s'. s' = s((z, if subname b = [] then ''@'' else subname b) := write_records b))
          (\<lambda>resp. is_success (rs_status resp))"
  using assms unfolding desec_api_def by blast+

lemma desec_resolve:
  assumes "desec_api E self owns up rr"
  shows "observes (online up (\<lambda>_. True)) (\<lambda>w. rr (net w)) S (desec_resolve_zone E self f)
    (\<lambda>_ x. desec_zone self owns f = Some (zone_name x))"
proof (cases "zone_override self")
  case None
  show ?thesis
    unfolding desec_resolve_zone_def Let_def None option.case
    by (rule observes_attempt [OF observes_send [OF desec_apiD(1,2) [OF assms]]])
      (auto simp: desec_zone_def None into_resolved_def intro!: editing split: list.splits)
next
  case (Some z)
  show ?thesis
    unfolding desec_resolve_zone_def desec_fetch_domain_def Let_def Some option.case
    by (rule observes_attempt [OF observes_send [OF desec_apiD(1,3) [OF assms]]])
      (auto simp: desec_zone_def Some into_resolved_def intro!: editing)
qed

lemma desec_fetch:
  assumes "desec_api E self owns up rr" "desec_zone self owns f = Some z"
  shows "observes (online up (\<lambda>_. True)) (\<lambda>w. rr (net w)) S (desec_fetch_existing E self z rn)
    (\<lambda>s vs. vs = map unquote (s (z, rn)))"
  unfolding desec_fetch_existing_def Let_def
  by (rule observes_attempt [OF observes_send [OF desec_apiD(1) [OF assms(1)] desec_apiD(4) [OF assms]]])
    (auto intro!: editing)

lemma desec_write:
  assumes "desec_api E self owns up rr" "desec_zone self owns f = Some z" "rn \<noteq> []"
  shows "stores (online up (\<lambda>_. True)) (\<lambda>w. rr (net w)) (desec_write_values E self z rn t vs)
    (\<lambda>s s'. s' = s((z, rn) := map quote_txt vs))"
proof -
  let ?b = "\<lparr>subname = (if rn = ''@'' then [] else rn), rrset_type = ''TXT'', write_ttl = t, write_records = map quote_txt vs\<rparr>"
  let ?rq = "\<lparr>rq_method = PATCH, rq_url = desec_rrsets_url E self z, rq_query = [],
    rq_headers = [desec_auth_header self], rq_body = Some [?b]\<rparr>"
  have "writes E up rr ?rq (\<lambda>s s'. s' = s((z, rn) := map quote_txt vs)) (\<lambda>resp. is_success (rs_status resp))"
    using desec_apiD(5) [OF assms(1,2), of ?rq ?b] assms(3) by (simp split: if_splits)
  then show ?thesis
    unfolding desec_write_values_def Let_def
    by (rule stores_send [OF desec_apiD(1) [OF assms(1)]]) (auto split: if_splits)
qed

lemma desec_present_edits:
  assumes "desec_api E self owns up rr"
  shows "edits (online up (\<lambda>_. True)) (\<lambda>w. rr (net w)) rr_values (\<lambda>_. True) (desec_owner self owns f) v True
    (desec_present E self f v)"
  unfolding desec_present_def desec_owner_def Let_def
proof (intro editing edits_in_zone_by desec_resolve assms)
  fix u zone rn
  assume zone: "desec_zone self owns (to_ascii_lowercase f) = Some (zone_name zone)"
    and rn: "relative_name (to_ascii_lowercase f) (zone_name zone) = Inr rn" and f: "validate_fqdn f = Inr u"
  have ne: "rn \<noteq> []" using relative_name_nonempty [OF validate_fqdn_lower rn] f by simp
  show "edits (online up (\<lambda>_. True)) (\<lambda>w. rr (net w)) rr_values (\<lambda>_. True) (Some (zone_name zone, rn)) v True
      (attempt (desec_fetch_existing E self (zone_name zone) rn) (\<lambda>vs.
       if v \<in> set vs then done_ok () else desec_write_values E self (zone_name zone) rn (zone_ttl zone) (vs @ [v])))"
    by (rule edits_attempt [OF desec_fetch [OF assms zone]], intro edits_if edits_pure edits_store [OF desec_write [OF assms zone ne]])
      (auto simp: rr_values_def same_except_def image_image split: option.splits)
qed

lemma desec_cleanup_edits:
  assumes "desec_api E self owns up rr"
  shows "edits (online up (\<lambda>_. True)) (\<lambda>w. rr (net w)) rr_values (\<lambda>_. True) (desec_owner self owns f) v False
    (desec_cleanup E self f v)"
  unfolding desec_cleanup_def desec_owner_def Let_def
proof (intro editing edits_in_zone_by desec_resolve assms)
  fix u zone rn
  assume zone: "desec_zone self owns (to_ascii_lowercase f) = Some (zone_name zone)"
    and rn: "relative_name (to_ascii_lowercase f) (zone_name zone) = Inr rn" and f: "validate_fqdn f = Inr u"
  have ne: "rn \<noteq> []" using relative_name_nonempty [OF validate_fqdn_lower rn] f by simp
  show "edits (online up (\<lambda>_. True)) (\<lambda>w. rr (net w)) rr_values (\<lambda>_. True) (Some (zone_name zone, rn)) v False
      (attempt (desec_fetch_existing E self (zone_name zone) rn) (\<lambda>vs.
       if \<not> list_ex (\<lambda>u. u = v) vs then done_ok ()
       else desec_write_values E self (zone_name zone) rn (zone_ttl zone) (filter (\<lambda>u. u \<noteq> v) vs)))"
    by (rule edits_attempt [OF desec_fetch [OF assms zone]], intro edits_if edits_pure edits_store [OF desec_write [OF assms zone ne]])
      (auto simp: rr_values_def same_except_def list_ex_iff image_image split: option.splits)
qed

text \<open>C13: the deSEC provider keeps the provider contract on any server with the documented behaviour.\<close>

theorem desec_contract:
  assumes "desec_api E self owns up rr"
  shows "dns_provider (desec_provider E self) (\<lambda>w. rr_values (rr (net w))) (desec_owner self owns) (online up (\<lambda>_. True))"
  by (rule dns_providerI [where st = "\<lambda>w. rr (net w)" and T = rr_values])
    (simp_all add: desec_present_edits [OF assms] desec_cleanup_edits [OF assms])

section \<open>A server\<close>

record desec_answer =
  ans_domains :: "DesecDomain list"
  ans_domain :: DesecDomain
  ans_rrset :: DesecRrset

definition desec_server ::
  "DesecRrsetWrite list request \<Rightarrow> (string \<times> string \<Rightarrow> string list) \<Rightarrow>
   (reqwest_error + desec_answer response) \<times> (string \<times> string \<Rightarrow> string list)" where
  "desec_server rq n =
     (let found = \<lparr>ans_domains = [\<lparr>domain_name = ''a.org'', minimum_ttl = Some 1\<rparr>],
            ans_domain = \<lparr>domain_name = between ''api/domains/'' ''/'' (rq_url rq), minimum_ttl = None\<rparr>,
            ans_rrset = \<lparr>desec_records = n (''a.org'', between ''api/domains/a.org/rrsets/'' ''/TXT/'' (rq_url rq))\<rparr>\<rparr> in
      case (rq_method rq, rq_body rq) of
        (PATCH, Some [b]) \<Rightarrow>
          (answer 200 found, n((''a.org'', if subname b = [] then ''@'' else subname b) := write_records b))
      | _ \<Rightarrow> (answer 200 found, n))"

definition demo_desec :: "(desec_answer, string \<times> string \<Rightarrow> string list) desec_env" where
  "demo_desec = api_around desec_server (\<lambda>_. False)
     (desec_env.fields (\<lambda>a. Inr (ans_domains a)) (\<lambda>a. Inr (ans_domain a)) (\<lambda>a. Inr (ans_rrset a)))"

definition demo_desec_provider :: DesecProvider where
  "demo_desec_provider = \<lparr>api_base = ''api'', zone_override = None, ttl = 2, cfg_timeout = 1, desec_token = ''t''\<rparr>"

definition demo_desec_world :: "(string \<times> string \<Rightarrow> string list) world" where
  "demo_desec_world = \<lparr>RESOLVER = None, net = (\<lambda>_. [quote_txt ''other''])\<rparr>"

lemma demo_desec_run:
  "fst (desec_present demo_desec demo_desec_provider ''_acme-challenge.A.org'' ''v'' demo_desec_world) = Inr ()"
  "fst (desec_cleanup demo_desec demo_desec_provider ''_acme-challenge.A.org'' ''v''
     (snd (desec_present demo_desec demo_desec_provider ''_acme-challenge.A.org'' ''v'' demo_desec_world))) = Inr ()"
  by code_simp+

lemma demo_desec_sel:
  "http_send demo_desec = desec_server" "idles demo_desec up view" "encode_path demo_desec s = s"
  "desec_domains_json demo_desec = (\<lambda>a. Inr (ans_domains a))" "desec_domain_json demo_desec = (\<lambda>a. Inr (ans_domain a))"
  "desec_rrset_json demo_desec = (\<lambda>a. Inr (ans_rrset a))"
  by (simp_all add: demo_desec_def api_around_def desec_env.defs encode_path_def idles_def)

lemma demo_desec_api: "desec_api demo_desec demo_desec_provider (\<lambda>_. Some ''a.org'') (\<lambda>_. True) (\<lambda>n. n)"
proof -
  have zone: "desec_zone demo_desec_provider (\<lambda>_. Some ''a.org'') f = Some z \<longleftrightarrow> z = ''a.org''" for f z
    by (auto simp: desec_zone_def demo_desec_provider_def)
  have base: "api_base demo_desec_provider = ''api''" by (simp add: demo_desec_provider_def)
  have url: "between ''api/domains/'' ''/'' (''api'' @ ''/domains/'' @ z @ ''/'') = z"
    "between ''api/domains/a.org/rrsets/'' ''/TXT/'' (''api'' @ ''/domains/'' @ ''a.org'' @ ''/rrsets/'' @ r @ ''/TXT/'') = r" for z r
    by (rule between_eq, simp)+
  show ?thesis
    using url
    by (auto simp: desec_api_def zone base demo_desec_sel reads_def writes_def desec_server_def answer_def desec_get_def
        desec_rrset_url_def Let_def split: http_method.splits option.splits)
qed

theorem desec_contract_witness:
  "\<exists>w1 w2. present (desec_provider demo_desec demo_desec_provider) ''_acme-challenge.A.org'' ''v'' demo_desec_world = (Inr (), w1)
     \<and> ''v'' \<in> rr_values (net w1) (desec_owner demo_desec_provider (\<lambda>_. Some ''a.org'') ''_acme-challenge.A.org'')
     \<and> cleanup (desec_provider demo_desec demo_desec_provider) ''_acme-challenge.A.org'' ''v'' w1 = (Inr (), w2)
     \<and> rr_values (net w2) = rr_values (net demo_desec_world)"
proof -
  note contract = desec_contract [OF demo_desec_api]
  have "''v'' \<notin> rr_values (net demo_desec_world) k" for k
    by (auto simp: rr_values_def demo_desec_world_def split: option.splits)
  then show ?thesis
    by (intro dns_provider.round_trip [OF contract]) (simp_all add: demo_desec_run online_def)
qed

end
