(* ===== verification/Record_Kit.thy ===== *)
theory Record_Kit
  imports Provider_Kit
begin

text \<open>
  For the providers whose API has single records with an id: a TXT value is added by creating a record and
  removed by deleting every record that holds it. The server's state is a map from ids to records.
\<close>

section \<open>Loops and states\<close>

text \<open>A \<open>for\<close> loop whose body ends in \<open>?\<close>.\<close>

fun try_for :: "('a \<Rightarrow> ('w, unit) io) \<Rightarrow> 'a list \<Rightarrow> ('w, unit) io" where
  "try_for body [] = done_ok ()"
| "try_for body (x # xs) = attempt (body x) (\<lambda>_. try_for body xs)"

text \<open>
  A loop over the pages of a listing. \<open>fetch\<close> gives the items of a page and, when there are more pages, the error
  to report if the limit of pages is reached.
\<close>

function page_loop ::
  "nat \<Rightarrow> (nat \<Rightarrow> ('w, 'x list \<times> DnsError option) io) \<Rightarrow> 'x list \<Rightarrow> nat \<Rightarrow> ('w, 'x list) io" where
  "page_loop max_pages fetch items page =
     attempt (fetch page) (\<lambda>got.
     let items = items @ fst got in
     case snd got of
       None \<Rightarrow> done_ok items
     | Some too_many \<Rightarrow>
         if max_pages \<le> page then fail_with too_many else page_loop max_pages fetch items (page + 1))"
  by pat_completeness auto
termination
  by (relation "measure (\<lambda>(max_pages, fetch, items, page). max_pages - page)") auto

declare page_loop.simps [simp del]

text \<open>\<open>first p s\<close> is what the first \<open>p\<close> pages hold in the state \<open>s\<close>, and \<open>whole s\<close> the whole listing.\<close>

lemma page_loop_observes:
  assumes fetch: "\<And>p S. observes good st S (fetch (Suc p)) (\<lambda>s got.
      first (Suc p) s = first p s @ fst got \<and> (snd got = None \<longrightarrow> first (Suc p) s = whole s) \<and> Q s)"
  shows "observes good st (\<lambda>s. S s \<and> items = first p s) (page_loop max_pages fetch items (Suc p)) (\<lambda>s xs. xs = whole s \<and> Q s)"
proof (induction "max_pages - p" arbitrary: p items S rule: less_induct)
  case less
  show ?case
    unfolding page_loop.simps [of max_pages fetch items "Suc p"] Let_def
  proof (rule observes_attempt [OF fetch], intro editing)
    fix got too_many
    let ?S = "\<lambda>s. (S s \<and> items = first p s) \<and> first (Suc p) s = first p s @ fst got \<and>
      (snd got = None \<longrightarrow> first (Suc p) s = whole s) \<and> Q s"
    assume "\<not> max_pages \<le> Suc p"
    then show "observes good st ?S (page_loop max_pages fetch (items @ fst got) (Suc p + 1)) (\<lambda>s xs. xs = whole s \<and> Q s)"
      by (intro observes_weaken [OF less [where S = "\<lambda>_. True", of "Suc p", unfolded Suc_eq_plus1 [of "Suc p"]]]) auto
  qed auto
qed

lemma pages_end:
  assumes "length xss \<le> Suc p" "p < length xss"
  shows "filter P (concat (take p xss)) @ filter P (xss ! p) = filter P (concat xss)"
proof -
  have "filter P (concat (take (Suc p) xss)) = filter P (concat xss)" using assms by simp
  then show ?thesis unfolding take_Suc_conv_app_nth [OF assms(2)] by simp
qed

text \<open>The values of a name, the effect of creating a record, and what a complete listing of a name says.\<close>

definition held :: "('r \<Rightarrow> 'k) \<Rightarrow> ('r \<Rightarrow> string) \<Rightarrow> ('i \<rightharpoonup> 'r) \<Rightarrow> 'k option \<Rightarrow> string set" where
  "held key val s k = {val r | i r. s i = Some r \<and> Some (key r) = k}"

definition creates :: "'r \<Rightarrow> ('i \<rightharpoonup> 'r) \<Rightarrow> ('i \<rightharpoonup> 'r) \<Rightarrow> bool" where
  "creates r s s' \<longleftrightarrow> (\<exists>i. s i = None \<and> s' = s(i \<mapsto> r))"

definition listed ::
  "('r \<Rightarrow> 'k) \<Rightarrow> ('r \<Rightarrow> string) \<Rightarrow> ('x \<Rightarrow> 'i) \<Rightarrow> ('x \<Rightarrow> string) \<Rightarrow> 'k \<Rightarrow> ('i \<rightharpoonup> 'r) \<Rightarrow> 'x list \<Rightarrow> bool" where
  "listed key val rid rval k s xs \<longleftrightarrow>
     {(rid x, rval x) | x. x \<in> set xs} = {(i, val r) | i r. s i = Some r \<and> key r = k}"

lemma listed_held: "listed key val rid rval k s xs \<Longrightarrow> v \<in> held key val s (Some k) \<longleftrightarrow> (\<exists>x \<in> set xs. rval x = v)"
proof -
  assume "listed key val rid rval k s xs"
  then have "(i, v) \<in> {(rid x, rval x) | x. x \<in> set xs} \<longleftrightarrow> (i, v) \<in> {(i, val r) | i r. s i = Some r \<and> key r = k}" for i
    by (simp add: listed_def)
  then have "(\<exists>i. (i, v) \<in> {(rid x, rval x) | x. x \<in> set xs}) \<longleftrightarrow>
      (\<exists>i. (i, v) \<in> {(i, val r) | i r. s i = Some r \<and> key r = k})"
    by (intro ex_cong1)
  then show ?thesis by (auto simp: held_def)
qed

lemma listed_map:
  assumes "listed key val rid rval k s xs"
  shows "listed key (\<lambda>r. g (val r)) rid (\<lambda>x. g (rval x)) k s xs"
proof -
  have "{(rid x, g (rval x)) | x. x \<in> set xs} = map_prod id g ` {(rid x, rval x) | x. x \<in> set xs}"
    by (force simp: image_iff)
  also have "\<dots> = map_prod id g ` {(i, val r) | i r. s i = Some r \<and> key r = k}" using assms by (simp add: listed_def)
  also have "\<dots> = {(i, g (val r)) | i r. s i = Some r \<and> key r = k}" by (force simp: image_iff)
  finally show ?thesis by (simp add: listed_def)
qed

section \<open>Creating\<close>

lemma writes_mono:
  "writes E up view rq step applied \<Longrightarrow> (\<And>s s'. step s s' \<Longrightarrow> step' s s') \<Longrightarrow> writes E up view rq step' applied"
  unfolding writes_def by blast

lemma stores_send_plus:
  assumes "idles E up view" "writes E up view rq step applied" "net_free C"
    and "\<And>resp w. snd (rest resp w) = w" "\<And>resp w. fst (rest resp w) = Inr () \<Longrightarrow> applied resp"
  shows "stores (online up C) (\<lambda>w. view (net w)) (attempt (send E rq) rest) step\<^sup>+\<^sup>+"
proof (rule stores_send [OF assms(1) _ assms(3)])
  show "writes E up view rq step\<^sup>+\<^sup>+ applied" by (rule writes_mono [OF assms(2)]) (rule tranclp.r_into_trancl)
qed (fact tranclp_trans assms(4,5))+

lemma held_upd: "s i = None \<Longrightarrow> held key val (s(i \<mapsto> r)) k = held key val s k \<union> (if Some (key r) = k then {val r} else {})"
  unfolding held_def by (auto split: if_splits) (metis option.distinct(1))+

lemma creates_held:
  assumes "creates r s s'"
  shows "same_except {(Some (key r), val r)} (held key val s) (held key val s') \<and> val r \<in> held key val s' (Some (key r))"
  using assms by (auto simp: creates_def held_upd same_except_def split: if_splits)

lemma creates_plus:
  "(creates r)\<^sup>+\<^sup>+ s s' \<Longrightarrow>
   same_except {(Some (key r), val r)} (held key val s) (held key val s') \<and> val r \<in> held key val s' (Some (key r))"
proof (induction rule: tranclp_induct)
  case (step y z)
  with creates_held [of r y z key val] show ?case using same_except_trans by blast
qed (rule creates_held)

text \<open>A server may also refuse to create a record that it already has.\<close>

definition adds :: "('r \<Rightarrow> 'k) \<Rightarrow> ('r \<Rightarrow> string) \<Rightarrow> 'k \<Rightarrow> string \<Rightarrow> ('i \<rightharpoonup> 'r) \<Rightarrow> ('i \<rightharpoonup> 'r) \<Rightarrow> bool" where
  "adds key val k v s s' \<longleftrightarrow> same_except {(Some k, v)} (held key val s) (held key val s') \<and> v \<in> held key val s' (Some k)"

lemma adds_trans: "adds key val k v s s' \<Longrightarrow> adds key val k v s' s'' \<Longrightarrow> adds key val k v s s''"
  using same_except_trans unfolding adds_def by blast

lemma adds_creates: "creates r s s' \<Longrightarrow> adds key val (key r) (val r) s s'"
  unfolding adds_def by (rule creates_held)

lemma adds_present: "v \<in> held key val s (Some k) \<Longrightarrow> adds key val k v s s"
  by (simp add: adds_def same_except_refl)

lemma stores_adds:
  assumes "idles E up view" "writes E up view rq step applied" "net_free C"
    and "\<And>s s'. step s s' \<Longrightarrow> adds key val k v s s'"
    and "\<And>resp w. snd (rest resp w) = w" "\<And>resp w. fst (rest resp w) = Inr () \<Longrightarrow> applied resp"
  shows "stores (online up C) (\<lambda>w. view (net w)) (attempt (send E rq) rest) (adds key val k v)"
proof (rule stores_send [OF assms(1) _ assms(3)])
  show "writes E up view rq (adds key val k v) applied" by (rule writes_mono [OF assms(2,4)])
qed (fact adds_trans assms(5,6))+

lemma add_record_by:
  assumes "observes good st S fetch (listed key val rid rval k)" "stores good st create (adds key val k v)"
  shows "edits good st (held key val) S (Some k) v True
    (attempt fetch (\<lambda>xs. if list_ex (\<lambda>x. rval x = v) xs then done_ok () else create))"
proof (rule edits_attempt [OF assms(1)], rule edits_if)
  fix xs
  show "edits good st (held key val) (\<lambda>s. S s \<and> listed key val rid rval k s xs) (Some k) v True (done_ok ())"
    if "list_ex (\<lambda>x. rval x = v) xs"
    using that by (intro edits_pure) (auto simp: listed_held list_ex_iff)
  show "edits good st (held key val) (\<lambda>s. S s \<and> listed key val rid rval k s xs) (Some k) v True create"
    by (rule edits_store [OF assms(2)]) (simp add: adds_def)
qed

lemma stores_mono: "stores good st m step \<Longrightarrow> (\<And>s s'. step s s' \<Longrightarrow> step' s s') \<Longrightarrow> stores good st m step'"
  unfolding stores_def after_def by blast

lemma add_record:
  assumes "observes good st S fetch (listed key val rid rval k)" "stores good st create (creates r)\<^sup>+\<^sup>+" "key r = k" "val r = v"
  shows "edits good st (held key val) S (Some k) v True
    (attempt fetch (\<lambda>xs. if list_ex (\<lambda>x. rval x = v) xs then done_ok () else create))"
  by (rule add_record_by [OF assms(1)], rule stores_mono [OF assms(2)])
    (use creates_plus [of r _ _ key val] assms(3,4) in \<open>simp add: adds_def\<close>)

section \<open>Deleting\<close>

text \<open>An action that deletes records with ids in \<open>M s\<close>, and all of them when it succeeds.\<close>

definition drops :: "('w \<Rightarrow> bool) \<Rightarrow> ('w \<Rightarrow> ('i \<rightharpoonup> 'r)) \<Rightarrow> (('i \<rightharpoonup> 'r) \<Rightarrow> 'i set) \<Rightarrow> ('w, 'a) io \<Rightarrow> bool" where
  "drops good st M m \<longleftrightarrow> (\<forall>w. good w \<longrightarrow> after m w (\<lambda>r w'. good w' \<and>
     (\<exists>D \<subseteq> M (st w). st w' = st w |` (- D) \<and> ((\<exists>x. r = Inr x) \<longrightarrow> D = M (st w)))))"

lemma restrict_UNIV [simp]: "s |` UNIV = s"
  by (auto simp: restrict_map_def)

lemma delete_restrict: "s(i := None) = s |` (- {i})"
  by (auto simp: restrict_map_def)

lemma drops_observes:
  assumes "observes good st (\<lambda>_. True) m post"
  shows "drops good st (\<lambda>_. {}) m"
  unfolding drops_def
proof (intro allI impI)
  fix w assume "good w"
  with assms have "after m w (\<lambda>r w'. good w' \<and> st w' = st w \<and> (\<forall>x. r = Inr x \<longrightarrow> post (st w) x))"
    unfolding observes_def by blast
  then show "after m w (\<lambda>r w'. good w' \<and> (\<exists>D \<subseteq> {}. st w' = st w |` (- D) \<and> ((\<exists>x. r = Inr x) \<longrightarrow> D = {})))"
    by (rule after_mono) simp
qed

lemma drops_done: "drops good st (\<lambda>_. {}) (done_ok x)"
  by (rule drops_observes [where post = "\<lambda>_ _. True"], rule observes_pure) simp

lemma drops_stores:
  assumes "stores good st m (\<lambda>s s'. s' = s(i := None))"
  shows "drops good st (\<lambda>_. {i}) m"
  unfolding drops_def
proof (intro allI impI)
  fix w assume "good w"
  with assms have "after m w (\<lambda>r w'. good w' \<and> (st w' = st w \<and> r \<noteq> Inr () \<or> st w' = (st w)(i := None)))"
    unfolding stores_def by blast
  then show "after m w (\<lambda>r w'. good w' \<and> (\<exists>D \<subseteq> {i}. st w' = st w |` (- D) \<and> ((\<exists>x. r = Inr x) \<longrightarrow> D = {i})))"
  proof (rule after_mono)
    fix r :: "unit result" and w'
    assume w': "good w' \<and> (st w' = st w \<and> r \<noteq> Inr () \<or> st w' = (st w)(i := None))"
    show "good w' \<and> (\<exists>D \<subseteq> {i}. st w' = st w |` (- D) \<and> ((\<exists>x. r = Inr x) \<longrightarrow> D = {i}))"
    proof (cases "st w' = st w \<and> r \<noteq> Inr ()")
      case True
      with w' show ?thesis by (intro conjI exI [of _ "{}"]) auto
    next
      case False
      with w' show ?thesis by (intro conjI exI [of _ "{i}"]) (auto simp: delete_restrict)
    qed
  qed
qed

lemma drops_given:
  assumes "observes good st (\<lambda>_. True) m post" "\<And>x. drops good st (M' x) (f x)" "\<And>s x. post s x \<Longrightarrow> M' x s = M s"
  shows "drops good st M (attempt m f)"
  unfolding drops_def after_attempt
proof (intro allI impI)
  fix w assume w: "good w"
  let ?Q = "\<lambda>r w'. good w' \<and> (\<exists>D \<subseteq> M (st w). st w' = st w |` (- D) \<and> ((\<exists>x. r = Inr x) \<longrightarrow> D = M (st w)))"
  show "after m w (\<lambda>r w1. case r of Inl e \<Rightarrow> ?Q (Inl e) w1 | Inr x \<Rightarrow> after (f x) w1 ?Q)"
  proof (rule after_mono)
    show "after m w (\<lambda>r w'. good w' \<and> st w' = st w \<and> (\<forall>x. r = Inr x \<longrightarrow> post (st w) x))"
      using assms(1) w unfolding observes_def by blast
    show "case r of Inl e \<Rightarrow> ?Q (Inl e) w1 | Inr x \<Rightarrow> after (f x) w1 ?Q"
      if w1: "good w1 \<and> st w1 = st w \<and> (\<forall>x. r = Inr x \<longrightarrow> post (st w) x)" for r w1
    proof (cases r)
      case (Inr x)
      with w1 assms(2) [unfolded drops_def, rule_format, of w1 x] assms(3) [of "st w" x] show ?thesis by simp
    next
      case (Inl e)
      show ?thesis unfolding Inl sum.case by (intro conjI exI [of _ "{}"]) (use w1 in simp_all)
    qed
  qed
qed

lemma drops_then:
  assumes "drops good st M1 m" "\<And>x. drops good st M2 (f x)" "\<And>s. M s = M1 s \<union> M2 (s |` (- M1 s))"
  shows "drops good st M (attempt m f)"
  unfolding drops_def after_attempt
proof (intro allI impI)
  fix w assume w: "good w"
  let ?Q = "\<lambda>M s r w'. good w' \<and> (\<exists>D \<subseteq> M s. st w' = s |` (- D) \<and> ((\<exists>x. r = Inr x) \<longrightarrow> D = M s))"
  show "after m w (\<lambda>r w1. case r of Inl e \<Rightarrow> ?Q M (st w) (Inl e) w1 | Inr x \<Rightarrow> after (f x) w1 (?Q M (st w)))"
  proof (rule after_mono)
    show "after m w (?Q M1 (st w))" using assms(1) w unfolding drops_def by blast
    show "case r of Inl e \<Rightarrow> ?Q M (st w) (Inl e) w1 | Inr x \<Rightarrow> after (f x) w1 (?Q M (st w))" if w1: "?Q M1 (st w) r w1" for r w1
    proof (cases r)
      case (Inr x)
      with w1 have st: "good w1" "st w1 = st w |` (- M1 (st w))" by auto
      then have "after (f x) w1 (?Q M2 (st w |` (- M1 (st w))))"
        using assms(2) [unfolded drops_def, rule_format, of w1 x] by simp
      then have "after (f x) w1 (?Q M (st w))"
      proof (rule after_mono)
        fix r2 w2
        assume "?Q M2 (st w |` (- M1 (st w))) r2 w2"
        then obtain D where "good w2" "D \<subseteq> M2 (st w |` (- M1 (st w)))" "st w2 = st w |` (- M1 (st w)) |` (- D)"
          "(\<exists>x. r2 = Inr x) \<longrightarrow> D = M2 (st w |` (- M1 (st w)))" by blast
        then show "?Q M (st w) r2 w2" unfolding assms(3) by (intro conjI exI [of _ "M1 (st w) \<union> D"]) auto
      qed
      with Inr show ?thesis by simp
    next
      case (Inl e)
      obtain D where D: "D \<subseteq> M1 (st w)" "st w1 = st w |` (- D)" using w1 by blast
      then have "D \<subseteq> M (st w)" using assms(3) [of "st w"] by blast
      then show ?thesis unfolding Inl sum.case by (intro conjI exI [of _ D]) (use w1 D in simp_all)
    qed
  qed
qed

lemma try_for_deletes:
  assumes "\<And>x. stores good st (del x) (\<lambda>s s'. s' = s(rid x := None))"
  shows "drops good st (\<lambda>_. rid ` {x \<in> set xs. P x}) (try_for (\<lambda>x. if P x then del x else done_ok ()) xs)"
proof (induction xs)
  case (Cons x xs)
  show ?case
  proof (cases "P x")
    case True
    then have "{y \<in> set (x # xs). P y} = insert x {y \<in> set xs. P y}" by auto
    with True show ?thesis by (auto intro!: drops_then [OF drops_stores [OF assms] Cons])
  next
    case False
    then have "{y \<in> set (x # xs). P y} = {y \<in> set xs. P y}" by auto
    with False show ?thesis
      by (auto intro!: drops_given [where post = "\<lambda>_ _. True"] observes_pure Cons)
  qed
qed (simp add: drops_def after_def)

lemma held_restrict: "held key val (s |` (- D)) k = {val r | i r. i \<notin> D \<and> s i = Some r \<and> Some (key r) = k}"
  by (auto simp: held_def restrict_map_def)

text \<open>Deleting the records of a name that hold a value edits that value.\<close>

lemma held_dropped:
  assumes "D \<subseteq> {i. \<exists>r. s i = Some r \<and> key r = k \<and> val r = v}"
  shows "same_except {(Some k, v)} (held key val s) (held key val (s |` (- D)))"
    and "D = {i. \<exists>r. s i = Some r \<and> key r = k \<and> val r = v} \<Longrightarrow> v \<notin> held key val (s |` (- D)) (Some k)"
proof -
  have "key r = k" "val r = v" if "i \<in> D" "s i = Some r" for i r using assms that by auto
  then show "same_except {(Some k, v)} (held key val s) (held key val (s |` (- D)))"
    unfolding same_except_def held_restrict unfolding held_def by blast
  show "v \<notin> held key val (s |` (- D)) (Some k)" if "D = {i. \<exists>r. s i = Some r \<and> key r = k \<and> val r = v}"
    unfolding held_restrict that by auto
qed

lemma edits_drops:
  assumes "drops good st M m" "\<And>s. S s \<Longrightarrow> M s = {i. \<exists>r. s i = Some r \<and> key r = k \<and> val r = v}"
  shows "edits good st (held key val) S (Some k) v False m"
  unfolding edits_def
proof (intro allI impI)
  fix w assume w: "good w" "S (st w)"
  show "after m w (\<lambda>r w'. good w' \<and> same_except {(Some k, v)} (held key val (st w)) (held key val (st w')) \<and>
      (r = Inr () \<longrightarrow> (v \<in> held key val (st w') (Some k)) = False))"
    by (rule after_mono [OF assms(1) [unfolded drops_def, rule_format, OF w(1)]])
      (auto simp: assms(2) [of "st w", OF w(2)] held_dropped)
qed

lemma drop_records:
  assumes "observes good st S fetch (listed key val rid rval k)"
    and "\<And>x. stores good st (del x) (\<lambda>s s'. s' = s(rid x := None))"
  shows "edits good st (held key val) S (Some k) v False
    (attempt fetch (try_for (\<lambda>x. if rval x = v then del x else done_ok ())))"
proof (rule edits_attempt [OF assms(1)], rule edits_drops [OF try_for_deletes [OF assms(2)]])
  fix xs s
  assume lst: "S s \<and> listed key val rid rval k s xs"
  have "i \<in> rid ` {x \<in> set xs. rval x = v} \<longleftrightarrow> (\<exists>r. s i = Some r \<and> key r = k \<and> val r = v)" for i
  proof -
    have "(i, v) \<in> {(rid x, rval x) | x. x \<in> set xs} \<longleftrightarrow> (i, v) \<in> {(i, val r) | i r. s i = Some r \<and> key r = k}"
      using lst by (simp only: listed_def)
    then show ?thesis by auto
  qed
  then show "rid ` {x \<in> set xs. rval x = v} = {i. \<exists>r. s i = Some r \<and> key r = k \<and> val r = v}" by blast
qed

section \<open>Pieces of a concrete server\<close>

text \<open>A store with finitely many places for records, where \<open>fits\<close> says which record may be where.\<close>

definition roomy :: "'i list \<Rightarrow> ('i \<Rightarrow> 'r \<Rightarrow> bool) \<Rightarrow> ('i \<rightharpoonup> 'r) \<Rightarrow> bool" where
  "roomy ids fits s \<longleftrightarrow> (\<forall>i r. s i = Some r \<longrightarrow> i \<in> set ids \<and> fits i r)"

definition pick :: "'i list \<Rightarrow> ('r \<Rightarrow> bool) \<Rightarrow> ('i \<rightharpoonup> 'r) \<Rightarrow> ('i \<times> 'r) list" where
  "pick ids P s = concat (map (\<lambda>i. case s i of Some r \<Rightarrow> if P r then [(i, r)] else [] | None \<Rightarrow> []) ids)"

definition free_place :: "'i list \<Rightarrow> ('i \<rightharpoonup> 'r) \<Rightarrow> 'i option" where
  "free_place ids s = find (\<lambda>i. s i = None) ids"

lemma set_pick: "x \<in> set (pick ids P s) \<longleftrightarrow> fst x \<in> set ids \<and> s (fst x) = Some (snd x) \<and> P (snd x)"
  by (cases x) (auto simp: pick_def split: option.splits)

lemma length_pick: "length (pick ids P s) \<le> length ids"
  unfolding pick_def by (induction ids) (auto split: option.splits)

lemma filter_pick:
  assumes "\<And>i r. s i = Some r \<Longrightarrow> P (i, r) \<longleftrightarrow> Q r"
  shows "filter P (pick ids (\<lambda>_. True) s) = pick ids Q s"
  using assms by (induction ids) (simp_all add: pick_def split: option.split)

lemma listed_pick:
  assumes "roomy ids fits s" "\<And>i r. fits i r \<Longrightarrow> key r = k \<Longrightarrow> rid (mk (i, r)) = i \<and> rval (mk (i, r)) = val r"
  shows "listed key val rid rval k s (map mk (pick ids (\<lambda>r. key r = k) s))"
proof -
  have "rid (mk x) = fst x \<and> rval (mk x) = val (snd x)" if "x \<in> set (pick ids (\<lambda>r. key r = k) s)" for x
    using that assms(1) assms(2) [of "fst x" "snd x"] by (simp add: set_pick roomy_def)
  then have "{(rid x, rval x) | x. x \<in> set (map mk (pick ids (\<lambda>r. key r = k) s))} =
      {(fst x, val (snd x)) | x. x \<in> set (pick ids (\<lambda>r. key r = k) s)}" by force
  also have "\<dots> = {(i, val r) | i r. s i = Some r \<and> key r = k}"
    using assms(1) by (auto simp: set_pick roomy_def)
  finally show ?thesis by (simp add: listed_def)
qed

lemma roomy_upd:
  "roomy ids fits s \<Longrightarrow> i \<in> set ids \<Longrightarrow> fits i r \<Longrightarrow> roomy ids fits (s(i \<mapsto> r))" "roomy ids fits s \<Longrightarrow> roomy ids fits (s(i := None))"
  by (auto simp: roomy_def)

lemma roomy_absent: "roomy ids fits s \<Longrightarrow> i \<notin> set ids \<Longrightarrow> s(i := None) = s"
  by (cases "s i") (auto simp: roomy_def)

lemma find_SomeD: "find P xs = Some x \<Longrightarrow> P x \<and> x \<in> set xs"
  by (auto simp: find_Some_iff)

lemma find_id: "(\<And>p. p \<in> set ps \<Longrightarrow> fst p = z) \<Longrightarrow> find (\<lambda>p. i = snd p) ps = (if (z, i) \<in> set ps then Some (z, i) else None)"
proof (induction ps)
  case (Cons p ps)
  then have "fst p = z" by simp
  with Cons show ?case by (cases p) auto
qed simp

lemma fst_pick: "fst ` set (pick ps P s) = {i \<in> set ps. \<exists>r. s i = Some r \<and> P r}"
proof (rule set_eqI)
  fix i
  show "i \<in> fst ` set (pick ps P s) \<longleftrightarrow> i \<in> {i \<in> set ps. \<exists>r. s i = Some r \<and> P r}"
    by (auto simp: set_pick image_iff Bex_def intro: exI [of _ "(i, the (s i))"])
qed

lemma free_place_creates:
  "free_place ids s = Some i \<Longrightarrow> creates r s (s(i \<mapsto> r))" "free_place ids s = Some i \<Longrightarrow> i \<in> set ids"
  by (auto simp: free_place_def creates_def dest: find_SomeD)

text \<open>Lists of strings as one string, for the bodies a server exchanges: each string after its length in unary.\<close>

definition pack :: "string list \<Rightarrow> string" where
  "pack xs = concat (map (\<lambda>x. replicate (length x) (CHR ''x'') @ CHR ''|'' # x) xs)"

function unpack :: "string \<Rightarrow> string list" where
  "unpack b =
     (if b = [] then []
      else
        (let n = length (takeWhile (\<lambda>c. c = CHR ''x'') b); rest = drop (Suc n) b in take n rest # unpack (drop n rest)))"
  by pat_completeness auto
termination by (relation "measure length") auto

declare unpack.simps [simp del]

lemma unpack_pack [simp]: "unpack (pack xs) = xs"
proof (induction xs)
  case (Cons x xs)
  have "takeWhile (\<lambda>c. c = CHR ''x'') (replicate n (CHR ''x'') @ CHR ''|'' # t) = replicate n (CHR ''x'')" for n t
    by (induction n) simp_all
  with Cons show ?case by (subst unpack.simps) (simp add: pack_def Let_def)
qed (simp add: pack_def unpack.simps)

end
