(* ===== verification/DigitalOcean.thy ===== *)
theory DigitalOcean
  imports Record_Kit Provider_Config
begin

text \<open>
  The DigitalOcean provider (\<open>providers/digitalocean.rs\<close>): single TXT records with an id, listed in pages.
\<close>

section \<open>Configuration\<close>

definition DO_API_BASE :: string where
  "DO_API_BASE = ''https://api.digitalocean.com/v2''"

definition DO_ENV_TOKEN :: string where
  "DO_ENV_TOKEN = ''DIGITALOCEAN_TOKEN''"

definition DO_DEFAULT_TTL :: nat where
  "DO_DEFAULT_TTL = 30"

definition DO_PER_PAGE :: nat where
  "DO_PER_PAGE = 200"

definition DO_MAX_PAGES :: nat where
  "DO_MAX_PAGES = 50"

definition DO_PROVIDER :: string where
  "DO_PROVIDER = ''digitalocean''"

record DoRecord =
  do_id :: nat
  do_data :: string

record DoPages =
  do_next :: "string option"

record DoLinks =
  do_pages :: "DoPages option"

record DoRecordList =
  domain_records :: "DoRecord list"
  do_links :: "DoLinks option"

record DoCreateRecordBody =
  do_type :: string
  do_name :: string
  do_body_data :: string
  do_body_ttl :: nat

record ('r, 'n) do_env = "(DoCreateRecordBody, 'r, 'n) api_env" +
  do_list_json :: "'r \<Rightarrow> reqwest_error + DoRecordList"

record DigitalOceanConfig = api_config +
  do_token :: string

type_synonym DigitalOceanProvider = DigitalOceanConfig

definition DigitalOceanConfig_new :: "string \<Rightarrow> DigitalOceanConfig" where
  "DigitalOceanConfig_new secret =
     \<lparr>api_base = DO_API_BASE, zone_override = None, ttl = DO_DEFAULT_TTL, cfg_timeout = HTTP_TIMEOUT,
      do_token = secret\<rparr>"

definition do_with_api_base :: "('r, 'n) do_env \<Rightarrow> string \<Rightarrow> DigitalOceanConfig \<Rightarrow> DigitalOceanConfig result" where
  "do_with_api_base E base config = set_api_base E DO_PROVIDER base config"

definition do_with_zone :: "string \<Rightarrow> DigitalOceanConfig \<Rightarrow> DigitalOceanConfig result" where
  "do_with_zone zone config = set_zone zone config"

definition do_with_ttl :: "nat \<Rightarrow> DigitalOceanConfig \<Rightarrow> DigitalOceanConfig result" where
  "do_with_ttl t config = set_ttl 30 2147483647 t config"

definition do_with_timeout :: "duration \<Rightarrow> DigitalOceanConfig \<Rightarrow> DigitalOceanConfig" where
  "do_with_timeout t config = config\<lparr>cfg_timeout := t\<rparr>"

interpretation do_config: config_builder "url_parse E" DO_PROVIDER "30" "2147483647" "DigitalOceanConfig_new t" "do_with_api_base E"
  do_with_zone do_with_ttl do_with_timeout for E :: "('r, 'n) do_env" and t
  by unfold_locales
    (auto simp: do_with_api_base_def do_with_zone_def do_with_ttl_def do_with_timeout_def DigitalOceanConfig_new_def DO_DEFAULT_TTL_def builder_simps)

definition DigitalOceanProvider_new :: "('r, 'n) do_env \<Rightarrow> DigitalOceanConfig \<Rightarrow> DigitalOceanProvider result" where
  "DigitalOceanProvider_new E config =
     and_then (build_client E (cfg_timeout config) CONNECT_TIMEOUT) (\<lambda>_. Inr config)"

definition do_from_env :: "('r, 'n) do_env \<Rightarrow> DigitalOceanProvider result" where
  "do_from_env E =
     and_then (required_var E DO_ENV_TOKEN) (\<lambda>secret. DigitalOceanProvider_new E (DigitalOceanConfig_new secret))"

section \<open>The API calls\<close>

definition do_resolve_zone ::
  "('r, 'n) do_env \<Rightarrow> DigitalOceanProvider \<Rightarrow> string \<Rightarrow> (('n, 'z) world_scheme, string) io" where
  "do_resolve_zone E self fqdn =
     (case zone_override self of
        Some z \<Rightarrow> done_ok z
      | None \<Rightarrow>
          attempt (find_zone (api_dns E) fqdn) (\<lambda>zone.
          attempt (from_result (validate_zone zone)) (\<lambda>_.
          done_ok zone)))"

definition do_records_url :: "('r, 'n) do_env \<Rightarrow> DigitalOceanProvider \<Rightarrow> string \<Rightarrow> string" where
  "do_records_url E self zone = api_base self @ ''/domains/'' @ encode_path E zone @ ''/records''"

definition do_record_item_url :: "('r, 'n) do_env \<Rightarrow> DigitalOceanProvider \<Rightarrow> string \<Rightarrow> nat \<Rightarrow> string" where
  "do_record_item_url E self zone record_id = do_records_url E self zone @ ''/'' @ show_nat record_id"

definition do_records_path :: "('r, 'n) do_env \<Rightarrow> string \<Rightarrow> string" where
  "do_records_path E zone = ''/domains/'' @ encode_path E zone @ ''/records''"

definition do_list_request ::
  "('r, 'n) do_env \<Rightarrow> DigitalOceanProvider \<Rightarrow> string \<Rightarrow> string \<Rightarrow> nat \<Rightarrow> DoCreateRecordBody request" where
  "do_list_request E self zone name page =
     \<lparr>rq_method = GET, rq_url = do_records_url E self zone,
      rq_query = [(''type'', ''TXT''), (''name'', name), (''per_page'', show_nat DO_PER_PAGE), (''page'', show_nat page)],
      rq_headers = [bearer (do_token self)], rq_body = None\<rparr>"

definition do_has_next :: "DoRecordList \<Rightarrow> bool" where
  "do_has_next body =
     (Option.bind (Option.bind (do_links body) do_pages) do_next \<noteq> None)"

definition do_fetch_page ::
  "('r, 'n) do_env \<Rightarrow> DigitalOceanProvider \<Rightarrow> string \<Rightarrow> string \<Rightarrow> nat \<Rightarrow>
   (('n, 'z) world_scheme, DoRecord list \<times> DnsError option) io" where
  "do_fetch_page E self zone name page =
     attempt (send E (do_list_request E self zone name page)) (\<lambda>response.
     let status = rs_status response in
     if status = 404 then fail_with (ZoneNotFound zone)
     else if \<not> is_success status
     then fail_with (api_error E DO_PROVIDER ''GET'' (do_records_path E zone) status response)
     else
       attempt (read_json (do_list_json E) response) (\<lambda>body.
       done_ok (domain_records body,
         if do_has_next body
         then Some (Api (DO_PROVIDER @ '' GET '' @ do_records_path E zone @ '': more than '' @
           show_nat DO_MAX_PAGES @ '' pages of records''))
         else None)))"

definition do_list_matching_records ::
  "('r, 'n) do_env \<Rightarrow> DigitalOceanProvider \<Rightarrow> string \<Rightarrow> string \<Rightarrow> (('n, 'z) world_scheme, DoRecord list) io" where
  "do_list_matching_records E self zone fqdn =
     page_loop DO_MAX_PAGES (do_fetch_page E self zone (trim_end_matches DOT fqdn)) [] 1"

definition do_create_record ::
  "('r, 'n) do_env \<Rightarrow> DigitalOceanProvider \<Rightarrow> string \<Rightarrow> string \<Rightarrow> string \<Rightarrow> (('n, 'z) world_scheme, unit) io" where
  "do_create_record E self zone rname v =
     (let body = \<lparr>do_type = ''TXT'', do_name = rname, do_body_data = v, do_body_ttl = ttl self\<rparr> in
      attempt (send E \<lparr>rq_method = POST, rq_url = do_records_url E self zone, rq_query = [],
         rq_headers = [bearer (do_token self)], rq_body = Some body\<rparr>) (\<lambda>response.
      let status = rs_status response in
      if status = 404 then fail_with (ZoneNotFound zone)
      else if \<not> is_success status
      then fail_with (api_error E DO_PROVIDER ''POST'' (do_records_path E zone) status response)
      else done_ok ()))"

definition do_delete_record ::
  "('r, 'n) do_env \<Rightarrow> DigitalOceanProvider \<Rightarrow> string \<Rightarrow> nat \<Rightarrow> (('n, 'z) world_scheme, unit) io" where
  "do_delete_record E self zone record_id =
     attempt (send E \<lparr>rq_method = DELETE, rq_url = do_record_item_url E self zone record_id, rq_query = [],
        rq_headers = [bearer (do_token self)], rq_body = None\<rparr>) (\<lambda>response.
     let status = rs_status response in
     if \<not> is_success status \<and> status \<noteq> 404
     then fail_with (api_error E DO_PROVIDER ''DELETE'' (do_records_path E zone @ ''/'' @ show_nat record_id) status response)
     else done_ok ())"

definition do_record_value :: "DoRecord \<Rightarrow> string" where
  "do_record_value r = trim_matches QUOTE (trim (do_data r))"

section \<open>The provider\<close>

definition do_present ::
  "('r, 'n) do_env \<Rightarrow> DigitalOceanProvider \<Rightarrow> string \<Rightarrow> string \<Rightarrow> (('n, 'z) world_scheme, unit) io" where
  "do_present E self fqdn v =
     attempt (from_result (validate_fqdn fqdn)) (\<lambda>_.
     let fqdn = to_ascii_lowercase fqdn in
     attempt (from_result (validate_acme_value v)) (\<lambda>_.
     attempt (do_resolve_zone E self fqdn) (\<lambda>zone.
     attempt (from_result (relative_name fqdn zone)) (\<lambda>rname.
     with_lock DO_PROVIDER (zone @ ''|'' @ rname) (
     attempt (do_list_matching_records E self zone fqdn) (\<lambda>existing.
     if list_ex (\<lambda>r. do_record_value r = v) existing then done_ok ()
     else do_create_record E self zone rname v))))))"

definition do_cleanup ::
  "('r, 'n) do_env \<Rightarrow> DigitalOceanProvider \<Rightarrow> string \<Rightarrow> string \<Rightarrow> (('n, 'z) world_scheme, unit) io" where
  "do_cleanup E self fqdn v =
     attempt (from_result (validate_fqdn fqdn)) (\<lambda>_.
     let fqdn = to_ascii_lowercase fqdn in
     attempt (do_resolve_zone E self fqdn) (\<lambda>zone.
     attempt (from_result (relative_name fqdn zone)) (\<lambda>rname.
     with_lock DO_PROVIDER (zone @ ''|'' @ rname) (
     attempt (do_list_matching_records E self zone fqdn) (
     try_for (\<lambda>r. if do_record_value r = v then do_delete_record E self zone (do_id r) else done_ok ()))))))"

definition do_provider :: "('r, 'n) do_env \<Rightarrow> DigitalOceanProvider \<Rightarrow> ('n, 'z) world_scheme DnsProvider" where
  "do_provider E self =
     \<lparr>present = do_present E self, cleanup = do_cleanup E self, provider_timing = PropagationTiming_default\<rparr>"

lemma do_provider_simps [simp]:
  "present (do_provider E self) = do_present E self" "cleanup (do_provider E self) = do_cleanup E self"
  by (simp_all add: do_provider_def)

section \<open>The documented API\<close>

text \<open>
  \<open>rr n (zone, id)\<close> is the TXT record with an id: its zone and full name, and its data. \<open>lst s zone name\<close> is
  the order in which the records of a name are listed, 200 on a page, with a link to the next page while
  there are more. \<open>POST\<close> creates a record with a fresh id and \<open>DELETE\<close> removes the record of its URL.
\<close>

definition do_api ::
  "('r, 'n) do_env \<Rightarrow> DigitalOceanProvider \<Rightarrow> (string \<Rightarrow> bool) \<Rightarrow> ('n \<Rightarrow> bool) \<Rightarrow>
   ('n \<Rightarrow> string \<times> nat \<rightharpoonup> (string \<times> string) \<times> string) \<Rightarrow>
   ((string \<times> nat \<rightharpoonup> (string \<times> string) \<times> string) \<Rightarrow> string \<Rightarrow> string \<Rightarrow> DoRecord list) \<Rightarrow> bool" where
  "do_api E self soa up rr lst \<longleftrightarrow> idles E up rr \<and>
     (\<forall>f z nm p. zone_for self soa f = Some z \<longrightarrow> reads E up rr (do_list_request E self z nm (Suc p)) (\<lambda>s resp.
        is_success (rs_status resp) \<longrightarrow> (\<forall>b. do_list_json E (rs_body resp) = Inr b \<longrightarrow>
          listed fst snd (\<lambda>x. (z, do_id x)) do_data (z, nm) s (lst s z nm) \<and>
          domain_records b = take DO_PER_PAGE (drop (p * DO_PER_PAGE) (lst s z nm)) \<and>
          (do_has_next b \<longleftrightarrow> Suc p * DO_PER_PAGE < length (lst s z nm))))) \<and>
     (\<forall>f z rq b. zone_for self soa f = Some z \<longrightarrow> rq_method rq = POST \<longrightarrow> rq_url rq = do_records_url E self z \<longrightarrow>
        rq_body rq = Some b \<longrightarrow> do_type b = ''TXT'' \<longrightarrow>
        writes E up rr rq (creates ((z, qualify (do_name b) (trim_end_matches DOT z)), do_body_data b))
          (\<lambda>resp. is_success (rs_status resp))) \<and>
     (\<forall>f z i rq. zone_for self soa f = Some z \<longrightarrow> rq_method rq = DELETE \<longrightarrow> rq_url rq = do_record_item_url E self z i \<longrightarrow>
        writes E up rr rq (\<lambda>s s'. s' = s((z, i) := None))
          (\<lambda>resp. is_success (rs_status resp) \<or> rs_status resp = 404))"

definition do_values ::
  "(string \<times> nat \<rightharpoonup> (string \<times> string) \<times> string) \<Rightarrow> (string \<times> string) option \<Rightarrow> string set" where
  "do_values = held fst (\<lambda>r. trim_matches QUOTE (trim (snd r)))"

definition do_owner :: "DigitalOceanProvider \<Rightarrow> (string \<Rightarrow> bool) \<Rightarrow> string \<Rightarrow> (string \<times> string) option" where
  "do_owner self soa f =
     owner (\<lambda>z r. (z, qualify r (trim_end_matches DOT z))) (zone_for self soa (to_ascii_lowercase f)) (to_ascii_lowercase f)"

lemma do_apiD:
  assumes "do_api E self soa up rr lst"
  shows "idles E up rr"
    "zone_for self soa f = Some z \<Longrightarrow> reads E up rr (do_list_request E self z nm (Suc p)) (\<lambda>s resp.
        is_success (rs_status resp) \<longrightarrow> (\<forall>b. do_list_json E (rs_body resp) = Inr b \<longrightarrow>
          listed fst snd (\<lambda>x. (z, do_id x)) do_data (z, nm) s (lst s z nm) \<and>
          domain_records b = take DO_PER_PAGE (drop (p * DO_PER_PAGE) (lst s z nm)) \<and>
          (do_has_next b \<longleftrightarrow> Suc p * DO_PER_PAGE < length (lst s z nm))))"
    "zone_for self soa f = Some z \<Longrightarrow> rq_method rq = POST \<Longrightarrow> rq_url rq = do_records_url E self z \<Longrightarrow> rq_body rq = Some b \<Longrightarrow>
        do_type b = ''TXT'' \<Longrightarrow>
        writes E up rr rq (creates ((z, qualify (do_name b) (trim_end_matches DOT z)), do_body_data b))
          (\<lambda>resp. is_success (rs_status resp))"
    "zone_for self soa f = Some z \<Longrightarrow> rq_method rq = DELETE \<Longrightarrow> rq_url rq = do_record_item_url E self z i \<Longrightarrow>
        writes E up rr rq (\<lambda>s s'. s' = s((z, i) := None))
          (\<lambda>resp. is_success (rs_status resp) \<or> rs_status resp = 404)"
  using assms unfolding do_api_def by blast+

lemma do_page:
  assumes "do_api E self soa up rr lst" "zone_for self soa f = Some z"
  shows "observes (online up (\<lambda>_. True)) (\<lambda>w. rr (net w)) S (do_fetch_page E self z nm (Suc p)) (\<lambda>s got.
    take (Suc p * DO_PER_PAGE) (lst s z nm) = take (p * DO_PER_PAGE) (lst s z nm) @ fst got \<and>
    (snd got = None \<longrightarrow> take (Suc p * DO_PER_PAGE) (lst s z nm) = lst s z nm) \<and>
    listed fst snd (\<lambda>x. (z, do_id x)) do_data (z, nm) s (lst s z nm))"
  unfolding do_fetch_page_def Let_def
proof (rule observes_attempt [OF observes_send [OF do_apiD(1) [OF assms(1)] do_apiD(2) [OF assms]]], simp, intro editing)
  fix resp b s
  assume "\<not> \<not> is_success (rs_status resp)" "do_list_json E (rs_body resp) = Inr b"
    "S s \<and> (is_success (rs_status resp) \<longrightarrow> (\<forall>b. do_list_json E (rs_body resp) = Inr b \<longrightarrow>
        listed fst snd (\<lambda>x. (z, do_id x)) do_data (z, nm) s (lst s z nm) \<and>
        domain_records b = take DO_PER_PAGE (drop (p * DO_PER_PAGE) (lst s z nm)) \<and>
        (do_has_next b \<longleftrightarrow> Suc p * DO_PER_PAGE < length (lst s z nm))))"
  then show "take (Suc p * DO_PER_PAGE) (lst s z nm) = take (p * DO_PER_PAGE) (lst s z nm) @
        fst (domain_records b, if do_has_next b then Some (Api (DO_PROVIDER @ '' GET '' @ do_records_path E z @ '': more than '' @
          show_nat DO_MAX_PAGES @ '' pages of records'')) else None) \<and>
      (snd (domain_records b, if do_has_next b then Some (Api (DO_PROVIDER @ '' GET '' @ do_records_path E z @ '': more than '' @
          show_nat DO_MAX_PAGES @ '' pages of records'')) else None) = None \<longrightarrow> take (Suc p * DO_PER_PAGE) (lst s z nm) = lst s z nm) \<and>
      listed fst snd (\<lambda>x. (z, do_id x)) do_data (z, nm) s (lst s z nm)"
    using take_add [of "p * DO_PER_PAGE" DO_PER_PAGE "lst s z nm"] by (simp add: add.commute)
qed

lemma do_list:
  assumes "do_api E self soa up rr lst" "zone_for self soa f = Some z"
  shows "observes (online up (\<lambda>_. True)) (\<lambda>w. rr (net w)) S (do_list_matching_records E self z g)
    (listed fst (\<lambda>r. trim_matches QUOTE (trim (snd r))) (\<lambda>x. (z, do_id x)) do_record_value (z, trim_end_matches DOT g))"
  unfolding do_list_matching_records_def One_nat_def do_record_value_def
  by (rule observes_weaken [OF page_loop_observes [where S = S and first = "\<lambda>p s. take (p * DO_PER_PAGE) (lst s z (trim_end_matches DOT g))"
        and whole = "\<lambda>s. lst s z (trim_end_matches DOT g)", OF do_page [OF assms]]])
    (auto simp: listed_map [where g = "\<lambda>d. trim_matches QUOTE (trim d)"])

lemma do_create:
  assumes "do_api E self soa up rr lst" "zone_for self soa f = Some z"
  shows "stores (online up (\<lambda>_. True)) (\<lambda>w. rr (net w)) (do_create_record E self z rn v)
    (creates ((z, qualify rn (trim_end_matches DOT z)), v))\<^sup>+\<^sup>+"
proof -
  let ?b = "\<lparr>do_type = ''TXT'', do_name = rn, do_body_data = v, do_body_ttl = ttl self\<rparr>"
  let ?rq = "\<lparr>rq_method = POST, rq_url = do_records_url E self z, rq_query = [],
    rq_headers = [bearer (do_token self)], rq_body = Some ?b\<rparr>"
  have "writes E up rr ?rq (creates ((z, qualify rn (trim_end_matches DOT z)), v)) (\<lambda>resp. is_success (rs_status resp))"
    using do_apiD(3) [OF assms, of ?rq ?b] by simp
  then show ?thesis
    unfolding do_create_record_def Let_def
    by (rule stores_send_plus [OF do_apiD(1) [OF assms(1)]]) (auto split: if_splits)
qed

lemma do_delete:
  assumes "do_api E self soa up rr lst" "zone_for self soa f = Some z"
  shows "stores (online up (\<lambda>_. True)) (\<lambda>w. rr (net w)) (do_delete_record E self z i) (\<lambda>s s'. s' = s((z, i) := None))"
proof -
  let ?rq = "\<lparr>rq_method = DELETE, rq_url = do_record_item_url E self z i, rq_query = [],
    rq_headers = [bearer (do_token self)], rq_body = None\<rparr>"
  have "writes E up rr ?rq (\<lambda>s s'. s' = s((z, i) := None)) (\<lambda>resp. is_success (rs_status resp) \<or> rs_status resp = 404)"
    using do_apiD(4) [OF assms, of ?rq i] by simp
  then show ?thesis
    unfolding do_delete_record_def Let_def
    by (rule stores_send [OF do_apiD(1) [OF assms(1)]]) (auto split: if_splits)
qed

lemma do_resolve:
  assumes "quiet_dns (api_dns E) up rr soa" "validate_fqdn f = Inr ()"
  shows "observes (online up (\<lambda>_. True)) (\<lambda>w. rr (net w)) S (do_resolve_zone E self f) (\<lambda>_ z. zone_for self soa f = Some z)"
  unfolding do_resolve_zone_def by (rule observes_zone_for [OF assms]) simp

lemma do_present_edits:
  assumes "do_api E self soa up rr lst" "quiet_dns (api_dns E) up rr soa"
  shows "edits (online up (\<lambda>_. True)) (\<lambda>w. rr (net w)) do_values (\<lambda>_. True) (do_owner self soa f) v True
    (do_present E self f v)"
  unfolding do_present_def do_owner_def do_values_def Let_def
proof (intro editing edits_in_zone do_resolve assms)
  fix u :: unit and u' :: unit and z rn
  assume z: "zone_for self soa (to_ascii_lowercase f) = Some z" and f: "validate_fqdn f = Inr u" and v: "validate_acme_value v = Inr u'"
    and rn: "relative_name (to_ascii_lowercase f) z = Inr rn"
  from f have low: "validate_fqdn (to_ascii_lowercase f) = Inr ()" by (simp add: validate_fqdn_lower)
  show "edits (online up (\<lambda>_. True)) (\<lambda>w. rr (net w)) (held fst (\<lambda>r. trim_matches QUOTE (trim (snd r)))) (\<lambda>_. True)
      (Some (z, qualify rn (trim_end_matches DOT z))) v True
      (attempt (do_list_matching_records E self z (to_ascii_lowercase f)) (\<lambda>existing.
       if list_ex (\<lambda>r. do_record_value r = v) existing then done_ok () else do_create_record E self z rn v))"
    unfolding relative_name_qualify [OF low rn, symmetric]
    using relative_name_qualify [OF low rn] v
    by (intro add_record [OF do_list [OF assms(1) z] do_create [OF assms(1) z]])
      (simp_all add: trim_acme_value trim_matches_free acme_value_no_quote)
qed (simp add: validate_fqdn_lower)

lemma do_cleanup_edits:
  assumes "do_api E self soa up rr lst" "quiet_dns (api_dns E) up rr soa"
  shows "edits (online up (\<lambda>_. True)) (\<lambda>w. rr (net w)) do_values (\<lambda>_. True) (do_owner self soa f) v False
    (do_cleanup E self f v)"
  unfolding do_cleanup_def do_owner_def do_values_def Let_def
proof (intro editing edits_in_zone do_resolve assms)
  fix u :: unit and z rn
  assume z: "zone_for self soa (to_ascii_lowercase f) = Some z" and f: "validate_fqdn f = Inr u" and rn: "relative_name (to_ascii_lowercase f) z = Inr rn"
  from f have low: "validate_fqdn (to_ascii_lowercase f) = Inr ()" by (simp add: validate_fqdn_lower)
  show "edits (online up (\<lambda>_. True)) (\<lambda>w. rr (net w)) (held fst (\<lambda>r. trim_matches QUOTE (trim (snd r)))) (\<lambda>_. True)
      (Some (z, qualify rn (trim_end_matches DOT z))) v False
      (attempt (do_list_matching_records E self z (to_ascii_lowercase f)) (
       try_for (\<lambda>r. if do_record_value r = v then do_delete_record E self z (do_id r) else done_ok ())))"
    unfolding relative_name_qualify [OF low rn, symmetric]
    by (rule drop_records [OF do_list [OF assms(1) z] do_delete [OF assms(1) z]])
qed (simp add: validate_fqdn_lower)

text \<open>C14: the DigitalOcean provider keeps the provider contract on any server with the documented behaviour,
  however many pages of records a name has, up to the limit of pages.\<close>

theorem do_contract:
  assumes "do_api E self soa up rr lst" "quiet_dns (api_dns E) up rr soa"
  shows "dns_provider (do_provider E self) (\<lambda>w. do_values (rr (net w))) (do_owner self soa) (online up (\<lambda>_. True))"
  by (rule dns_providerI [where st = "\<lambda>w. rr (net w)" and T = do_values])
    (simp_all add: do_present_edits [OF assms] do_cleanup_edits [OF assms])

section \<open>A server\<close>

text \<open>An account with the zone \<open>a.org\<close> and room for four records.\<close>

definition do_places :: "(string \<times> nat) list" where
  "do_places = [(''a.org'', 0), (''a.org'', 1), (''a.org'', 2), (''a.org'', 3)]"

definition do_fits :: "string \<times> nat \<Rightarrow> (string \<times> string) \<times> string \<Rightarrow> bool" where
  "do_fits i r \<longleftrightarrow> fst i = ''a.org'' \<and> fst (fst r) = ''a.org''"

definition do_listing ::
  "(string \<times> nat \<rightharpoonup> (string \<times> string) \<times> string) \<Rightarrow> string \<Rightarrow> string \<Rightarrow> DoRecord list" where
  "do_listing s z nm = map (\<lambda>x. \<lparr>do_id = snd (fst x), do_data = snd (snd x)\<rparr>) (pick do_places (\<lambda>r. fst r = (z, nm)) s)"

definition do_server ::
  "DoCreateRecordBody request \<Rightarrow> (string \<times> nat \<rightharpoonup> (string \<times> string) \<times> string) \<Rightarrow>
   (reqwest_error + DoRecordList response) \<times> (string \<times> nat \<rightharpoonup> (string \<times> string) \<times> string)" where
  "do_server rq n =
     (let none = \<lparr>domain_records = [], do_links = None\<rparr> in
      case rq_method rq of
        POST \<Rightarrow>
          (case (rq_body rq, free_place do_places n) of
             (Some b, Some i) \<Rightarrow> (answer 201 none, n(i \<mapsto> ((''a.org'', qualify (do_name b) ''a.org''), do_body_data b)))
           | _ \<Rightarrow> (answer 422 none, n))
      | DELETE \<Rightarrow>
          (case find (\<lambda>i. rq_url rq = ''api/domains/a.org/records/'' @ show_nat (snd i)) do_places of
             Some i \<Rightarrow> (answer 204 none, n(i := None))
           | None \<Rightarrow> (answer 404 none, n))
      | _ \<Rightarrow>
          (answer 200 (case map_of (rq_query rq) ''name'' of
             Some nm \<Rightarrow>
               (if map_of (rq_query rq) ''page'' = Some (show_nat 1)
                then \<lparr>domain_records = do_listing n ''a.org'' nm, do_links = None\<rparr> else none)
           | None \<Rightarrow> none), n))"

definition demo_do :: "(DoRecordList, string \<times> nat \<rightharpoonup> (string \<times> string) \<times> string) do_env" where
  "demo_do = api_around do_server (\<lambda>_. False) (do_env.fields (\<lambda>b. Inr b))"

definition demo_do_provider :: DigitalOceanProvider where
  "demo_do_provider = \<lparr>api_base = ''api'', zone_override = Some ''a.org'', ttl = 2, cfg_timeout = 1, do_token = ''t''\<rparr>"

definition demo_do_world :: "(string \<times> nat \<rightharpoonup> (string \<times> string) \<times> string) world" where
  "demo_do_world = \<lparr>RESOLVER = None, net = [(''a.org'', 1) \<mapsto> ((''a.org'', ''_acme-challenge.a.org''), ''other'')]\<rparr>"

lemma demo_do_run:
  "fst (do_present demo_do demo_do_provider ''_acme-challenge.A.org'' ''v'' demo_do_world) = Inr ()"
  "fst (do_cleanup demo_do demo_do_provider ''_acme-challenge.A.org'' ''v''
     (snd (do_present demo_do demo_do_provider ''_acme-challenge.A.org'' ''v'' demo_do_world))) = Inr ()"
  by code_simp+

lemma demo_do_sel:
  "http_send demo_do = do_server" "idles demo_do up view" "encode_path demo_do s = s" "api_dns demo_do = still_dns (\<lambda>_. False)"
  "do_list_json demo_do = (\<lambda>b. Inr b)"
  by (simp_all add: demo_do_def api_around_def do_env.defs encode_path_def idles_def)

lemma listed_do_listing:
  "roomy do_places do_fits s \<Longrightarrow> listed fst snd (\<lambda>x. (''a.org'', do_id x)) do_data (''a.org'', nm) s (do_listing s ''a.org'' nm)"
  unfolding do_listing_def by (erule listed_pick) (auto simp: do_fits_def prod_eq_iff)

lemma do_place_fits: "i \<in> set do_places \<Longrightarrow> do_fits i ((''a.org'', nm), d)"
  by (auto simp: do_places_def do_fits_def)

lemma demo_do_api: "do_api demo_do demo_do_provider (\<lambda>_. False) (roomy do_places do_fits) (\<lambda>n. n) do_listing"
  unfolding do_api_def
proof (intro conjI allI impI)
  fix f z nm and p :: nat
  assume "zone_for demo_do_provider (\<lambda>_. False) f = Some z"
  then have z: "z = ''a.org''" by (simp add: zone_for_def demo_do_provider_def)
  have run: "http_send demo_do (do_list_request demo_do demo_do_provider z nm (Suc p)) n =
      (answer 200 (if p = 0 then \<lparr>domain_records = do_listing n z nm, do_links = None\<rparr>
         else \<lparr>domain_records = [], do_links = None\<rparr>), n)" for n
    using show_nat_inj [of "Suc p" "Suc 0"] by (simp add: demo_do_sel do_server_def do_list_request_def z Let_def)
  have short: "length (do_listing s z nm) \<le> 200" "length (do_listing s z nm) \<le> 200 + p * 200"
    "0 < p \<Longrightarrow> length (do_listing s z nm) \<le> p * 200" for s
    using length_pick [of do_places "\<lambda>r. fst r = (z, nm)" s] by (simp_all add: do_listing_def do_places_def)
  show "reads demo_do (roomy do_places do_fits) (\<lambda>n. n) (do_list_request demo_do demo_do_provider z nm (Suc p)) (\<lambda>s resp.
      is_success (rs_status resp) \<longrightarrow> (\<forall>b. do_list_json demo_do (rs_body resp) = Inr b \<longrightarrow>
        listed fst snd (\<lambda>x. (z, do_id x)) do_data (z, nm) s (do_listing s z nm) \<and>
        domain_records b = take DO_PER_PAGE (drop (p * DO_PER_PAGE) (do_listing s z nm)) \<and>
        (do_has_next b \<longleftrightarrow> Suc p * DO_PER_PAGE < length (do_listing s z nm))))"
    unfolding reads_def run using short
    by (auto simp: answer_def demo_do_sel listed_do_listing [folded z] do_has_next_def DO_PER_PAGE_def not_less split: if_splits)
next
  fix f z b and rq :: "DoCreateRecordBody request"
  assume "zone_for demo_do_provider (\<lambda>_. False) f = Some z" and rq: "rq_method rq = POST" "rq_body rq = Some b"
  then have z: "z = ''a.org''" by (simp add: zone_for_def demo_do_provider_def)
  show "writes demo_do (roomy do_places do_fits) (\<lambda>n. n) rq (creates ((z, qualify (do_name b) (trim_end_matches DOT z)), do_body_data b))
      (\<lambda>resp. is_success (rs_status resp))"
    unfolding writes_def
    by (auto simp: demo_do_sel do_server_def rq z answer_def trim_end_matches_def is_success_def Let_def
        free_place_creates roomy_upd do_place_fits split: option.splits if_splits)
next
  fix f z i and rq :: "DoCreateRecordBody request"
  assume "zone_for demo_do_provider (\<lambda>_. False) f = Some z" and rq: "rq_method rq = DELETE"
    "rq_url rq = do_record_item_url demo_do demo_do_provider z i"
  then have z: "z = ''a.org''" by (simp add: zone_for_def demo_do_provider_def)
  have url: "(rq_url rq = ''api/domains/a.org/records/'' @ show_nat j) = (i = j)" for j
    by (simp add: rq(2) z do_record_item_url_def do_records_url_def demo_do_provider_def demo_do_sel)
  have item: "find (\<lambda>p. i = snd p) do_places = (if (''a.org'', i) \<in> set do_places then Some (''a.org'', i) else None)"
    by (rule find_id) (auto simp: do_places_def)
  show "writes demo_do (roomy do_places do_fits) (\<lambda>n. n) rq (\<lambda>s s'. s' = s((z, i) := None))
      (\<lambda>resp. is_success (rs_status resp) \<or> rs_status resp = 404)"
    unfolding writes_def demo_do_sel(1) do_server_def rq(1) http_method.case Let_def url item
    by (auto simp: z answer_def roomy_upd roomy_absent split: if_splits)
qed (simp add: demo_do_sel)

lemma demo_do_room: "roomy do_places do_fits (net demo_do_world)"
  by (auto simp: roomy_def do_places_def do_fits_def demo_do_world_def split: if_splits)

theorem do_contract_witness:
  "\<exists>w1 w2. present (do_provider demo_do demo_do_provider) ''_acme-challenge.A.org'' ''v'' demo_do_world = (Inr (), w1)
     \<and> ''v'' \<in> do_values (net w1) (do_owner demo_do_provider (\<lambda>_. False) ''_acme-challenge.A.org'')
     \<and> cleanup (do_provider demo_do demo_do_provider) ''_acme-challenge.A.org'' ''v'' w1 = (Inr (), w2)
     \<and> do_values (net w2) = do_values (net demo_do_world)"
proof -
  note contract = do_contract [OF demo_do_api, unfolded demo_do_sel, OF quiet_still_dns]
  have "trim ''other'' = ''other''" by code_simp
  then have "''v'' \<notin> do_values (net demo_do_world) k" for k
    by (auto simp: do_values_def held_def demo_do_world_def trim_matches_free split: if_splits)
  then show ?thesis
    by (intro dns_provider.round_trip [OF contract]) (simp_all add: demo_do_run online_def demo_do_room)
qed

end
