(* ===== verification/Cloudflare.thy ===== *)
theory Cloudflare
  imports Record_Kit
begin

text \<open>
  The Cloudflare provider (\<open>providers/cloudflare.rs\<close>): single TXT records with an id, in zones that are
  addressed by an id the provider looks up once and caches.
\<close>

section \<open>Configuration\<close>

definition CF_API_BASE :: string where
  "CF_API_BASE = ''https://api.cloudflare.com/client/v4''"

definition CF_ENV_TOKEN :: string where
  "CF_ENV_TOKEN = ''CLOUDFLARE_API_TOKEN''"

definition CF_DEFAULT_TTL :: nat where
  "CF_DEFAULT_TTL = 60"

definition CF_PROVIDER :: string where
  "CF_PROVIDER = ''cloudflare''"

record ZoneOverride =
  override_name :: string
  override_id :: "string option"

record CloudflareConfig =
  cf_api_token :: string
  cf_api_base :: string
  cf_zone_override :: "ZoneOverride option"
  cf_ttl :: nat
  cf_timeout :: duration

type_synonym CloudflareProvider = CloudflareConfig

record 'n cf_world = "'n world" +
  zone_id_cache :: "string \<rightharpoonup> string"

record CfError =
  cf_code :: int
  cf_message :: string

record 'a CfEnvelope =
  cf_success :: bool
  cf_errors :: "CfError list"
  cf_result :: "'a option"

record CfZone =
  cf_zone_id :: string
  cf_zone_name :: string

record CfDnsRecord =
  cf_id :: string
  cf_content :: string

record CfCreateRecordBody =
  cf_type :: string
  cf_name :: string
  cf_body_content :: string
  cf_body_ttl :: nat

text \<open>\<open>debug_str\<close> is the quoted and escaped form of a string that \<open>{:?}\<close> writes.\<close>

record ('r, 'n) cf_env = "(CfCreateRecordBody, 'r, 'n) api_env" +
  cf_zones_json :: "'r \<Rightarrow> reqwest_error + CfZone list CfEnvelope"
  cf_records_json :: "'r \<Rightarrow> reqwest_error + CfDnsRecord list CfEnvelope"
  cf_record_json :: "'r \<Rightarrow> reqwest_error + CfDnsRecord CfEnvelope"
  debug_str :: "string \<Rightarrow> string"

definition CloudflareConfig_new :: "string \<Rightarrow> CloudflareConfig" where
  "CloudflareConfig_new secret =
     \<lparr>cf_api_token = secret, cf_api_base = CF_API_BASE, cf_zone_override = None, cf_ttl = CF_DEFAULT_TTL,
      cf_timeout = HTTP_TIMEOUT\<rparr>"

definition cf_with_api_base :: "('r, 'n) cf_env \<Rightarrow> string \<Rightarrow> CloudflareConfig \<Rightarrow> CloudflareConfig result" where
  "cf_with_api_base E base config =
     and_then (validate_https_base (url_parse E) base CF_PROVIDER) (\<lambda>_.
       Inr (config\<lparr>cf_api_base := trim_end_matches SLASH base\<rparr>))"

definition cf_with_zone :: "string \<Rightarrow> CloudflareConfig \<Rightarrow> CloudflareConfig result" where
  "cf_with_zone zone config =
     and_then (validate_zone zone) (\<lambda>_.
       Inr (config\<lparr>cf_zone_override :=
         Some \<lparr>override_name = to_ascii_lowercase (trim_end_matches DOT zone), override_id = None\<rparr>\<rparr>))"

definition cf_with_zone_id :: "string \<Rightarrow> string \<Rightarrow> CloudflareConfig \<Rightarrow> CloudflareConfig result" where
  "cf_with_zone_id zone zone_id config =
     and_then (validate_zone zone) (\<lambda>_.
       Inr (config\<lparr>cf_zone_override :=
         Some \<lparr>override_name = to_ascii_lowercase (trim_end_matches DOT zone), override_id = Some zone_id\<rparr>\<rparr>))"

definition cf_with_ttl :: "nat \<Rightarrow> CloudflareConfig \<Rightarrow> CloudflareConfig result" where
  "cf_with_ttl t config =
     and_then (if t = 1 then Inr t else validate_ttl_range t 30 86400) (\<lambda>t. Inr (config\<lparr>cf_ttl := t\<rparr>))"

definition cf_with_timeout :: "duration \<Rightarrow> CloudflareConfig \<Rightarrow> CloudflareConfig" where
  "cf_with_timeout t config = config\<lparr>cf_timeout := t\<rparr>"

text \<open>A new provider starts with an empty cache, which is part of the world it runs in.\<close>

definition CloudflareProvider_new :: "('r, 'n) cf_env \<Rightarrow> CloudflareConfig \<Rightarrow> CloudflareProvider result" where
  "CloudflareProvider_new E config =
     and_then (build_client E (cf_timeout config) CONNECT_TIMEOUT) (\<lambda>_. Inr config)"

definition cf_from_env :: "('r, 'n) cf_env \<Rightarrow> CloudflareProvider result" where
  "cf_from_env E =
     and_then (required_var E CF_ENV_TOKEN) (\<lambda>secret. CloudflareProvider_new E (CloudflareConfig_new secret))"

section \<open>The API calls\<close>

definition cf_errors_debug :: "('r, 'n) cf_env \<Rightarrow> CfError list \<Rightarrow> string" where
  "cf_errors_debug E errors =
     ''['' @ join '', '' (map (\<lambda>e. ''CfError { code: '' @ show_int (cf_code e) @ '', message: '' @
       debug_str E (cf_message e) @ '' }'') errors) @ '']''"

definition into_result :: "('r, 'n) cf_env \<Rightarrow> string \<Rightarrow> 'a CfEnvelope \<Rightarrow> 'a result" where
  "into_result E op_label env =
     (if \<not> cf_success env
      then Inl (Api (''cloudflare '' @ op_label @ '': '' @ cf_errors_debug E (cf_errors env)))
      else ok_or (Api (''cloudflare '' @ op_label @ '': missing result'')) (cf_result env))"

definition cf_get :: "CloudflareProvider \<Rightarrow> string \<Rightarrow> CfCreateRecordBody request" where
  "cf_get self url =
     \<lparr>rq_method = GET, rq_url = url, rq_query = [], rq_headers = [bearer (cf_api_token self)], rq_body = None\<rparr>"

definition cf_resolve_zone_name ::
  "('r, 'n) cf_env \<Rightarrow> CloudflareProvider \<Rightarrow> string \<Rightarrow> (('n, 'z) world_scheme, string) io" where
  "cf_resolve_zone_name E self fqdn =
     (case cf_zone_override self of
        Some ov \<Rightarrow>
          attempt (from_result (relative_name fqdn (override_name ov))) (\<lambda>_. done_ok (override_name ov))
      | None \<Rightarrow>
          attempt (find_zone (api_dns E) fqdn) (\<lambda>zone.
          attempt (from_result (validate_fqdn zone)) (\<lambda>_.
          done_ok zone)))"

definition cf_zones_url :: "('r, 'n) cf_env \<Rightarrow> CloudflareProvider \<Rightarrow> string \<Rightarrow> string" where
  "cf_zones_url E self zone_name = cf_api_base self @ ''/zones?name='' @ encode_path E zone_name"

definition cf_resolve_zone_id ::
  "('r, 'n) cf_env \<Rightarrow> CloudflareProvider \<Rightarrow> string \<Rightarrow> (('n, 'z) cf_world_scheme, string) io" where
  "cf_resolve_zone_id E self zone_name =
     (case Option.bind (cf_zone_override self) override_id of
        Some zid \<Rightarrow> done_ok zid
      | None \<Rightarrow>
          attempt (get_state (\<lambda>w. zone_id_cache w zone_name)) (\<lambda>cached.
          case cached of
            Some zid \<Rightarrow> done_ok zid
          | None \<Rightarrow>
              attempt (send E (cf_get self (cf_zones_url E self zone_name))) (\<lambda>response.
              let status = rs_status response in
              if \<not> is_success status
              then fail_with (api_error E CF_PROVIDER ''GET'' ''/zones'' status response)
              else
                attempt (read_json (cf_zones_json E) response) (\<lambda>body.
                attempt (from_result (into_result E (''GET /zones?name='' @ zone_name) body)) (\<lambda>zones.
                attempt (from_result (ok_or (ZoneNotFound zone_name) (find (\<lambda>z. cf_zone_name z = zone_name) zones))) (\<lambda>zone.
                attempt (modify_state (\<lambda>w. w\<lparr>zone_id_cache := (zone_id_cache w)(zone_name \<mapsto> cf_zone_id zone)\<rparr>)) (\<lambda>_.
                done_ok (cf_zone_id zone))))))))"

definition cf_records_url :: "('r, 'n) cf_env \<Rightarrow> CloudflareProvider \<Rightarrow> string \<Rightarrow> string" where
  "cf_records_url E self zone_id = cf_api_base self @ ''/zones/'' @ encode_path E zone_id @ ''/dns_records''"

definition cf_record_item_url :: "('r, 'n) cf_env \<Rightarrow> CloudflareProvider \<Rightarrow> string \<Rightarrow> string \<Rightarrow> string" where
  "cf_record_item_url E self zone_id record_id =
     cf_api_base self @ ''/zones/'' @ encode_path E zone_id @ ''/dns_records/'' @ encode_path E record_id"

definition cf_records_path :: "string \<Rightarrow> string" where
  "cf_records_path zone_id = ''/zones/'' @ zone_id @ ''/dns_records''"

definition cf_list_url :: "('r, 'n) cf_env \<Rightarrow> CloudflareProvider \<Rightarrow> string \<Rightarrow> string \<Rightarrow> string" where
  "cf_list_url E self zone_id name =
     cf_records_url E self zone_id @ ''?type=TXT&per_page=100&name='' @ encode_path E name"

definition cf_list_matching_records ::
  "('r, 'n) cf_env \<Rightarrow> CloudflareProvider \<Rightarrow> string \<Rightarrow> string \<Rightarrow> (('n, 'z) world_scheme, CfDnsRecord list) io" where
  "cf_list_matching_records E self zone_id fqdn =
     attempt (send E (cf_get self (cf_list_url E self zone_id (trim_end_matches DOT fqdn)))) (\<lambda>response.
     let status = rs_status response in
     if \<not> is_success status
     then fail_with (api_error E CF_PROVIDER ''GET'' (cf_records_path zone_id) status response)
     else
       attempt (read_json (cf_records_json E) response) (\<lambda>body.
       from_result (into_result E (''GET '' @ cf_records_path zone_id) body)))"

definition cf_create_record ::
  "('r, 'n) cf_env \<Rightarrow> CloudflareProvider \<Rightarrow> string \<Rightarrow> string \<Rightarrow> string \<Rightarrow> (('n, 'z) world_scheme, unit) io" where
  "cf_create_record E self zone_id fqdn v =
     (let body = \<lparr>cf_type = ''TXT'', cf_name = trim_end_matches DOT fqdn, cf_body_content = quote_txt v,
            cf_body_ttl = cf_ttl self\<rparr> in
      attempt (send E \<lparr>rq_method = POST, rq_url = cf_records_url E self zone_id, rq_query = [],
         rq_headers = [bearer (cf_api_token self)], rq_body = Some body\<rparr>) (\<lambda>response.
      let status = rs_status response in
      if \<not> is_success status
      then fail_with (api_error E CF_PROVIDER ''POST'' (cf_records_path zone_id) status response)
      else
        attempt (read_json (cf_record_json E) response) (\<lambda>env.
        attempt (from_result (into_result E (''POST '' @ cf_records_path zone_id) env)) (\<lambda>_.
        done_ok ()))))"

definition cf_delete_record ::
  "('r, 'n) cf_env \<Rightarrow> CloudflareProvider \<Rightarrow> string \<Rightarrow> string \<Rightarrow> (('n, 'z) world_scheme, unit) io" where
  "cf_delete_record E self zone_id record_id =
     attempt (send E \<lparr>rq_method = DELETE, rq_url = cf_record_item_url E self zone_id record_id, rq_query = [],
        rq_headers = [bearer (cf_api_token self)], rq_body = None\<rparr>) (\<lambda>response.
     let status = rs_status response in
     if \<not> is_success status \<and> status \<noteq> 404
     then fail_with (api_error E CF_PROVIDER ''DELETE'' (cf_records_path zone_id) status response)
     else done_ok ())"

section \<open>The provider\<close>

definition cf_present ::
  "('r, 'n) cf_env \<Rightarrow> CloudflareProvider \<Rightarrow> string \<Rightarrow> string \<Rightarrow> (('n, 'z) cf_world_scheme, unit) io" where
  "cf_present E self fqdn v =
     attempt (from_result (validate_fqdn fqdn)) (\<lambda>_.
     let fqdn = to_ascii_lowercase fqdn in
     attempt (from_result (validate_acme_value v)) (\<lambda>_.
     attempt (cf_resolve_zone_name E self fqdn) (\<lambda>zone_name.
     attempt (cf_resolve_zone_id E self zone_name) (\<lambda>zone_id.
     with_lock CF_PROVIDER (zone_id @ ''|'' @ fqdn) (
     attempt (cf_list_matching_records E self zone_id fqdn) (\<lambda>existing.
     if list_ex (\<lambda>r. trim_matches QUOTE (cf_content r) = v) existing then done_ok ()
     else cf_create_record E self zone_id fqdn v))))))"

definition cf_cleanup ::
  "('r, 'n) cf_env \<Rightarrow> CloudflareProvider \<Rightarrow> string \<Rightarrow> string \<Rightarrow> (('n, 'z) cf_world_scheme, unit) io" where
  "cf_cleanup E self fqdn v =
     attempt (from_result (validate_fqdn fqdn)) (\<lambda>_.
     let fqdn = to_ascii_lowercase fqdn in
     attempt (cf_resolve_zone_name E self fqdn) (\<lambda>zone_name.
     attempt (cf_resolve_zone_id E self zone_name) (\<lambda>zone_id.
     with_lock CF_PROVIDER (zone_id @ ''|'' @ fqdn) (
     attempt (cf_list_matching_records E self zone_id fqdn) (
     try_for (\<lambda>r. if trim_matches QUOTE (cf_content r) = v then cf_delete_record E self zone_id (cf_id r) else done_ok ()))))))"

definition cf_provider :: "('r, 'n) cf_env \<Rightarrow> CloudflareProvider \<Rightarrow> ('n, 'z) cf_world_scheme DnsProvider" where
  "cf_provider E self =
     \<lparr>present = cf_present E self, cleanup = cf_cleanup E self, provider_timing = PropagationTiming_default\<rparr>"

lemma cf_provider_simps [simp]:
  "present (cf_provider E self) = cf_present E self" "cleanup (cf_provider E self) = cf_cleanup E self"
  by (simp_all add: cf_provider_def)

section \<open>The documented API\<close>









lemma into_result_Inr [simp]: "into_result E l env = Inr x \<longleftrightarrow> cf_success env \<and> cf_result env = Some x"
  by (simp add: into_result_def)









section \<open>A server\<close>


















end
