(* ===== verification/Zone_Walk.thy ===== *)
theory Zone_Walk
  imports Provider_Kit
begin

text \<open>
  Zones from the provider's own API: the suffixes of a name, longest first, are looked up until one is a zone,
  and the result is cached by name. PowerDNS and Infomaniak have this search.
\<close>

record 'n zone_world = "'n world" +
  zone_cache :: "string \<rightharpoonup> string"

fun walk_candidates ::
  "(string \<Rightarrow> (('n, 'z) zone_world_scheme, string option) io) \<Rightarrow> string \<Rightarrow> string \<Rightarrow> string list \<Rightarrow>
   (('n, 'z) zone_world_scheme, string) io" where
  "walk_candidates fetch_zone fqdn name [] = fail_with (ZoneNotFound fqdn)"
| "walk_candidates fetch_zone fqdn name (candidate # candidates) =
     attempt (fetch_zone candidate) (\<lambda>found.
     case found of
       Some zone \<Rightarrow>
         attempt (from_result (validate_zone zone)) (\<lambda>_.
         attempt (from_result (relative_name name zone)) (\<lambda>_.
         attempt (modify_state (\<lambda>w. w\<lparr>zone_cache := (zone_cache w)(name \<mapsto> zone)\<rparr>)) (\<lambda>_.
         done_ok zone)))
     | None \<Rightarrow> walk_candidates fetch_zone fqdn name candidates)"

definition resolve_by_walk ::
  "'c api_config_scheme \<Rightarrow> (string \<Rightarrow> (('n, 'z) zone_world_scheme, string option) io) \<Rightarrow> string \<Rightarrow>
   (('n, 'z) zone_world_scheme, string) io" where
  "resolve_by_walk self fetch_zone fqdn =
     (case zone_override self of
        Some zone \<Rightarrow> done_ok zone
      | None \<Rightarrow>
          (let name = to_ascii_lowercase (trim_end_matches DOT fqdn) in
           attempt (get_state (\<lambda>w. zone_cache w name)) (\<lambda>cached.
           case cached of
             Some zone \<Rightarrow> done_ok zone
           | None \<Rightarrow>
               (let labels = split_char DOT name in
                walk_candidates fetch_zone fqdn name
                  (map (\<lambda>start. join [DOT] (drop start labels)) [0..<length labels - 1])))))"

section \<open>What the search finds\<close>

text \<open>\<open>known c\<close> is the name of the zone the account has at \<open>c\<close>, if any.\<close>

primrec first_known :: "(string \<rightharpoonup> string) \<Rightarrow> string list \<Rightarrow> string option" where
  "first_known known [] = None"
| "first_known known (c # cs) = (case known c of Some z \<Rightarrow> Some z | None \<Rightarrow> first_known known cs)"

definition walked :: "(string \<rightharpoonup> string) \<Rightarrow> string \<Rightarrow> string option" where
  "walked known name = first_known known (zone_candidates (split_char DOT name))"

definition walk_zone :: "'c api_config_scheme \<Rightarrow> (string \<rightharpoonup> string) \<Rightarrow> string \<Rightarrow> string option" where
  "walk_zone self known f =
     (case zone_override self of Some z \<Rightarrow> Some z | None \<Rightarrow> walked known (to_ascii_lowercase (trim_end_matches DOT f)))"

text \<open>The cache holds zones the search would find.\<close>

definition walk_cached :: "(string \<rightharpoonup> string) \<Rightarrow> ('n, 'z) zone_world_scheme \<Rightarrow> bool" where
  "walk_cached known w \<longleftrightarrow> zone_cache w \<subseteq>\<^sub>m walked known"

lemma net_free_walk_cached [simp]: "net_free (walk_cached known)"
  by (simp add: net_free_def walk_cached_def)

lemma walk_candidates_observes:
  fixes fetch_zone :: "string \<Rightarrow> (('n, 'z) zone_world_scheme, string option) io"
  assumes fetch: "\<And>S c. observes (online up (walk_cached known)) (\<lambda>w. rr (net w)) S (fetch_zone c) (\<lambda>_ x. x = known c)"
  shows "first_known known cs = walked known name \<Longrightarrow>
    observes (online up (walk_cached known)) (\<lambda>w. rr (net w)) S (walk_candidates fetch_zone f name cs)
      (\<lambda>_ z. walked known name = Some z)"
proof (induction cs arbitrary: S)
  case (Cons c cs)
  show ?case
    unfolding walk_candidates.simps
  proof (rule observes_attempt [OF fetch], intro editing observes_modify_then)
    fix found z w
    assume "found = Some z" "online up (walk_cached known) w" "S (rr (net w)) \<and> found = known c"
    with Cons(2) show "online up (walk_cached known) (w\<lparr>zone_cache := (zone_cache w)(name \<mapsto> z)\<rparr>) \<and>
        rr (net (w\<lparr>zone_cache := (zone_cache w)(name \<mapsto> z)\<rparr>)) = rr (net w)"
      by (auto simp: online_def walk_cached_def map_le_def)
  next
    fix found z s
    assume "found = Some z" "S s \<and> found = known c"
    with Cons(2) show "walked known name = Some z" by auto
  next
    fix found :: "string option"
    assume found: "found = None"
    show "observes (online up (walk_cached known)) (\<lambda>w. rr (net w)) (\<lambda>s. S s \<and> found = known c)
        (walk_candidates fetch_zone f name cs) (\<lambda>_ z. walked known name = Some z)"
    proof (cases "known c")
      case None
      with Cons show ?thesis by simp
    qed (simp add: observes_def found)
  qed
qed (simp add: observes_pure)

lemma resolve_by_walk_observes:
  assumes fetch: "\<And>S c. observes (online up (walk_cached known)) (\<lambda>w. rr (net w)) S (fetch_zone c) (\<lambda>_ x. x = known c)"
  shows "observes (online up (walk_cached known)) (\<lambda>w. rr (net w)) S (resolve_by_walk self fetch_zone f)
    (\<lambda>_ z. walk_zone self known f = Some z)"
proof (cases "zone_override self")
  case None
  let ?name = "to_ascii_lowercase (trim_end_matches DOT f)"
  have look: "observes (online up (walk_cached known)) (\<lambda>w. rr (net w)) S' (get_state (\<lambda>w. zone_cache w ?name))
      (\<lambda>_ x. \<forall>z. x = Some z \<longrightarrow> walked known ?name = Some z)" for S'
    by (rule observes_get_state) (auto simp: online_def walk_cached_def map_le_def dom_def)
  show ?thesis
    unfolding resolve_by_walk_def walk_zone_def Let_def None option.case
    by (rule observes_attempt [OF look], intro editing walk_candidates_observes [OF fetch])
      (auto simp: walked_def zone_candidates_def)
qed (simp add: resolve_by_walk_def walk_zone_def observes_pure)

lemma first_known_single: "first_known [c \<mapsto> z] cs = (if c \<in> set cs then Some z else None)"
  by (induction cs) auto

end
