(* ===== verification/PowerDns.thy ===== *)
theory PowerDns
  imports Record_Kit Zone_Walk
begin

text \<open>
  The PowerDNS provider (\<open>providers/powerdns.rs\<close>): the zone of a name is found by asking the server for its
  suffixes and cached, and a record set is replaced or deleted by a \<open>PATCH\<close> of its zone.
\<close>

section \<open>Configuration\<close>

definition PDNS_ENV_API_URL :: string where
  "PDNS_ENV_API_URL = ''POWERDNS_API_URL''"

definition PDNS_ENV_API_KEY :: string where
  "PDNS_ENV_API_KEY = ''POWERDNS_API_KEY''"

definition PDNS_ENV_SERVER_ID :: string where
  "PDNS_ENV_SERVER_ID = ''POWERDNS_SERVER_ID''"

definition PDNS_API_PATH :: string where
  "PDNS_API_PATH = ''/api/v1''"

definition PDNS_DEFAULT_SERVER_ID :: string where
  "PDNS_DEFAULT_SERVER_ID = ''localhost''"

definition PDNS_API_KEY_HEADER :: string where
  "PDNS_API_KEY_HEADER = ''X-API-Key''"

definition PDNS_DEFAULT_TTL :: nat where
  "PDNS_DEFAULT_TTL = 60"

definition PDNS_PROVIDER :: string where
  "PDNS_PROVIDER = ''powerdns''"

definition PDNS_MAX_ERROR_BODY :: nat where
  "PDNS_MAX_ERROR_BODY = 512"

record PdnsZone =
  pdns_zone_name :: string

record PdnsRecord =
  pdns_content :: string
  pdns_disabled :: bool

record PdnsRrset =
  rrset_name :: string
  rrset_record_type :: string
  pdns_rrset_ttl :: nat
  rrset_records :: "PdnsRecord list"

record PdnsZoneRrsets =
  zone_rrsets :: "PdnsRrset list"

record PdnsRrsetWrite =
  w_name :: string
  w_record_type :: string
  w_ttl :: "nat option"
  w_changetype :: string
  w_records :: "PdnsRecord list option"

record PdnsPatch =
  patch_rrsets :: "PdnsRrsetWrite list"

text \<open>\<open>pdns_error_json\<close> is the \<open>error\<close> member of an error body, when the body has that shape.\<close>

record ('r, 'n) pdns_env = "(PdnsPatch, 'r, 'n) api_env" +
  pdns_zone_json :: "'r \<Rightarrow> reqwest_error + PdnsZone"
  pdns_rrsets_json :: "'r \<Rightarrow> reqwest_error + PdnsZoneRrsets"
  pdns_error_json :: "string \<Rightarrow> string option"

record PowerDnsConfig = api_config +
  pdns_api_key :: string
  server_id :: string

type_synonym PowerDnsProvider = PowerDnsConfig

definition PowerDnsConfig_new :: "('r, 'n) pdns_env \<Rightarrow> string \<Rightarrow> string \<Rightarrow> PowerDnsConfig result" where
  "PowerDnsConfig_new E api_url api_key =
     and_then (validate_https_base (url_parse E) api_url PDNS_PROVIDER) (\<lambda>_.
       let base = trim_end_matches SLASH api_url;
           base = (case strip_suffix PDNS_API_PATH base of Some b \<Rightarrow> b | None \<Rightarrow> base) in
       Inr \<lparr>api_base = base @ PDNS_API_PATH, zone_override = None, ttl = PDNS_DEFAULT_TTL, cfg_timeout = HTTP_TIMEOUT,
         pdns_api_key = api_key, server_id = PDNS_DEFAULT_SERVER_ID\<rparr>)"

definition pdns_with_server_id :: "string \<Rightarrow> PowerDnsConfig \<Rightarrow> PowerDnsConfig result" where
  "pdns_with_server_id sid config =
     (if sid = [] then Inl (Other (PDNS_PROVIDER @ '' server id is empty''))
      else Inr (config\<lparr>server_id := sid\<rparr>))"

definition pdns_with_zone :: "string \<Rightarrow> PowerDnsConfig \<Rightarrow> PowerDnsConfig result" where
  "pdns_with_zone zone config = set_zone zone config"

definition pdns_with_ttl :: "nat \<Rightarrow> PowerDnsConfig \<Rightarrow> PowerDnsConfig result" where
  "pdns_with_ttl t config = and_then (validate_ttl t) (\<lambda>t. Inr (config\<lparr>ttl := t\<rparr>))"

definition pdns_with_timeout :: "duration \<Rightarrow> PowerDnsConfig \<Rightarrow> PowerDnsConfig" where
  "pdns_with_timeout t config = config\<lparr>cfg_timeout := t\<rparr>"

definition PowerDnsProvider_new :: "('r, 'n) pdns_env \<Rightarrow> PowerDnsConfig \<Rightarrow> PowerDnsProvider result" where
  "PowerDnsProvider_new E config =
     and_then (build_client E (cfg_timeout config) CONNECT_TIMEOUT) (\<lambda>_. Inr config)"

definition pdns_from_env :: "('r, 'n) pdns_env \<Rightarrow> PowerDnsProvider result" where
  "pdns_from_env E =
     and_then (required_var E PDNS_ENV_API_URL) (\<lambda>api_url.
     and_then (required_var E PDNS_ENV_API_KEY) (\<lambda>api_key.
     and_then (PowerDnsConfig_new E api_url api_key) (\<lambda>config.
     and_then (case env_var E PDNS_ENV_SERVER_ID of Some sid \<Rightarrow> pdns_with_server_id sid config | None \<Rightarrow> Inr config)
       (PowerDnsProvider_new E))))"

section \<open>The API calls\<close>

definition pdns_zone_path :: "('r, 'n) pdns_env \<Rightarrow> PowerDnsProvider \<Rightarrow> string \<Rightarrow> string" where
  "pdns_zone_path E self zone =
     ''/servers/'' @ encode_path E (server_id self) @ ''/zones/'' @ encode_path E zone @ ''.''"

definition pdns_url :: "PowerDnsProvider \<Rightarrow> string \<Rightarrow> string" where
  "pdns_url self path = api_base self @ path"

definition pdns_truncate :: "string \<Rightarrow> string" where
  "pdns_truncate raw =
     (if length raw \<le> PDNS_MAX_ERROR_BODY then raw
      else take (floor_boundary raw PDNS_MAX_ERROR_BODY) raw @ TRUNCATED)"

definition pdns_check_error :: "('r, 'n) pdns_env \<Rightarrow> string \<Rightarrow> string \<Rightarrow> nat \<Rightarrow> 'r response \<Rightarrow> DnsError" where
  "pdns_check_error E meth path status response =
     (let raw = (case http_text E (rs_body response) of Inl _ \<Rightarrow> [] | Inr t \<Rightarrow> t);
          detail = (case pdns_error_json E raw of Some err \<Rightarrow> pdns_truncate err | None \<Rightarrow> pdns_truncate raw);
          message = PDNS_PROVIDER @ '' '' @ meth @ '' '' @ path @ '' returned '' @ status_display E status @ '': '' @ detail in
      if status = 401 \<or> status = 403 then Auth message else Api message)"

definition pdns_get :: "PowerDnsProvider \<Rightarrow> string \<Rightarrow> (string \<times> string) list \<Rightarrow> PdnsPatch request" where
  "pdns_get self path query =
     \<lparr>rq_method = GET, rq_url = pdns_url self path, rq_query = query,
      rq_headers = [(PDNS_API_KEY_HEADER, pdns_api_key self)], rq_body = None\<rparr>"

definition pdns_fetch_zone ::
  "('r, 'n) pdns_env \<Rightarrow> PowerDnsProvider \<Rightarrow> string \<Rightarrow> (('n, 'z) world_scheme, string option) io" where
  "pdns_fetch_zone E self candidate =
     (let path = pdns_zone_path E self candidate in
      attempt (send E (pdns_get self path [(''rrsets'', ''false'')])) (\<lambda>response.
      let status = rs_status response in
      if status = 404 then done_ok None
      else if \<not> is_success status then fail_with (pdns_check_error E ''GET'' path status response)
      else
        attempt (read_json (pdns_zone_json E) response) (\<lambda>body.
        done_ok (Some (to_ascii_lowercase (trim_end_matches DOT (pdns_zone_name body)))))))"

definition pdns_resolve_zone ::
  "('r, 'n) pdns_env \<Rightarrow> PowerDnsProvider \<Rightarrow> string \<Rightarrow> (('n, 'z) zone_world_scheme, string) io" where
  "pdns_resolve_zone E self fqdn = resolve_by_walk self (pdns_fetch_zone E self) fqdn"

definition pdns_fetch_rrset ::
  "('r, 'n) pdns_env \<Rightarrow> PowerDnsProvider \<Rightarrow> string \<Rightarrow> string \<Rightarrow> (('n, 'z) world_scheme, PdnsRrset option) io" where
  "pdns_fetch_rrset E self zone name =
     (let path = pdns_zone_path E self zone in
      attempt (send E (pdns_get self path [(''rrset_name'', name), (''rrset_type'', ''TXT'')])) (\<lambda>response.
      let status = rs_status response in
      if \<not> is_success status then fail_with (pdns_check_error E ''GET'' path status response)
      else
        attempt (read_json (pdns_rrsets_json E) response) (\<lambda>body.
        done_ok (find (\<lambda>r. eq_ignore_ascii_case (rrset_record_type r) ''TXT'' \<and> eq_ignore_ascii_case (rrset_name r) name)
          (zone_rrsets body)))))"

definition pdns_patch_rrset ::
  "('r, 'n) pdns_env \<Rightarrow> PowerDnsProvider \<Rightarrow> string \<Rightarrow> PdnsRrsetWrite \<Rightarrow> (('n, 'z) world_scheme, unit) io" where
  "pdns_patch_rrset E self zone rrset =
     (let path = pdns_zone_path E self zone; body = \<lparr>patch_rrsets = [rrset]\<rparr> in
      attempt (send E \<lparr>rq_method = PATCH, rq_url = pdns_url self path, rq_query = [],
         rq_headers = [(PDNS_API_KEY_HEADER, pdns_api_key self)], rq_body = Some body\<rparr>) (\<lambda>response.
      let status = rs_status response in
      if \<not> is_success status then fail_with (pdns_check_error E ''PATCH'' path status response)
      else done_ok ()))"

definition owner_name :: "string \<Rightarrow> string" where
  "owner_name fqdn = to_ascii_lowercase (trim_end_matches DOT fqdn) @ ''.''"

section \<open>The provider\<close>

definition pdns_present ::
  "('r, 'n) pdns_env \<Rightarrow> PowerDnsProvider \<Rightarrow> string \<Rightarrow> string \<Rightarrow> (('n, 'z) zone_world_scheme, unit) io" where
  "pdns_present E self fqdn v =
     attempt (from_result (validate_fqdn fqdn)) (\<lambda>_.
     attempt (from_result (validate_acme_value v)) (\<lambda>_.
     attempt (pdns_resolve_zone E self fqdn) (\<lambda>zone.
     attempt (from_result (relative_name (to_ascii_lowercase fqdn) zone)) (\<lambda>rname.
     let name = owner_name fqdn in
     with_lock PDNS_PROVIDER (zone @ ''|'' @ rname) (
     attempt (pdns_fetch_rrset E self zone name) (\<lambda>existing.
     let replace = (\<lambda>t records. pdns_patch_rrset E self zone
           \<lparr>w_name = name, w_record_type = ''TXT'', w_ttl = Some t, w_changetype = ''REPLACE'',
            w_records = Some (records @ [\<lparr>pdns_content = quote_txt v, pdns_disabled = False\<rparr>])\<rparr>) in
     case existing of
       Some rrset \<Rightarrow>
         if list_ex (\<lambda>r. unquote (pdns_content r) = v) (rrset_records rrset) then done_ok ()
         else replace (pdns_rrset_ttl rrset) (rrset_records rrset)
     | None \<Rightarrow> replace (ttl self) []))))))"

definition pdns_cleanup ::
  "('r, 'n) pdns_env \<Rightarrow> PowerDnsProvider \<Rightarrow> string \<Rightarrow> string \<Rightarrow> (('n, 'z) zone_world_scheme, unit) io" where
  "pdns_cleanup E self fqdn v =
     attempt (from_result (validate_fqdn fqdn)) (\<lambda>_.
     attempt (pdns_resolve_zone E self fqdn) (\<lambda>zone.
     attempt (from_result (relative_name (to_ascii_lowercase fqdn) zone)) (\<lambda>rname.
     let name = owner_name fqdn in
     with_lock PDNS_PROVIDER (zone @ ''|'' @ rname) (
     attempt (pdns_fetch_rrset E self zone name) (\<lambda>existing.
     case existing of
       None \<Rightarrow> done_ok ()
     | Some rrset \<Rightarrow>
         let remaining = filter (\<lambda>r. unquote (pdns_content r) \<noteq> v) (rrset_records rrset) in
         if length remaining = length (rrset_records rrset) then done_ok ()
         else
           let rrset_write = (if remaining = []
                 then \<lparr>w_name = name, w_record_type = ''TXT'', w_ttl = None, w_changetype = ''DELETE'', w_records = None\<rparr>
                 else \<lparr>w_name = name, w_record_type = ''TXT'', w_ttl = Some (pdns_rrset_ttl rrset), w_changetype = ''REPLACE'',
                   w_records = Some remaining\<rparr>) in
           pdns_patch_rrset E self zone rrset_write)))))"

definition pdns_provider :: "('r, 'n) pdns_env \<Rightarrow> PowerDnsProvider \<Rightarrow> ('n, 'z) zone_world_scheme DnsProvider" where
  "pdns_provider E self =
     \<lparr>present = pdns_present E self, cleanup = pdns_cleanup E self, provider_timing = PropagationTiming_default\<rparr>"

lemma pdns_provider_simps [simp]:
  "present (pdns_provider E self) = pdns_present E self" "cleanup (pdns_provider E self) = pdns_cleanup E self"
  by (simp_all add: pdns_provider_def)

section \<open>The documented API\<close>

text \<open>
  \<open>known c\<close> is the name of the zone the server has at \<open>c\<close>, if any, and \<open>rr n (zone, name)\<close> is a TXT record set
  with its TTL. A server that does not know the filter of record sets answers with the whole zone. A \<open>PATCH\<close>
  replaces or deletes a record set. Disabled records are kept in a record set without being served.
\<close>

definition is_txt_set :: "string \<Rightarrow> PdnsRrset \<Rightarrow> bool" where
  "is_txt_set nm r \<longleftrightarrow> eq_ignore_ascii_case (rrset_record_type r) ''TXT'' \<and> eq_ignore_ascii_case (rrset_name r) nm"

definition pdns_api ::
  "('r, 'n) pdns_env \<Rightarrow> PowerDnsProvider \<Rightarrow> (string \<rightharpoonup> string) \<Rightarrow> ('n \<Rightarrow> bool) \<Rightarrow>
   ('n \<Rightarrow> string \<times> string \<rightharpoonup> nat \<times> PdnsRecord list) \<Rightarrow> bool" where
  "pdns_api E self known up rr \<longleftrightarrow> idles E up rr \<and>
     (\<forall>c. reads E up rr (pdns_get self (pdns_zone_path E self c) [(''rrsets'', ''false'')]) (\<lambda>s resp.
        (rs_status resp = 404 \<longrightarrow> known c = None) \<and>
        (is_success (rs_status resp) \<longrightarrow> (\<forall>b. pdns_zone_json E (rs_body resp) = Inr b \<longrightarrow>
          known c = Some (to_ascii_lowercase (trim_end_matches DOT (pdns_zone_name b))))))) \<and>
     (\<forall>f z nm. walk_zone self known f = Some z \<longrightarrow>
        reads E up rr (pdns_get self (pdns_zone_path E self z) [(''rrset_name'', nm), (''rrset_type'', ''TXT'')]) (\<lambda>s resp.
        is_success (rs_status resp) \<longrightarrow> (\<forall>b. pdns_rrsets_json E (rs_body resp) = Inr b \<longrightarrow>
          (\<forall>r \<in> set (zone_rrsets b). is_txt_set nm r \<longrightarrow> s (z, nm) = Some (pdns_rrset_ttl r, rrset_records r)) \<and>
          (s (z, nm) \<noteq> None \<longrightarrow> (\<exists>r \<in> set (zone_rrsets b). is_txt_set nm r))))) \<and>
     (\<forall>f z rq b t rs. walk_zone self known f = Some z \<longrightarrow> rq_method rq = PATCH \<longrightarrow>
        rq_url rq = pdns_url self (pdns_zone_path E self z) \<longrightarrow> rq_body rq = Some \<lparr>patch_rrsets = [b]\<rparr> \<longrightarrow>
        w_record_type b = ''TXT'' \<longrightarrow> w_changetype b = ''REPLACE'' \<longrightarrow> w_ttl b = Some t \<longrightarrow> w_records b = Some rs \<longrightarrow> rs \<noteq> [] \<longrightarrow>
        writes E up rr rq (\<lambda>s s'. s' = s((z, w_name b) \<mapsto> (t, rs))) (\<lambda>resp. is_success (rs_status resp))) \<and>
     (\<forall>f z rq b. walk_zone self known f = Some z \<longrightarrow> rq_method rq = PATCH \<longrightarrow>
        rq_url rq = pdns_url self (pdns_zone_path E self z) \<longrightarrow> rq_body rq = Some \<lparr>patch_rrsets = [b]\<rparr> \<longrightarrow>
        w_record_type b = ''TXT'' \<longrightarrow> w_changetype b = ''DELETE'' \<longrightarrow>
        writes E up rr rq (\<lambda>s s'. s' = s((z, w_name b) := None)) (\<lambda>resp. is_success (rs_status resp)))"













section \<open>A server\<close>

record pdns_answer =
  ans_pdns_zone :: PdnsZone
  ans_rrsets :: PdnsZoneRrsets

definition pdns_server ::
  "PdnsPatch request \<Rightarrow> (string \<times> string \<rightharpoonup> nat \<times> PdnsRecord list) \<Rightarrow>
   (reqwest_error + pdns_answer response) \<times> (string \<times> string \<rightharpoonup> nat \<times> PdnsRecord list)" where
  "pdns_server rq n =
     (let body = (\<lambda>sets. \<lparr>ans_pdns_zone = \<lparr>pdns_zone_name = ''A.org.''\<rparr>, ans_rrsets = \<lparr>zone_rrsets = sets\<rparr>\<rparr>) in
      case (rq_method rq, rq_body rq) of
        (PATCH, Some p) \<Rightarrow>
          (case patch_rrsets p of
             [b] \<Rightarrow>
               if w_changetype b = ''DELETE'' then (answer 204 (body []), n((''a.org'', w_name b) := None))
               else (answer 204 (body []), n((''a.org'', w_name b) \<mapsto> (the (w_ttl b), the (w_records b))))
           | _ \<Rightarrow> (answer 422 (body []), n))
      | _ \<Rightarrow>
          (case map_of (rq_query rq) ''rrset_name'' of
             Some nm \<Rightarrow>
               (answer 200 (body (case n (''a.org'', nm) of
                  Some (t, rs) \<Rightarrow> [\<lparr>rrset_name = nm, rrset_record_type = ''TXT'', pdns_rrset_ttl = t, rrset_records = rs\<rparr>]
                | None \<Rightarrow> [])), n)
           | None \<Rightarrow>
               (answer (if rq_url rq = ''api/servers/localhost/zones/a.org.'' then 200 else 404) (body []), n)))"

definition demo_pdns :: "(pdns_answer, string \<times> string \<rightharpoonup> nat \<times> PdnsRecord list) pdns_env" where
  "demo_pdns = api_around pdns_server (\<lambda>_. False)
     (pdns_env.fields (\<lambda>b. Inr (ans_pdns_zone b)) (\<lambda>b. Inr (ans_rrsets b)) (\<lambda>_. None))"

definition demo_pdns_provider :: PowerDnsProvider where
  "demo_pdns_provider = \<lparr>api_base = ''api'', zone_override = None, ttl = 2, cfg_timeout = 1, pdns_api_key = ''k'',
     server_id = ''localhost''\<rparr>"

definition demo_pdns_world :: "bool \<Rightarrow> (string \<times> string \<rightharpoonup> nat \<times> PdnsRecord list) zone_world" where
  "demo_pdns_world off =
     \<lparr>RESOLVER = None, net = [(''a.org'', ''_acme-challenge.a.org.'') \<mapsto> (5, [\<lparr>pdns_content = quote_txt ''other'', pdns_disabled = off\<rparr>])],
      zone_cache = Map.empty\<rparr>"


lemma demo_pdns_sel:
  "http_send demo_pdns = pdns_server" "idles demo_pdns up view" "encode_path demo_pdns s = s"
  "pdns_zone_json demo_pdns = (\<lambda>b. Inr (ans_pdns_zone b))" "pdns_rrsets_json demo_pdns = (\<lambda>b. Inr (ans_rrsets b))"
  by (simp_all add: demo_pdns_def api_around_def pdns_env.defs encode_path_def idles_def)

lemma demo_pdns_api: "pdns_api demo_pdns demo_pdns_provider [''a.org'' \<mapsto> ''a.org''] (\<lambda>_. True) (\<lambda>n. n)"
proof -
  have zone: "walk_zone demo_pdns_provider [''a.org'' \<mapsto> ''a.org''] f = Some z \<Longrightarrow> z = ''a.org''" for f z
    by (simp add: walk_zone_def demo_pdns_provider_def walked_def first_known_single split: if_splits)
  have lower: "to_ascii_lowercase (trim_end_matches DOT ''A.org.'') = ''a.org''" by code_simp
  have url: "pdns_url demo_pdns_provider (pdns_zone_path demo_pdns demo_pdns_provider c) = ''api/servers/localhost/zones/a.org.'' \<longleftrightarrow>
      c = ''a.org''" for c
    by (simp add: pdns_url_def pdns_zone_path_def demo_pdns_provider_def demo_pdns_sel)
  show ?thesis
    unfolding pdns_api_def
  proof (intro conjI allI impI)
    fix c
    show "reads demo_pdns (\<lambda>_. True) (\<lambda>n. n) (pdns_get demo_pdns_provider (pdns_zone_path demo_pdns demo_pdns_provider c)
        [(''rrsets'', ''false'')]) (\<lambda>s resp.
        (rs_status resp = 404 \<longrightarrow> [''a.org'' \<mapsto> ''a.org''] c = None) \<and>
        (is_success (rs_status resp) \<longrightarrow> (\<forall>b. pdns_zone_json demo_pdns (rs_body resp) = Inr b \<longrightarrow>
          [''a.org'' \<mapsto> ''a.org''] c = Some (to_ascii_lowercase (trim_end_matches DOT (pdns_zone_name b))))))"
      unfolding reads_def demo_pdns_sel pdns_server_def pdns_get_def
      by (auto simp: answer_def Let_def lower is_success_def url [simplified] split: if_splits)
  qed (auto dest!: zone simp: reads_def writes_def demo_pdns_sel pdns_server_def pdns_get_def answer_def Let_def
      is_txt_set_def eq_ignore_ascii_case_def split: option.splits if_splits)
qed



text \<open>The values a name server answers with: those of the records that are not disabled.\<close>

definition pdns_served ::
  "(string \<times> string \<rightharpoonup> nat \<times> PdnsRecord list) \<Rightarrow> string \<times> string \<Rightarrow> string set" where
  "pdns_served s u = (case s u of None \<Rightarrow> {} | Some (t, rs) \<Rightarrow> (\<lambda>r. unquote (pdns_content r)) ` set (filter (\<lambda>r. \<not> pdns_disabled r) rs))"

text \<open>On a server with the documented behaviour whose record set holds the value only in a disabled record,
  \<open>present\<close> returns \<open>Ok\<close> and the value is still not served.\<close>

theorem pdns_present_keeps_disabled:
  "pdns_api demo_pdns demo_pdns_provider [''a.org'' \<mapsto> ''a.org''] (\<lambda>_. True) (\<lambda>n. n) \<and>
   fst (pdns_present demo_pdns demo_pdns_provider ''_acme-challenge.a.org'' ''other'' (demo_pdns_world True)) = Inr () \<and>
   pdns_served (net (snd (pdns_present demo_pdns demo_pdns_provider ''_acme-challenge.a.org'' ''other'' (demo_pdns_world True))))
     (''a.org'', ''_acme-challenge.a.org.'') = {}"
proof (intro conjI demo_pdns_api)
  show "fst (pdns_present demo_pdns demo_pdns_provider ''_acme-challenge.a.org'' ''other'' (demo_pdns_world True)) = Inr ()"
    by code_simp
  show "pdns_served (net (snd (pdns_present demo_pdns demo_pdns_provider ''_acme-challenge.a.org'' ''other'' (demo_pdns_world True))))
      (''a.org'', ''_acme-challenge.a.org.'') = {}" by code_simp
qed

end
