(* ===== verification/Infomaniak.thy ===== *)
theory Infomaniak
  imports Record_Kit Zone_Walk Provider_Config
begin

text \<open>
  The Infomaniak provider (\<open>providers/infomaniak.rs\<close>): single TXT records with an id, listed in pages for the
  whole zone, in zones found by a walk over the suffixes of the name.
\<close>

section \<open>Configuration\<close>

definition INFOMANIAK_API_BASE :: string where
  "INFOMANIAK_API_BASE = ''https://api.infomaniak.com''"

definition IK_ENV_TOKEN :: string where
  "IK_ENV_TOKEN = ''INFOMANIAK_ACCESS_TOKEN''"

definition IK_DEFAULT_TTL :: nat where
  "IK_DEFAULT_TTL = 300"

definition IK_PROVIDER :: string where
  "IK_PROVIDER = ''infomaniak''"

definition ALREADY_EXISTS :: string where
  "ALREADY_EXISTS = ''dns_record_already_exists''"

definition IK_MAX_PAGES :: nat where
  "IK_MAX_PAGES = 100"

record IkError =
  ik_code :: "string option"
  ik_description :: "string option"

record 'a IkEnvelope =
  ik_result :: string
  ik_data :: "'a option"
  ik_error :: "IkError option"
  ik_pages :: "nat option"

record IkZone =
  ik_fqdn :: string

record IkRecord =
  ik_id :: nat
  ik_source :: string
  ik_record_type :: string
  ik_target :: string

record IkRecordWrite =
  ikw_source :: string
  ikw_record_type :: string
  ikw_target :: string
  ikw_ttl :: nat

text \<open>
  The unit value stands for JSON data that is never looked at. \<open>ik_text_json\<close> decodes an envelope from the text
  of an error response.
\<close>

record ('r, 'n) ik_env = "(IkRecordWrite, 'r, 'n) api_env" +
  ik_zone_json :: "'r \<Rightarrow> reqwest_error + IkZone IkEnvelope"
  ik_records_json :: "'r \<Rightarrow> reqwest_error + IkRecord list IkEnvelope"
  ik_value_json :: "'r \<Rightarrow> reqwest_error + unit IkEnvelope"
  ik_text_json :: "string \<Rightarrow> unit IkEnvelope option"

record InfomaniakConfig = api_config +
  access_token :: string

type_synonym InfomaniakProvider = InfomaniakConfig

definition InfomaniakConfig_new :: "string \<Rightarrow> InfomaniakConfig" where
  "InfomaniakConfig_new secret =
     \<lparr>api_base = INFOMANIAK_API_BASE, zone_override = None, ttl = IK_DEFAULT_TTL, cfg_timeout = HTTP_TIMEOUT,
      access_token = secret\<rparr>"

definition ik_with_api_base :: "('r, 'n) ik_env \<Rightarrow> string \<Rightarrow> InfomaniakConfig \<Rightarrow> InfomaniakConfig result" where
  "ik_with_api_base E base config = set_api_base E IK_PROVIDER base config"

definition ik_with_zone :: "string \<Rightarrow> InfomaniakConfig \<Rightarrow> InfomaniakConfig result" where
  "ik_with_zone zone config = set_zone zone config"

definition ik_with_ttl :: "nat \<Rightarrow> InfomaniakConfig \<Rightarrow> InfomaniakConfig result" where
  "ik_with_ttl t config = set_ttl 60 86400 t config"

definition ik_with_timeout :: "duration \<Rightarrow> InfomaniakConfig \<Rightarrow> InfomaniakConfig" where
  "ik_with_timeout t config = config\<lparr>cfg_timeout := t\<rparr>"

interpretation ik_config: config_builder "url_parse E" IK_PROVIDER "60" "86400" "InfomaniakConfig_new t" "ik_with_api_base E"
  ik_with_zone ik_with_ttl ik_with_timeout for E :: "('r, 'n) ik_env" and t
  by unfold_locales
    (auto simp: ik_with_api_base_def ik_with_zone_def ik_with_ttl_def ik_with_timeout_def InfomaniakConfig_new_def IK_DEFAULT_TTL_def builder_simps)

definition InfomaniakProvider_new :: "('r, 'n) ik_env \<Rightarrow> InfomaniakConfig \<Rightarrow> InfomaniakProvider result" where
  "InfomaniakProvider_new E config =
     and_then (build_client E (cfg_timeout config) CONNECT_TIMEOUT) (\<lambda>_. Inr config)"

definition ik_from_env :: "('r, 'n) ik_env \<Rightarrow> InfomaniakProvider result" where
  "ik_from_env E =
     and_then (required_var E IK_ENV_TOKEN) (\<lambda>secret. InfomaniakProvider_new E (InfomaniakConfig_new secret))"

section \<open>The API calls\<close>

definition ik_zone_path :: "('r, 'n) ik_env \<Rightarrow> string \<Rightarrow> string" where
  "ik_zone_path E zone = ''/2/zones/'' @ encode_path E zone"

definition ik_records_path :: "('r, 'n) ik_env \<Rightarrow> string \<Rightarrow> string" where
  "ik_records_path E zone = ''/2/zones/'' @ encode_path E zone @ ''/records''"

definition ik_record_path :: "('r, 'n) ik_env \<Rightarrow> string \<Rightarrow> nat \<Rightarrow> string" where
  "ik_record_path E zone record_id = ''/2/zones/'' @ encode_path E zone @ ''/records/'' @ show_nat record_id"

definition ik_url :: "InfomaniakProvider \<Rightarrow> string \<Rightarrow> string" where
  "ik_url self path = api_base self @ path"

definition ik_error_display :: "IkError \<Rightarrow> string" where
  "ik_error_display e =
     (case ik_code e of None \<Rightarrow> ''unknown'' | Some c \<Rightarrow> c) @ '' ('' @
     (case ik_description e of None \<Rightarrow> [] | Some d \<Rightarrow> d) @ '')''"

definition into_data :: "string \<Rightarrow> string \<Rightarrow> 'a IkEnvelope \<Rightarrow> 'a result" where
  "into_data meth path env =
     (if ik_result env \<noteq> ''success''
      then Inl (Api (IK_PROVIDER @ '' '' @ meth @ '' '' @ path @ '': result '' @ ik_result env @ '': '' @
        (case ik_error env of Some e \<Rightarrow> ik_error_display e | None \<Rightarrow> ''no error details'')))
      else ok_or (Api (IK_PROVIDER @ '' '' @ meth @ '' '' @ path @ '': missing data'')) (ik_data env))"

definition error_code :: "'a IkEnvelope \<Rightarrow> string option" where
  "error_code env = Option.bind (ik_error env) ik_code"

definition same_source :: "string \<Rightarrow> string \<Rightarrow> bool" where
  "same_source source rname =
     (let source = trim_end_matches DOT source in
      if rname = ''@'' then source = [] \<or> source = ''@''
      else eq_ignore_ascii_case source rname)"

definition ik_truncate :: "string \<Rightarrow> string" where
  "ik_truncate raw =
     (if length raw \<le> 512 then raw else take (floor_boundary raw 512) raw @ TRUNCATED)"

definition ik_get :: "InfomaniakProvider \<Rightarrow> string \<Rightarrow> (string \<times> string) list \<Rightarrow> IkRecordWrite request" where
  "ik_get self path query =
     \<lparr>rq_method = GET, rq_url = ik_url self path, rq_query = query, rq_headers = [bearer (access_token self)], rq_body = None\<rparr>"

definition ik_fetch_zone ::
  "('r, 'n) ik_env \<Rightarrow> InfomaniakProvider \<Rightarrow> string \<Rightarrow> (('n, 'z) world_scheme, string option) io" where
  "ik_fetch_zone E self candidate =
     (let path = ik_zone_path E candidate in
      attempt (send E (ik_get self path [])) (\<lambda>response.
      let status = rs_status response in
      if status = 404 then done_ok None
      else if \<not> is_success status then fail_with (api_error E IK_PROVIDER ''GET'' path status response)
      else
        attempt (read_json (ik_zone_json E) response) (\<lambda>body.
        attempt (from_result (into_data ''GET'' path body)) (\<lambda>zone.
        done_ok (Some (to_ascii_lowercase (trim_end_matches DOT (ik_fqdn zone))))))))"

definition ik_resolve_zone ::
  "('r, 'n) ik_env \<Rightarrow> InfomaniakProvider \<Rightarrow> string \<Rightarrow> (('n, 'z) zone_world_scheme, string) io" where
  "ik_resolve_zone E self fqdn = resolve_by_walk self (ik_fetch_zone E self) fqdn"

definition ik_list_request :: "('r, 'n) ik_env \<Rightarrow> InfomaniakProvider \<Rightarrow> string \<Rightarrow> nat \<Rightarrow> IkRecordWrite request" where
  "ik_list_request E self zone page =
     ik_get self (ik_records_path E zone) [(''filter[types][]'', ''TXT''), (''page'', show_nat page)]"

definition ik_fetch_page ::
  "('r, 'n) ik_env \<Rightarrow> InfomaniakProvider \<Rightarrow> string \<Rightarrow> string \<Rightarrow> nat \<Rightarrow>
   (('n, 'z) world_scheme, IkRecord list \<times> DnsError option) io" where
  "ik_fetch_page E self zone rname page =
     (let path = ik_records_path E zone in
      attempt (send E (ik_list_request E self zone page)) (\<lambda>response.
      let status = rs_status response in
      if \<not> is_success status then fail_with (api_error E IK_PROVIDER ''GET'' path status response)
      else
        attempt (read_json (ik_records_json E) response) (\<lambda>body.
        let pages = (case ik_pages body of Some k \<Rightarrow> k | None \<Rightarrow> 1) in
        attempt (from_result (into_data ''GET'' path body)) (\<lambda>records.
        done_ok (filter (\<lambda>r. same_source (ik_source r) rname)
              (filter (\<lambda>r. eq_ignore_ascii_case (ik_record_type r) ''TXT'') records),
          if pages \<le> page then None
          else Some (Api (IK_PROVIDER @ '' GET '' @ path @ '': TXT listing has '' @ show_nat pages @
            '' pages, more than the '' @ show_nat IK_MAX_PAGES @ '' read'')))))))"

definition ik_list_txt_records ::
  "('r, 'n) ik_env \<Rightarrow> InfomaniakProvider \<Rightarrow> string \<Rightarrow> string \<Rightarrow> (('n, 'z) world_scheme, IkRecord list) io" where
  "ik_list_txt_records E self zone rname = page_loop IK_MAX_PAGES (ik_fetch_page E self zone rname) [] 1"

definition ik_create_record ::
  "('r, 'n) ik_env \<Rightarrow> InfomaniakProvider \<Rightarrow> string \<Rightarrow> string \<Rightarrow> string \<Rightarrow> (('n, 'z) world_scheme, unit) io" where
  "ik_create_record E self zone rname v =
     (let path = ik_records_path E zone;
          source = (if rname = ''@'' then ''.'' else rname);
          body = \<lparr>ikw_source = source, ikw_record_type = ''TXT'', ikw_target = v, ikw_ttl = ttl self\<rparr> in
      attempt (send E \<lparr>rq_method = POST, rq_url = ik_url self path, rq_query = [],
         rq_headers = [bearer (access_token self)], rq_body = Some body\<rparr>) (\<lambda>response.
      let status = rs_status response in
      if \<not> is_success status
      then
        (let raw = (case http_text E (rs_body response) of Inl _ \<Rightarrow> [] | Inr t \<Rightarrow> t) in
         if (case ik_text_json E raw of Some err \<Rightarrow> error_code err = Some ALREADY_EXISTS | None \<Rightarrow> False)
         then done_ok ()
         else fail_with (Api (IK_PROVIDER @ '' POST '' @ path @ '' returned '' @ status_display E status @ '': '' @ ik_truncate raw)))
      else
        attempt (read_json (ik_value_json E) response) (\<lambda>body.
        attempt (from_result (into_data ''POST'' path body)) (\<lambda>_.
        done_ok ()))))"

definition ik_delete_record ::
  "('r, 'n) ik_env \<Rightarrow> InfomaniakProvider \<Rightarrow> string \<Rightarrow> nat \<Rightarrow> (('n, 'z) world_scheme, unit) io" where
  "ik_delete_record E self zone record_id =
     (let path = ik_record_path E zone record_id in
      attempt (send E \<lparr>rq_method = DELETE, rq_url = ik_url self path, rq_query = [],
         rq_headers = [bearer (access_token self)], rq_body = None\<rparr>) (\<lambda>response.
      let status = rs_status response in
      if status = 404 then done_ok ()
      else if \<not> is_success status then fail_with (api_error E IK_PROVIDER ''DELETE'' path status response)
      else
        attempt (read_json (ik_value_json E) response) (\<lambda>body.
        attempt (from_result (into_data ''DELETE'' path body)) (\<lambda>_.
        done_ok ()))))"

section \<open>The provider\<close>

definition ik_present ::
  "('r, 'n) ik_env \<Rightarrow> InfomaniakProvider \<Rightarrow> string \<Rightarrow> string \<Rightarrow> (('n, 'z) zone_world_scheme, unit) io" where
  "ik_present E self fqdn v =
     attempt (from_result (validate_fqdn fqdn)) (\<lambda>_.
     attempt (from_result (validate_acme_value v)) (\<lambda>_.
     attempt (ik_resolve_zone E self fqdn) (\<lambda>zone.
     attempt (from_result (relative_name (to_ascii_lowercase fqdn) zone)) (\<lambda>rname.
     with_lock IK_PROVIDER (zone @ ''|'' @ rname) (
     attempt (ik_list_txt_records E self zone rname) (\<lambda>existing.
     if list_ex (\<lambda>r. unquote (ik_target r) = v) existing then done_ok ()
     else ik_create_record E self zone rname v))))))"

definition ik_cleanup ::
  "('r, 'n) ik_env \<Rightarrow> InfomaniakProvider \<Rightarrow> string \<Rightarrow> string \<Rightarrow> (('n, 'z) zone_world_scheme, unit) io" where
  "ik_cleanup E self fqdn v =
     attempt (from_result (validate_fqdn fqdn)) (\<lambda>_.
     attempt (ik_resolve_zone E self fqdn) (\<lambda>zone.
     attempt (from_result (relative_name (to_ascii_lowercase fqdn) zone)) (\<lambda>rname.
     with_lock IK_PROVIDER (zone @ ''|'' @ rname) (
     attempt (ik_list_txt_records E self zone rname) (
     try_for (\<lambda>r. if unquote (ik_target r) = v then ik_delete_record E self zone (ik_id r) else done_ok ()))))))"

definition ik_provider :: "('r, 'n) ik_env \<Rightarrow> InfomaniakProvider \<Rightarrow> ('n, 'z) zone_world_scheme DnsProvider" where
  "ik_provider E self =
     \<lparr>present = ik_present E self, cleanup = ik_cleanup E self, provider_timing = PropagationTiming_default\<rparr>"

lemma ik_provider_simps [simp]:
  "present (ik_provider E self) = ik_present E self" "cleanup (ik_provider E self) = ik_cleanup E self"
  by (simp_all add: ik_provider_def)

section \<open>The documented API\<close>

text \<open>
  \<open>rr n (zone, id)\<close> is a TXT record: its zone and relative name, with \<open>@\<close> for the apex, and its target. The
  record sources the API reports are relative names in any case, with or without a trailing dot, and \<open>.\<close>, \<open>@\<close>
  or nothing for the apex. \<open>parts s zone\<close> are the pages of the TXT listing of a zone. \<open>POST\<close> creates a record
  whose target comes back quoted, or reports that the record exists; \<open>DELETE\<close> removes the record of its URL.
\<close>

definition ik_source_name :: "string \<Rightarrow> string" where
  "ik_source_name source =
     (let name = trim_end_matches DOT source in if name = [] then ''@'' else to_ascii_lowercase name)"

definition ik_txt_at :: "string \<Rightarrow> IkRecord \<Rightarrow> bool" where
  "ik_txt_at nm x \<longleftrightarrow> eq_ignore_ascii_case (ik_record_type x) ''TXT'' \<and> ik_source_name (ik_source x) = nm"

definition ik_api ::
  "('r, 'n) ik_env \<Rightarrow> InfomaniakProvider \<Rightarrow> (string \<rightharpoonup> string) \<Rightarrow> ('n \<Rightarrow> bool) \<Rightarrow>
   ('n \<Rightarrow> string \<times> nat \<rightharpoonup> (string \<times> string) \<times> string) \<Rightarrow>
   ((string \<times> nat \<rightharpoonup> (string \<times> string) \<times> string) \<Rightarrow> string \<Rightarrow> IkRecord list list) \<Rightarrow> bool" where
  "ik_api E self known up rr parts \<longleftrightarrow> idles E up rr \<and>
     (\<forall>c. reads E up rr (ik_get self (ik_zone_path E c) []) (\<lambda>s resp.
        (rs_status resp = 404 \<longrightarrow> known c = None) \<and>
        (is_success (rs_status resp) \<longrightarrow> (\<forall>b x. ik_zone_json E (rs_body resp) = Inr b \<longrightarrow> ik_result b = ''success'' \<longrightarrow>
          ik_data b = Some x \<longrightarrow> known c = Some (to_ascii_lowercase (trim_end_matches DOT (ik_fqdn x))))))) \<and>
     (\<forall>f z p. walk_zone self known f = Some z \<longrightarrow> reads E up rr (ik_list_request E self z (Suc p)) (\<lambda>s resp.
        is_success (rs_status resp) \<longrightarrow> (\<forall>b xs. ik_records_json E (rs_body resp) = Inr b \<longrightarrow> ik_result b = ''success'' \<longrightarrow>
          ik_data b = Some xs \<longrightarrow>
          xs = (if p < length (parts s z) then parts s z ! p else []) \<and>
          (case ik_pages b of Some k \<Rightarrow> k = length (parts s z) | None \<Rightarrow> length (parts s z) \<le> 1) \<and>
          (\<forall>nm. listed fst snd (\<lambda>x. (z, ik_id x)) ik_target (z, nm) s (filter (ik_txt_at nm) (concat (parts s z))))))) \<and>
     (\<forall>f z rq b. walk_zone self known f = Some z \<longrightarrow> rq_method rq = POST \<longrightarrow> rq_url rq = ik_url self (ik_records_path E z) \<longrightarrow>
        rq_body rq = Some b \<longrightarrow> ikw_record_type b = ''TXT'' \<longrightarrow>
        writes E up rr rq (\<lambda>s s'. creates ((z, ik_source_name (ikw_source b)), quote_txt (ikw_target b)) s s' \<or>
            s' = s \<and> (\<exists>i. s i = Some ((z, ik_source_name (ikw_source b)), quote_txt (ikw_target b))))
          (\<lambda>resp. if is_success (rs_status resp) then \<exists>e. ik_value_json E (rs_body resp) = Inr e \<and> ik_result e = ''success''
             else \<exists>raw e. http_text E (rs_body resp) = Inr raw \<and> ik_text_json E raw = Some e \<and> error_code e = Some ALREADY_EXISTS)) \<and>
     (\<forall>f z i rq. walk_zone self known f = Some z \<longrightarrow> rq_method rq = DELETE \<longrightarrow> rq_url rq = ik_url self (ik_record_path E z i) \<longrightarrow>
        writes E up rr rq (\<lambda>s s'. s' = s((z, i) := None))
          (\<lambda>resp. rs_status resp = 404 \<or> is_success (rs_status resp) \<and>
             (\<exists>e. ik_value_json E (rs_body resp) = Inr e \<and> ik_result e = ''success''))) \<and>
     ik_text_json E [] = None"

lemma ik_apiD:
  assumes "ik_api E self known up rr parts"
  shows "idles E up rr" "ik_text_json E [] = None"
    "reads E up rr (ik_get self (ik_zone_path E c) []) (\<lambda>s resp.
        (rs_status resp = 404 \<longrightarrow> known c = None) \<and>
        (is_success (rs_status resp) \<longrightarrow> (\<forall>b x. ik_zone_json E (rs_body resp) = Inr b \<longrightarrow> ik_result b = ''success'' \<longrightarrow>
          ik_data b = Some x \<longrightarrow> known c = Some (to_ascii_lowercase (trim_end_matches DOT (ik_fqdn x))))))"
    "walk_zone self known f = Some z \<Longrightarrow> reads E up rr (ik_list_request E self z (Suc p)) (\<lambda>s resp.
        is_success (rs_status resp) \<longrightarrow> (\<forall>b xs. ik_records_json E (rs_body resp) = Inr b \<longrightarrow> ik_result b = ''success'' \<longrightarrow>
          ik_data b = Some xs \<longrightarrow>
          xs = (if p < length (parts s z) then parts s z ! p else []) \<and>
          (case ik_pages b of Some k \<Rightarrow> k = length (parts s z) | None \<Rightarrow> length (parts s z) \<le> 1) \<and>
          (\<forall>nm. listed fst snd (\<lambda>x. (z, ik_id x)) ik_target (z, nm) s (filter (ik_txt_at nm) (concat (parts s z))))))"
    "walk_zone self known f = Some z \<Longrightarrow> rq_method rq = POST \<Longrightarrow> rq_url rq = ik_url self (ik_records_path E z) \<Longrightarrow>
        rq_body rq = Some b \<Longrightarrow> ikw_record_type b = ''TXT'' \<Longrightarrow>
        writes E up rr rq (\<lambda>s s'. creates ((z, ik_source_name (ikw_source b)), quote_txt (ikw_target b)) s s' \<or>
            s' = s \<and> (\<exists>i. s i = Some ((z, ik_source_name (ikw_source b)), quote_txt (ikw_target b))))
          (\<lambda>resp. if is_success (rs_status resp) then \<exists>e. ik_value_json E (rs_body resp) = Inr e \<and> ik_result e = ''success''
             else \<exists>raw e. http_text E (rs_body resp) = Inr raw \<and> ik_text_json E raw = Some e \<and> error_code e = Some ALREADY_EXISTS)"
    "walk_zone self known f = Some z \<Longrightarrow> rq_method rq = DELETE \<Longrightarrow> rq_url rq = ik_url self (ik_record_path E z i) \<Longrightarrow>
        writes E up rr rq (\<lambda>s s'. s' = s((z, i) := None))
          (\<lambda>resp. rs_status resp = 404 \<or> is_success (rs_status resp) \<and>
             (\<exists>e. ik_value_json E (rs_body resp) = Inr e \<and> ik_result e = ''success''))"
  using assms unfolding ik_api_def by blast+

definition ik_values ::
  "(string \<times> nat \<rightharpoonup> (string \<times> string) \<times> string) \<Rightarrow> (string \<times> string) option \<Rightarrow> string set" where
  "ik_values = held fst (\<lambda>r. unquote (snd r))"

definition ik_owner :: "InfomaniakProvider \<Rightarrow> (string \<rightharpoonup> string) \<Rightarrow> string \<Rightarrow> (string \<times> string) option" where
  "ik_owner self known f = owner Pair (walk_zone self known f) (to_ascii_lowercase f)"

lemma into_data_Inr [simp]: "into_data m p env = Inr x \<longleftrightarrow> ik_result env = ''success'' \<and> ik_data env = Some x"
  by (simp add: into_data_def)

lemma same_source_name:
  assumes "rn \<noteq> []" "to_ascii_lowercase rn = rn"
  shows "same_source src rn \<longleftrightarrow> ik_source_name src = rn"
  using assms lower_eq_at [of "trim_end_matches DOT src"]
  by (auto simp: same_source_def ik_source_name_def eq_ignore_ascii_case_def Let_def)

lemma ik_fetch_zone_observes:
  assumes "ik_api E self known up rr parts" "net_free C"
  shows "observes (online up C) (\<lambda>w. rr (net w)) S (ik_fetch_zone E self c) (\<lambda>_ x. x = known c)"
  unfolding ik_fetch_zone_def Let_def
  by (rule observes_attempt [OF observes_send [OF ik_apiD(1,3) [OF assms(1)] assms(2)]], intro editing) auto

lemma ik_resolve:
  assumes "ik_api E self known up rr parts"
  shows "observes (online up (walk_cached known)) (\<lambda>w. rr (net w)) S (ik_resolve_zone E self f)
    (\<lambda>_ z. walk_zone self known f = Some z)"
  unfolding ik_resolve_zone_def
  by (intro resolve_by_walk_observes ik_fetch_zone_observes [OF assms] net_free_walk_cached)

lemma ik_page:
  fixes E :: "('r, 'n) ik_env"
  assumes "ik_api E self known up rr parts" "walk_zone self known f = Some z" "net_free C" and rn: "rn \<noteq> []" "to_ascii_lowercase rn = rn"
  shows "observes (online up C) (\<lambda>w. rr (net w)) S (ik_fetch_page E self z rn (Suc p)) (\<lambda>s got.
    filter (ik_txt_at rn) (concat (take (Suc p) (parts s z))) = filter (ik_txt_at rn) (concat (take p (parts s z))) @ fst got \<and>
    (snd got = None \<longrightarrow> filter (ik_txt_at rn) (concat (take (Suc p) (parts s z))) = filter (ik_txt_at rn) (concat (parts s z))) \<and>
    listed fst snd (\<lambda>x. (z, ik_id x)) ik_target (z, rn) s (filter (ik_txt_at rn) (concat (parts s z))))"
proof -
  have match: "filter (\<lambda>r. same_source (ik_source r) rn) (filter (\<lambda>r. eq_ignore_ascii_case (ik_record_type r) ''TXT'') xs) =
      filter (ik_txt_at rn) xs" for xs
    by (auto simp: ik_txt_at_def same_source_name [OF rn] intro!: filter_cong)
  show ?thesis
    unfolding ik_fetch_page_def Let_def match
    by (rule observes_attempt [OF observes_send [OF ik_apiD(1) [OF assms(1)] ik_apiD(4) [OF assms(1,2)] assms(3)]], intro editing)
      (auto simp: take_Suc_conv_app_nth pages_end split: option.splits if_splits)
qed

lemma ik_list:
  assumes "ik_api E self known up rr parts" "walk_zone self known f = Some z" "net_free C"
    and "rn \<noteq> []" "to_ascii_lowercase rn = rn"
  shows "observes (online up C) (\<lambda>w. rr (net w)) S (ik_list_txt_records E self z rn)
    (listed fst (\<lambda>r. unquote (snd r)) (\<lambda>x. (z, ik_id x)) (\<lambda>x. unquote (ik_target x)) (z, rn))"
  unfolding ik_list_txt_records_def One_nat_def
  by (rule observes_weaken [OF page_loop_observes [where S = S and first = "\<lambda>p s. filter (ik_txt_at rn) (concat (take p (parts s z)))"
        and whole = "\<lambda>s. filter (ik_txt_at rn) (concat (parts s z))", OF ik_page [OF assms]]])
    (auto simp: listed_map [where g = unquote])

lemma ik_create:
  assumes "ik_api E self known up rr parts" "walk_zone self known f = Some z" "net_free C"
    and rn: "rn \<noteq> []" "to_ascii_lowercase rn = rn" "trim_end_matches DOT rn = rn"
  shows "stores (online up C) (\<lambda>w. rr (net w)) (ik_create_record E self z rn v) (adds fst (\<lambda>r. unquote (snd r)) (z, rn) v)"
proof -
  let ?b = "\<lparr>ikw_source = (if rn = ''@'' then ''.'' else rn), ikw_record_type = ''TXT'', ikw_target = v, ikw_ttl = ttl self\<rparr>"
  let ?rq = "\<lparr>rq_method = POST, rq_url = ik_url self (ik_records_path E z), rq_query = [],
    rq_headers = [bearer (access_token self)], rq_body = Some ?b\<rparr>"
  let ?ok = "\<lambda>resp. if is_success (rs_status resp) then \<exists>e. ik_value_json E (rs_body resp) = Inr e \<and> ik_result e = ''success''
    else \<exists>raw e. http_text E (rs_body resp) = Inr raw \<and> ik_text_json E raw = Some e \<and> error_code e = Some ALREADY_EXISTS"
  have "trim_end_matches DOT ''.'' = []" by (simp add: trim_end_matches_def)
  then have "ik_source_name (ikw_source ?b) = rn" using rn by (simp add: ik_source_name_def Let_def)
  then have law: "writes E up rr ?rq (\<lambda>s s'. creates ((z, rn), quote_txt v) s s' \<or> s' = s \<and> (\<exists>i. s i = Some ((z, rn), quote_txt v))) ?ok"
    using ik_apiD(5) [OF assms(1,2), of ?rq ?b] by simp
  show ?thesis
    unfolding ik_create_record_def Let_def
  proof (rule stores_adds [OF ik_apiD(1) [OF assms(1)] law assms(3)])
    fix s s'
    assume "creates ((z, rn), quote_txt v) s s' \<or> s' = s \<and> (\<exists>i. s i = Some ((z, rn), quote_txt v))"
    then show "adds fst (\<lambda>r. unquote (snd r)) (z, rn) v s s'"
    proof
      assume "creates ((z, rn), quote_txt v) s s'"
      from adds_creates [OF this, of fst "\<lambda>r. unquote (snd r)"] show ?thesis by simp
    next
      assume "s' = s \<and> (\<exists>i. s i = Some ((z, rn), quote_txt v))"
      then show ?thesis by (auto intro!: adds_present simp: held_def) (metis unquote_quote_txt snd_conv fst_conv)
    qed
  qed (use ik_apiD(2) [OF assms(1)] in \<open>auto simp: read_json_def attempt_def split: if_splits sum.splits prod.splits option.splits\<close>)
qed

lemma ik_delete:
  assumes "ik_api E self known up rr parts" "walk_zone self known f = Some z" "net_free C"
  shows "stores (online up C) (\<lambda>w. rr (net w)) (ik_delete_record E self z i) (\<lambda>s s'. s' = s((z, i) := None))"
proof -
  let ?rq = "\<lparr>rq_method = DELETE, rq_url = ik_url self (ik_record_path E z i), rq_query = [],
    rq_headers = [bearer (access_token self)], rq_body = None\<rparr>"
  have "writes E up rr ?rq (\<lambda>s s'. s' = s((z, i) := None)) (\<lambda>resp. rs_status resp = 404 \<or> is_success (rs_status resp) \<and>
      (\<exists>e. ik_value_json E (rs_body resp) = Inr e \<and> ik_result e = ''success''))"
    using ik_apiD(6) [OF assms(1,2), of ?rq i] by simp
  then show ?thesis
    unfolding ik_delete_record_def Let_def
    by (rule stores_send [OF ik_apiD(1) [OF assms(1)] _ assms(3)])
      (auto simp: read_json_def attempt_def split: if_splits sum.splits prod.splits)
qed

lemma ik_present_edits:
  assumes "ik_api E self known up rr parts"
  shows "edits (online up (walk_cached known)) (\<lambda>w. rr (net w)) ik_values (\<lambda>_. True) (ik_owner self known f) v True
    (ik_present E self f v)"
  unfolding ik_present_def ik_owner_def ik_values_def
proof (intro editing edits_in_zone ik_resolve [OF assms])
  fix u :: unit and z rn
  assume z: "walk_zone self known f = Some z" and rn: "relative_name (to_ascii_lowercase f) z = Inr rn"
    and f: "validate_fqdn f = Inr u"
  have low: "validate_fqdn (to_ascii_lowercase f) = Inr ()" using f by (simp add: validate_fqdn_lower)
  note names = relative_name_nonempty [OF low rn] relative_name_lower [OF rn] relative_name_dot [OF low rn]
  show "edits (online up (walk_cached known)) (\<lambda>w. rr (net w)) (held fst (\<lambda>r. unquote (snd r))) (\<lambda>_. True) (Some (z, rn)) v True
      (attempt (ik_list_txt_records E self z rn) (\<lambda>existing.
       if list_ex (\<lambda>r. unquote (ik_target r) = v) existing then done_ok () else ik_create_record E self z rn v))"
    by (rule add_record_by [OF ik_list [OF assms z _ names(1,2)] ik_create [OF assms z _ names]]) simp_all
qed

lemma ik_cleanup_edits:
  assumes "ik_api E self known up rr parts"
  shows "edits (online up (walk_cached known)) (\<lambda>w. rr (net w)) ik_values (\<lambda>_. True) (ik_owner self known f) v False
    (ik_cleanup E self f v)"
  unfolding ik_cleanup_def ik_owner_def ik_values_def
proof (intro editing edits_in_zone ik_resolve [OF assms])
  fix u :: unit and z rn
  assume z: "walk_zone self known f = Some z" and rn: "relative_name (to_ascii_lowercase f) z = Inr rn"
    and f: "validate_fqdn f = Inr u"
  have low: "validate_fqdn (to_ascii_lowercase f) = Inr ()" using f by (simp add: validate_fqdn_lower)
  note names = relative_name_nonempty [OF low rn] relative_name_lower [OF rn]
  show "edits (online up (walk_cached known)) (\<lambda>w. rr (net w)) (held fst (\<lambda>r. unquote (snd r))) (\<lambda>_. True) (Some (z, rn)) v False
      (attempt (ik_list_txt_records E self z rn) (
       try_for (\<lambda>r. if unquote (ik_target r) = v then ik_delete_record E self z (ik_id r) else done_ok ())))"
    by (rule drop_records [OF ik_list [OF assms z _ names] ik_delete [OF assms z]]) simp_all
qed

text \<open>C16: the Infomaniak provider keeps the provider contract on any server with the documented behaviour, also
  when the zone's TXT records fill several pages or another writer creates the same record first.\<close>

theorem ik_contract:
  assumes "ik_api E self known up rr parts"
  shows "dns_provider (ik_provider E self) (\<lambda>w. ik_values (rr (net w))) (ik_owner self known) (online up (walk_cached known))"
  by (rule dns_providerI [where st = "\<lambda>w. rr (net w)" and T = ik_values])
    (simp_all add: ik_present_edits [OF assms] ik_cleanup_edits [OF assms])

section \<open>A server\<close>

text \<open>An account with the zone \<open>a.org\<close> and room for three records, of which two fit on a page of the listing.\<close>

record ik_answer =
  ans_ik_zone :: "IkZone IkEnvelope"
  ans_ik_records :: "IkRecord list IkEnvelope"
  ans_ik_value :: "unit IkEnvelope"

definition ik_places :: "(string \<times> nat) list" where
  "ik_places = [(''a.org'', 0), (''a.org'', 1)] @ [(''a.org'', 2)]"

definition ik_fits :: "string \<times> nat \<Rightarrow> (string \<times> string) \<times> string \<Rightarrow> bool" where
  "ik_fits i r \<longleftrightarrow> fst i = ''a.org'' \<and> fst (fst r) = ''a.org'' \<and> ik_source_name (snd (fst r)) = snd (fst r)"

definition ik_shown :: "(string \<times> nat) \<times> (string \<times> string) \<times> string \<Rightarrow> IkRecord" where
  "ik_shown x = \<lparr>ik_id = snd (fst x), ik_source = snd (fst (snd x)), ik_record_type = ''TXT'', ik_target = snd (snd x)\<rparr>"

definition ik_two_pages :: "(string \<times> nat \<rightharpoonup> (string \<times> string) \<times> string) \<Rightarrow> string \<Rightarrow> IkRecord list list" where
  "ik_two_pages s z =
     [map ik_shown (pick [(''a.org'', 0), (''a.org'', 1)] (\<lambda>_. True) s), map ik_shown (pick [(''a.org'', 2)] (\<lambda>_. True) s)]"

definition ik_ok :: "'a \<Rightarrow> 'a IkEnvelope" where
  "ik_ok x = \<lparr>ik_result = ''success'', ik_data = Some x, ik_error = None, ik_pages = Some 2\<rparr>"

definition ik_server ::
  "IkRecordWrite request \<Rightarrow> (string \<times> nat \<rightharpoonup> (string \<times> string) \<times> string) \<Rightarrow>
   (reqwest_error + ik_answer response) \<times> (string \<times> nat \<rightharpoonup> (string \<times> string) \<times> string)" where
  "ik_server rq n =
     (let body = (\<lambda>xs. \<lparr>ans_ik_zone = ik_ok \<lparr>ik_fqdn = ''a.org.''\<rparr>, ans_ik_records = ik_ok xs, ans_ik_value = ik_ok ()\<rparr>) in
      case rq_method rq of
        POST \<Rightarrow>
          (case (rq_body rq, free_place ik_places n) of
             (Some b, Some i) \<Rightarrow> (answer 201 (body []),
               n(i \<mapsto> ((''a.org'', ik_source_name (ikw_source b)), quote_txt (ikw_target b))))
           | _ \<Rightarrow> (answer 422 (body []), n))
      | DELETE \<Rightarrow>
          (case find (\<lambda>i. rq_url rq = ''api/2/zones/a.org/records/'' @ show_nat (snd i)) ik_places of
             Some i \<Rightarrow> (answer 200 (body []), n(i := None))
           | None \<Rightarrow> (answer 404 (body []), n))
      | _ \<Rightarrow>
          (case map_of (rq_query rq) ''page'' of
             Some p \<Rightarrow> (answer 200 (body (if p = show_nat 1 then ik_two_pages n ''a.org'' ! 0
               else if p = show_nat 2 then ik_two_pages n ''a.org'' ! 1 else [])), n)
           | None \<Rightarrow> (answer (if rq_url rq = ''api/2/zones/a.org'' then 200 else 404) (body []), n)))"

definition demo_ik :: "(ik_answer, string \<times> nat \<rightharpoonup> (string \<times> string) \<times> string) ik_env" where
  "demo_ik = api_around ik_server (\<lambda>_. False)
     (ik_env.fields (\<lambda>b. Inr (ans_ik_zone b)) (\<lambda>b. Inr (ans_ik_records b)) (\<lambda>b. Inr (ans_ik_value b)) (\<lambda>_. None))"

definition demo_ik_provider :: InfomaniakProvider where
  "demo_ik_provider = \<lparr>api_base = ''api'', zone_override = None, ttl = 2, cfg_timeout = 1, access_token = ''t''\<rparr>"

definition demo_ik_world :: "(string \<times> nat \<rightharpoonup> (string \<times> string) \<times> string) zone_world" where
  "demo_ik_world =
     \<lparr>RESOLVER = None, net = [(''a.org'', 0) \<mapsto> ((''a.org'', ''_acme-challenge''), quote_txt ''other''),
        (''a.org'', 1) \<mapsto> ((''a.org'', ''@''), ''note'')],
      zone_cache = Map.empty\<rparr>"

lemma demo_ik_run:
  "fst (ik_present demo_ik demo_ik_provider ''_acme-challenge.A.org'' ''v'' demo_ik_world) = Inr ()"
  "fst (ik_cleanup demo_ik demo_ik_provider ''_acme-challenge.A.org'' ''v''
     (snd (ik_present demo_ik demo_ik_provider ''_acme-challenge.A.org'' ''v'' demo_ik_world))) = Inr ()"
  by code_simp+

lemma demo_ik_sel:
  "http_send demo_ik = ik_server" "idles demo_ik up view" "encode_path demo_ik s = s"
  "ik_zone_json demo_ik = (\<lambda>b. Inr (ans_ik_zone b))" "ik_records_json demo_ik = (\<lambda>b. Inr (ans_ik_records b))"
  "ik_value_json demo_ik = (\<lambda>b. Inr (ans_ik_value b))" "ik_text_json demo_ik = (\<lambda>_. None)"
  by (simp_all add: demo_ik_def api_around_def ik_env.defs encode_path_def idles_def)

lemma concat_ik_pages: "concat (ik_two_pages s z) = map ik_shown (pick ik_places (\<lambda>_. True) s)"
  by (simp add: ik_two_pages_def ik_places_def pick_def)

lemma listed_ik_pages:
  assumes "roomy ik_places ik_fits s"
  shows "listed fst snd (\<lambda>x. (''a.org'', ik_id x)) ik_target (''a.org'', nm) s (filter (ik_txt_at nm) (concat (ik_two_pages s ''a.org'')))"
proof -
  have fits: "ik_fits i r" if "s i = Some r" for i r using assms that unfolding roomy_def by blast
  have "eq_ignore_ascii_case ''TXT'' ''TXT''" by (simp add: eq_ignore_ascii_case_def)
  then have "filter (ik_txt_at nm) (concat (ik_two_pages s ''a.org'')) =
      map ik_shown (filter (\<lambda>x. ik_source_name (snd (fst (snd x))) = nm) (pick ik_places (\<lambda>_. True) s))"
    unfolding concat_ik_pages filter_map by (simp add: comp_def ik_txt_at_def ik_shown_def)
  also have "filter (\<lambda>x. ik_source_name (snd (fst (snd x))) = nm) (pick ik_places (\<lambda>_. True) s) =
      pick ik_places (\<lambda>r. fst r = (''a.org'', nm)) s"
    by (rule filter_pick) (drule fits, simp add: ik_fits_def prod_eq_iff)
  finally have pages: "filter (ik_txt_at nm) (concat (ik_two_pages s ''a.org'')) =
      map ik_shown (pick ik_places (\<lambda>r. fst r = (''a.org'', nm)) s)" .
  show ?thesis
    unfolding pages by (rule listed_pick [OF assms]) (simp add: ik_fits_def ik_shown_def prod_eq_iff)
qed

lemma ik_source_name_idem: "ik_source_name (ik_source_name nm) = ik_source_name nm"
proof (cases "trim_end_matches DOT nm = []")
  case True
  have "trim_end_matches DOT ''@'' = ''@''" by (simp add: trim_end_matches_def)
  with True lower_eq_at [of "''@''"] show ?thesis by (simp only: ik_source_name_def Let_def) simp
next
  case False
  then show ?thesis by (simp add: ik_source_name_def Let_def trim_end_matches_DOT_lower trim_end_matches_idem)
qed

lemma ik_place_fits: "i \<in> set ik_places \<Longrightarrow> ik_fits i ((''a.org'', ik_source_name nm), d)"
  unfolding ik_fits_def by (auto simp: ik_places_def ik_source_name_idem)

lemma demo_ik_zones: "walk_zone demo_ik_provider [''a.org'' \<mapsto> ''a.org''] f = Some z \<Longrightarrow> z = ''a.org''"
  by (simp add: walk_zone_def demo_ik_provider_def walked_def first_known_single split: if_splits)

lemma demo_ik_api: "ik_api demo_ik demo_ik_provider [''a.org'' \<mapsto> ''a.org''] (roomy ik_places ik_fits) (\<lambda>n. n) ik_two_pages"
  unfolding ik_api_def
proof (intro conjI allI impI)
  fix c
  have lower: "to_ascii_lowercase (trim_end_matches DOT ''a.org.'') = ''a.org''" by code_simp
  have url: "ik_url demo_ik_provider (ik_zone_path demo_ik c) = ''api/2/zones/a.org'' \<longleftrightarrow> c = ''a.org''"
    by (simp add: ik_url_def ik_zone_path_def demo_ik_provider_def demo_ik_sel)
  show "reads demo_ik (roomy ik_places ik_fits) (\<lambda>n. n) (ik_get demo_ik_provider (ik_zone_path demo_ik c) []) (\<lambda>s resp.
      (rs_status resp = 404 \<longrightarrow> [''a.org'' \<mapsto> ''a.org''] c = None) \<and>
      (is_success (rs_status resp) \<longrightarrow> (\<forall>b x. ik_zone_json demo_ik (rs_body resp) = Inr b \<longrightarrow> ik_result b = ''success'' \<longrightarrow>
        ik_data b = Some x \<longrightarrow> [''a.org'' \<mapsto> ''a.org''] c = Some (to_ascii_lowercase (trim_end_matches DOT (ik_fqdn x))))))"
    unfolding reads_def demo_ik_sel ik_server_def ik_get_def
    by (auto simp: answer_def Let_def lower is_success_def ik_ok_def url [simplified] split: if_splits)
next
  fix f z and p :: nat
  assume "walk_zone demo_ik_provider [''a.org'' \<mapsto> ''a.org''] f = Some z"
  then have z: "z = ''a.org''" by (rule demo_ik_zones)
  have page: "show_nat (Suc p) = show_nat 1 \<longleftrightarrow> p = 0" "show_nat (Suc p) = show_nat 2 \<longleftrightarrow> p = 1" by (simp_all only: show_nat_inj) auto
  have run: "http_send demo_ik (ik_list_request demo_ik demo_ik_provider z (Suc p)) n =
      (answer 200 \<lparr>ans_ik_zone = ik_ok \<lparr>ik_fqdn = ''a.org.''\<rparr>,
         ans_ik_records = ik_ok (if p < 2 then ik_two_pages n ''a.org'' ! p else []), ans_ik_value = ik_ok ()\<rparr>, n)" for n
    using page by (auto simp: demo_ik_sel ik_server_def ik_list_request_def ik_get_def Let_def less_2_cases_iff)
  show "reads demo_ik (roomy ik_places ik_fits) (\<lambda>n. n) (ik_list_request demo_ik demo_ik_provider z (Suc p)) (\<lambda>s resp.
      is_success (rs_status resp) \<longrightarrow> (\<forall>b xs. ik_records_json demo_ik (rs_body resp) = Inr b \<longrightarrow> ik_result b = ''success'' \<longrightarrow>
        ik_data b = Some xs \<longrightarrow>
        xs = (if p < length (ik_two_pages s z) then ik_two_pages s z ! p else []) \<and>
        (case ik_pages b of Some k \<Rightarrow> k = length (ik_two_pages s z) | None \<Rightarrow> length (ik_two_pages s z) \<le> 1) \<and>
        (\<forall>nm. listed fst snd (\<lambda>x. (z, ik_id x)) ik_target (z, nm) s (filter (ik_txt_at nm) (concat (ik_two_pages s z))))))"
    unfolding reads_def run unfolding demo_ik_sel z
    by (auto simp: answer_def ik_ok_def listed_ik_pages) (simp_all add: ik_two_pages_def)
next
  fix f z b and rq :: "IkRecordWrite request"
  assume "walk_zone demo_ik_provider [''a.org'' \<mapsto> ''a.org''] f = Some z" and rq: "rq_method rq = POST" "rq_body rq = Some b"
  then have z: "z = ''a.org''" by (blast dest: demo_ik_zones)
  show "writes demo_ik (roomy ik_places ik_fits) (\<lambda>n. n) rq
      (\<lambda>s s'. creates ((z, ik_source_name (ikw_source b)), quote_txt (ikw_target b)) s s' \<or>
         s' = s \<and> (\<exists>i. s i = Some ((z, ik_source_name (ikw_source b)), quote_txt (ikw_target b))))
      (\<lambda>resp. if is_success (rs_status resp) then \<exists>e. ik_value_json demo_ik (rs_body resp) = Inr e \<and> ik_result e = ''success''
         else \<exists>raw e. http_text demo_ik (rs_body resp) = Inr raw \<and> ik_text_json demo_ik raw = Some e \<and> error_code e = Some ALREADY_EXISTS)"
    unfolding writes_def
    by (auto simp: demo_ik_sel ik_server_def rq z answer_def is_success_def Let_def free_place_creates roomy_upd ik_place_fits
        split: option.splits if_splits)
next
  fix f z i and rq :: "IkRecordWrite request"
  assume "walk_zone demo_ik_provider [''a.org'' \<mapsto> ''a.org''] f = Some z" and rq: "rq_method rq = DELETE"
    "rq_url rq = ik_url demo_ik_provider (ik_record_path demo_ik z i)"
  then have z: "z = ''a.org''" by (blast dest: demo_ik_zones)
  have url: "(rq_url rq = ''api/2/zones/a.org/records/'' @ show_nat j) = (i = j)" for j
    by (simp add: rq(2) z ik_url_def ik_record_path_def demo_ik_provider_def demo_ik_sel)
  have item: "find (\<lambda>p. i = snd p) ik_places = (if (''a.org'', i) \<in> set ik_places then Some (''a.org'', i) else None)"
    by (rule find_id) (auto simp: ik_places_def)
  show "writes demo_ik (roomy ik_places ik_fits) (\<lambda>n. n) rq (\<lambda>s s'. s' = s((z, i) := None))
      (\<lambda>resp. rs_status resp = 404 \<or> is_success (rs_status resp) \<and>
         (\<exists>e. ik_value_json demo_ik (rs_body resp) = Inr e \<and> ik_result e = ''success''))"
    unfolding writes_def demo_ik_sel ik_server_def rq(1) http_method.case Let_def url item
    by (auto simp: z answer_def roomy_upd roomy_absent split: if_splits)
qed (simp_all add: demo_ik_sel)

lemma demo_ik_start: "online (roomy ik_places ik_fits) (walk_cached known) demo_ik_world"
proof -
  have "ik_source_name ''_acme-challenge'' = ''_acme-challenge''" "ik_source_name ''@'' = ''@''" by code_simp+
  then show ?thesis
    by (auto simp: online_def walk_cached_def roomy_def ik_places_def ik_fits_def demo_ik_world_def split: if_splits)
qed

theorem ik_contract_witness:
  "\<exists>w1 w2. present (ik_provider demo_ik demo_ik_provider) ''_acme-challenge.A.org'' ''v'' demo_ik_world = (Inr (), w1)
     \<and> ''v'' \<in> ik_values (net w1) (ik_owner demo_ik_provider [''a.org'' \<mapsto> ''a.org''] ''_acme-challenge.A.org'')
     \<and> cleanup (ik_provider demo_ik demo_ik_provider) ''_acme-challenge.A.org'' ''v'' w1 = (Inr (), w2)
     \<and> ik_values (net w2) = ik_values (net demo_ik_world)"
proof -
  note contract = ik_contract [OF demo_ik_api]
  have "unquote ''note'' = ''note''" by code_simp
  then have "''v'' \<notin> ik_values (net demo_ik_world) k" for k
    by (auto simp: ik_values_def held_def demo_ik_world_def split: if_splits)
  then show ?thesis
    by (intro dns_provider.round_trip [OF contract]) (simp_all add: demo_ik_run demo_ik_start)
qed

end
