(* ===== verification/Ovh.thy ===== *)
theory Ovh
  imports Record_Kit Provider_Config
begin

text \<open>
  The OVH provider (\<open>providers/ovh.rs\<close>): single TXT records with an id, requests signed with a timestamp that
  follows the server's clock, and a zone that is published by a separate request. The hash function, the JSON
  encoder and the system clock are parameters.
\<close>

section \<open>Configuration\<close>

definition OVH_EU_API_BASE :: string where
  "OVH_EU_API_BASE = ''https://eu.api.ovh.com/1.0''"

definition OVH_ENV_APP_KEY :: string where
  "OVH_ENV_APP_KEY = ''OVH_APPLICATION_KEY''"

definition OVH_ENV_APP_SECRET :: string where
  "OVH_ENV_APP_SECRET = ''OVH_APPLICATION_SECRET''"

definition OVH_ENV_CONSUMER_KEY :: string where
  "OVH_ENV_CONSUMER_KEY = ''OVH_CONSUMER_KEY''"

definition OVH_DEFAULT_TTL :: nat where
  "OVH_DEFAULT_TTL = 60"

definition OVH_PROVIDER :: string where
  "OVH_PROVIDER = ''ovh''"

record OvhCreateRecordBody =
  field_type :: string
  sub_domain :: string
  ovh_body_target :: string
  ovh_body_ttl :: nat

record OvhRecord =
  ovh_id :: nat
  ovh_target :: string

text \<open>
  \<open>sha1_hex\<close> is the hexadecimal SHA-1 digest, \<open>ovh_to_json\<close> the encoder of the request body or its error, and
  \<open>ovh_clock\<close> the seconds since 1970 or nothing when the clock is set before.
\<close>

record ('r, 'n) ovh_env = "(string, 'r, 'n) api_env" +
  sha1_hex :: "string \<Rightarrow> string"
  ovh_to_json :: "OvhCreateRecordBody \<Rightarrow> string + string"
  ovh_clock :: "'n \<Rightarrow> nat option"
  ovh_time_json :: "'r \<Rightarrow> reqwest_error + int"
  ovh_ids_json :: "'r \<Rightarrow> reqwest_error + nat list"
  ovh_record_json :: "'r \<Rightarrow> reqwest_error + OvhRecord"

record OvhConfig = api_config +
  application_key :: string
  application_secret :: string
  consumer_key :: string

type_synonym OvhProvider = OvhConfig

record 'n ovh_world = "'n world" +
  time_delta :: "int option"

definition OvhConfig_new :: "string \<Rightarrow> string \<Rightarrow> string \<Rightarrow> OvhConfig" where
  "OvhConfig_new ak asec ck =
     \<lparr>api_base = OVH_EU_API_BASE, zone_override = None, ttl = OVH_DEFAULT_TTL, cfg_timeout = HTTP_TIMEOUT,
      application_key = ak, application_secret = asec, consumer_key = ck\<rparr>"

definition ovh_with_api_base :: "('r, 'n) ovh_env \<Rightarrow> string \<Rightarrow> OvhConfig \<Rightarrow> OvhConfig result" where
  "ovh_with_api_base E base config = set_api_base E OVH_PROVIDER base config"

definition ovh_with_zone :: "string \<Rightarrow> OvhConfig \<Rightarrow> OvhConfig result" where
  "ovh_with_zone zone config = set_zone zone config"

definition ovh_with_ttl :: "nat \<Rightarrow> OvhConfig \<Rightarrow> OvhConfig result" where
  "ovh_with_ttl t config = and_then (validate_ttl t) (\<lambda>t. Inr (config\<lparr>ttl := t\<rparr>))"

definition ovh_with_timeout :: "duration \<Rightarrow> OvhConfig \<Rightarrow> OvhConfig" where
  "ovh_with_timeout t config = config\<lparr>cfg_timeout := t\<rparr>"

interpretation ovh_config: config_builder "url_parse E" OVH_PROVIDER "0" "MAX_TTL" "OvhConfig_new ak asec ck" "ovh_with_api_base E"
  ovh_with_zone ovh_with_ttl ovh_with_timeout for E :: "('r, 'n) ovh_env" and ak asec ck
  by unfold_locales
    (auto simp: ovh_with_api_base_def ovh_with_zone_def ovh_with_ttl_def ovh_with_timeout_def OvhConfig_new_def OVH_DEFAULT_TTL_def builder_simps)

definition OvhProvider_new :: "('r, 'n) ovh_env \<Rightarrow> OvhConfig \<Rightarrow> OvhProvider result" where
  "OvhProvider_new E config =
     and_then (build_client E (cfg_timeout config) CONNECT_TIMEOUT) (\<lambda>_. Inr config)"

definition ovh_from_env :: "('r, 'n) ovh_env \<Rightarrow> OvhProvider result" where
  "ovh_from_env E =
     and_then (required_var E OVH_ENV_APP_KEY) (\<lambda>ak.
     and_then (required_var E OVH_ENV_APP_SECRET) (\<lambda>asec.
     and_then (required_var E OVH_ENV_CONSUMER_KEY) (\<lambda>ck.
     OvhProvider_new E (OvhConfig_new ak asec ck))))"

section \<open>Signed requests\<close>

definition ovh_resolve_zone :: "('r, 'n) ovh_env \<Rightarrow> OvhProvider \<Rightarrow> string \<Rightarrow> (('n, 'z) world_scheme, string) io" where
  "ovh_resolve_zone E self fqdn =
     (case zone_override self of
        Some z \<Rightarrow> done_ok z
      | None \<Rightarrow>
          attempt (find_zone (api_dns E) fqdn) (\<lambda>zone.
          attempt (from_result (validate_fqdn zone)) (\<lambda>_.
          done_ok zone)))"

definition ovh_record_list_url :: "('r, 'n) ovh_env \<Rightarrow> OvhProvider \<Rightarrow> string \<Rightarrow> string" where
  "ovh_record_list_url E self zone = api_base self @ ''/domain/zone/'' @ encode_path E zone @ ''/record''"

definition ovh_record_item_url :: "('r, 'n) ovh_env \<Rightarrow> OvhProvider \<Rightarrow> string \<Rightarrow> nat \<Rightarrow> string" where
  "ovh_record_item_url E self zone i =
     api_base self @ ''/domain/zone/'' @ encode_path E zone @ ''/record/'' @ show_nat i"

definition ovh_refresh_url :: "('r, 'n) ovh_env \<Rightarrow> OvhProvider \<Rightarrow> string \<Rightarrow> string" where
  "ovh_refresh_url E self zone = api_base self @ ''/domain/zone/'' @ encode_path E zone @ ''/refresh''"

definition ovh_path :: "string \<Rightarrow> string" where
  "ovh_path suffix = ''/domain/zone/'' @ suffix"

definition sign_request :: "('r, 'n) ovh_env \<Rightarrow> OvhProvider \<Rightarrow> string \<Rightarrow> string \<Rightarrow> string \<Rightarrow> int \<Rightarrow> string" where
  "sign_request E self meth url body timestamp =
     ''$1$'' @ sha1_hex E (application_secret self @ ''+'' @ consumer_key self @ ''+'' @ meth @ ''+'' @ url @ ''+'' @
       body @ ''+'' @ show_int timestamp)"

definition now_timestamp :: "('r, 'n) ovh_env \<Rightarrow> ('n, 'z) world_scheme \<Rightarrow> int" where
  "now_timestamp E w = (case ovh_clock E (net w) of Some secs \<Rightarrow> wrap_i64 (int secs) | None \<Rightarrow> 0)"

text \<open>The offset is measured once; a failure leaves it unset. \<open>set\<close> keeps an offset that is already there.\<close>

definition ovh_sync_time :: "('r, 'n) ovh_env \<Rightarrow> OvhProvider \<Rightarrow> (('n, 'z) ovh_world_scheme, unit) io" where
  "ovh_sync_time E self w =
     (if time_delta w \<noteq> None then (Inr (), w)
      else
        (case send E \<lparr>rq_method = GET, rq_url = api_base self @ ''/auth/time'', rq_query = [], rq_headers = [],
                rq_body = None\<rparr> w of
           (Inl _, w1) \<Rightarrow> (Inr (), w1)
         | (Inr response, w1) \<Rightarrow>
             if \<not> is_success (rs_status response) then (Inr (), w1)
             else
               (case ovh_time_json E (rs_body response) of
                  Inl _ \<Rightarrow> (Inr (), w1)
                | Inr server_time \<Rightarrow>
                    (Inr (), w1\<lparr>time_delta := (case time_delta w1 of
                       Some d \<Rightarrow> Some d | None \<Rightarrow> Some (wrap_i64 (server_time - now_timestamp E w1)))\<rparr>))))"

definition signed_request ::
  "('r, 'n) ovh_env \<Rightarrow> OvhProvider \<Rightarrow> http_method \<Rightarrow> string \<Rightarrow> string \<Rightarrow> ('n, 'z) ovh_world_scheme \<Rightarrow> string request" where
  "signed_request E self meth url body w =
     (let ts = wrap_i64 (now_timestamp E w + (case time_delta w of Some d \<Rightarrow> d | None \<Rightarrow> 0));
          signature = sign_request E self (method_str meth) url body ts;
          headers = [(''X-Ovh-Application'', application_key self), (''X-Ovh-Consumer'', consumer_key self),
            (''X-Ovh-Timestamp'', show_int ts), (''X-Ovh-Signature'', signature)] in
      \<lparr>rq_method = meth, rq_url = url, rq_query = [],
       rq_headers = (if body = [] then headers else headers @ [(''Content-Type'', ''application/json'')]),
       rq_body = (if body = [] then None else Some body)\<rparr>)"

definition send_signed ::
  "('r, 'n) ovh_env \<Rightarrow> OvhProvider \<Rightarrow> http_method \<Rightarrow> string \<Rightarrow> string \<Rightarrow> (('n, 'z) ovh_world_scheme, 'r response) io" where
  "send_signed E self meth url body = attempt (get_state (signed_request E self meth url body)) (send E)"

section \<open>The API calls\<close>

definition ovh_list_url :: "('r, 'n) ovh_env \<Rightarrow> OvhProvider \<Rightarrow> string \<Rightarrow> string \<Rightarrow> string" where
  "ovh_list_url E self zone sub = ovh_record_list_url E self zone @ ''?fieldType=TXT&subDomain='' @ encode_path E sub"

definition ovh_list_records ::
  "('r, 'n) ovh_env \<Rightarrow> OvhProvider \<Rightarrow> string \<Rightarrow> string \<Rightarrow> (('n, 'z) ovh_world_scheme, nat list) io" where
  "ovh_list_records E self zone sub =
     attempt (send_signed E self GET (ovh_list_url E self zone sub) []) (\<lambda>response.
     let status = rs_status response in
     if \<not> is_success status
     then fail_with (api_error E OVH_PROVIDER ''GET'' (ovh_path (zone @ ''/record'')) status response)
     else read_json (ovh_ids_json E) response)"

definition ovh_get_record ::
  "('r, 'n) ovh_env \<Rightarrow> OvhProvider \<Rightarrow> string \<Rightarrow> nat \<Rightarrow> (('n, 'z) ovh_world_scheme, OvhRecord) io" where
  "ovh_get_record E self zone i =
     attempt (send_signed E self GET (ovh_record_item_url E self zone i) []) (\<lambda>response.
     let status = rs_status response in
     if \<not> is_success status
     then fail_with (api_error E OVH_PROVIDER ''GET'' (ovh_path (zone @ ''/record/'' @ show_nat i)) status response)
     else read_json (ovh_record_json E) response)"

definition ovh_create_record ::
  "('r, 'n) ovh_env \<Rightarrow> OvhProvider \<Rightarrow> string \<Rightarrow> string \<Rightarrow> string \<Rightarrow> (('n, 'z) ovh_world_scheme, unit) io" where
  "ovh_create_record E self zone sub target =
     (let url = ovh_record_list_url E self zone in
      attempt (from_result (map_err (\<lambda>e. Other (''serialize ovh create body: '' @ e))
        (ovh_to_json E \<lparr>field_type = ''TXT'', sub_domain = sub, ovh_body_target = target, ovh_body_ttl = ttl self\<rparr>))) (\<lambda>body.
      attempt (send_signed E self POST url body) (\<lambda>response.
      let status = rs_status response in
      if \<not> is_success status
      then fail_with (api_error E OVH_PROVIDER ''POST'' (ovh_path (zone @ ''/record'')) status response)
      else done_ok ())))"

definition ovh_delete_record ::
  "('r, 'n) ovh_env \<Rightarrow> OvhProvider \<Rightarrow> string \<Rightarrow> nat \<Rightarrow> (('n, 'z) ovh_world_scheme, unit) io" where
  "ovh_delete_record E self zone i =
     attempt (send_signed E self DELETE (ovh_record_item_url E self zone i) []) (\<lambda>response.
     let status = rs_status response in
     if \<not> is_success status \<and> status \<noteq> 404
     then fail_with (api_error E OVH_PROVIDER ''DELETE'' (ovh_path (zone @ ''/record/'' @ show_nat i)) status response)
     else done_ok ())"

definition ovh_refresh_zone ::
  "('r, 'n) ovh_env \<Rightarrow> OvhProvider \<Rightarrow> string \<Rightarrow> (('n, 'z) ovh_world_scheme, unit) io" where
  "ovh_refresh_zone E self zone =
     attempt (send_signed E self POST (ovh_refresh_url E self zone) []) (\<lambda>response.
     let status = rs_status response in
     if \<not> is_success status
     then fail_with (api_error E OVH_PROVIDER ''POST'' (ovh_path (zone @ ''/refresh'')) status response)
     else done_ok ())"

section \<open>The provider\<close>

definition ovh_stored :: "OvhRecord \<Rightarrow> string" where
  "ovh_stored r = trim_matches QUOTE (ovh_target r)"

text \<open>The two loops over the ids: whether a record holds the value, and deleting those that do.\<close>

fun ovh_holds ::
  "('r, 'n) ovh_env \<Rightarrow> OvhProvider \<Rightarrow> string \<Rightarrow> string \<Rightarrow> nat list \<Rightarrow> (('n, 'z) ovh_world_scheme, bool) io" where
  "ovh_holds E self zone v [] = done_ok False"
| "ovh_holds E self zone v (i # ids) =
     attempt (ovh_get_record E self zone i) (\<lambda>r.
     if ovh_stored r = v then done_ok True else ovh_holds E self zone v ids)"

fun ovh_delete_matching ::
  "('r, 'n) ovh_env \<Rightarrow> OvhProvider \<Rightarrow> string \<Rightarrow> string \<Rightarrow> bool \<Rightarrow> nat list \<Rightarrow> (('n, 'z) ovh_world_scheme, bool) io" where
  "ovh_delete_matching E self zone v deleted_any [] = done_ok deleted_any"
| "ovh_delete_matching E self zone v deleted_any (i # ids) =
     attempt (ovh_get_record E self zone i) (\<lambda>r.
     if ovh_stored r = v
     then attempt (ovh_delete_record E self zone (ovh_id r)) (\<lambda>_. ovh_delete_matching E self zone v True ids)
     else ovh_delete_matching E self zone v deleted_any ids)"

definition ovh_present ::
  "('r, 'n) ovh_env \<Rightarrow> OvhProvider \<Rightarrow> string \<Rightarrow> string \<Rightarrow> (('n, 'z) ovh_world_scheme, unit) io" where
  "ovh_present E self fqdn v =
     attempt (from_result (validate_fqdn fqdn)) (\<lambda>_.
     let fqdn = to_ascii_lowercase fqdn in
     attempt (from_result (validate_acme_value v)) (\<lambda>_.
     attempt (ovh_resolve_zone E self fqdn) (\<lambda>zone.
     attempt (from_result (relative_name fqdn zone)) (\<lambda>sub.
     with_lock OVH_PROVIDER (zone @ ''|'' @ sub) (
     attempt (ovh_sync_time E self) (\<lambda>_.
     attempt (ovh_list_records E self zone sub) (\<lambda>existing_ids.
     attempt (ovh_holds E self zone v existing_ids) (\<lambda>found.
     if found then done_ok ()
     else attempt (ovh_create_record E self zone sub v) (\<lambda>_. ovh_refresh_zone E self zone)))))))))"

definition ovh_cleanup ::
  "('r, 'n) ovh_env \<Rightarrow> OvhProvider \<Rightarrow> string \<Rightarrow> string \<Rightarrow> (('n, 'z) ovh_world_scheme, unit) io" where
  "ovh_cleanup E self fqdn v =
     attempt (from_result (validate_fqdn fqdn)) (\<lambda>_.
     let fqdn = to_ascii_lowercase fqdn in
     attempt (ovh_resolve_zone E self fqdn) (\<lambda>zone.
     attempt (from_result (relative_name fqdn zone)) (\<lambda>sub.
     with_lock OVH_PROVIDER (zone @ ''|'' @ sub) (
     attempt (ovh_sync_time E self) (\<lambda>_.
     attempt (ovh_list_records E self zone sub) (\<lambda>existing_ids.
     attempt (ovh_delete_matching E self zone v False existing_ids) (\<lambda>deleted_any.
     if deleted_any then ovh_refresh_zone E self zone else done_ok ())))))))"

definition ovh_provider :: "('r, 'n) ovh_env \<Rightarrow> OvhProvider \<Rightarrow> ('n, 'z) ovh_world_scheme DnsProvider" where
  "ovh_provider E self =
     \<lparr>present = ovh_present E self, cleanup = ovh_cleanup E self, provider_timing = PropagationTiming_default\<rparr>"

lemma ovh_provider_simps [simp]:
  "present (ovh_provider E self) = ovh_present E self" "cleanup (ovh_provider E self) = ovh_cleanup E self"
  by (simp_all add: ovh_provider_def)

section \<open>The documented API\<close>

text \<open>
  \<open>rr n (zone, id)\<close> is the TXT record with an id in the zone's database: its zone and subdomain, and its target.
  A listing gives the ids of a subdomain; \<open>POST\<close> creates a record, whose target the server may keep in double
  quotes; \<open>DELETE\<close> removes one; refreshing publishes the database and does not change it.
\<close>

type_synonym ovh_db = "string \<times> nat \<rightharpoonup> (string \<times> string) \<times> string"

definition ovh_creates :: "string \<Rightarrow> OvhCreateRecordBody \<Rightarrow> ovh_db \<Rightarrow> ovh_db \<Rightarrow> bool" where
  "ovh_creates z c s s' \<longleftrightarrow>
     (\<exists>t \<in> {ovh_body_target c, quote_txt (ovh_body_target c)}. creates ((z, sub_domain c), t) s s')"

definition ovh_api ::
  "('r, 'n) ovh_env \<Rightarrow> OvhProvider \<Rightarrow> (string \<Rightarrow> bool) \<Rightarrow> ('n \<Rightarrow> bool) \<Rightarrow> ('n \<Rightarrow> ovh_db) \<Rightarrow> bool" where
  "ovh_api E self soa up rr \<longleftrightarrow> idles E up rr \<and>
     (\<forall>rq. rq_method rq = GET \<longrightarrow> rq_url rq = api_base self @ ''/auth/time'' \<longrightarrow> reads E up rr rq (\<lambda>_ _. True)) \<and>
     (\<forall>f z sub rq. zone_for self soa f = Some z \<longrightarrow> rq_method rq = GET \<longrightarrow> rq_url rq = ovh_list_url E self z sub \<longrightarrow>
        reads E up rr rq (\<lambda>s resp. is_success (rs_status resp) \<longrightarrow> (\<forall>ids. ovh_ids_json E (rs_body resp) = Inr ids \<longrightarrow>
          Pair z ` set ids = {i. \<exists>d. s i = Some ((z, sub), d)}))) \<and>
     (\<forall>f z i rq. zone_for self soa f = Some z \<longrightarrow> rq_method rq = GET \<longrightarrow> rq_url rq = ovh_record_item_url E self z i \<longrightarrow>
        reads E up rr rq (\<lambda>s resp. is_success (rs_status resp) \<longrightarrow> (\<forall>x. ovh_record_json E (rs_body resp) = Inr x \<longrightarrow>
          ovh_id x = i \<and> (\<exists>k. s (z, i) = Some (k, ovh_target x))))) \<and>
     (\<forall>f z rq c b. zone_for self soa f = Some z \<longrightarrow> rq_method rq = POST \<longrightarrow> rq_url rq = ovh_record_list_url E self z \<longrightarrow>
        ovh_to_json E c = Inr b \<longrightarrow> rq_body rq = Some b \<longrightarrow> field_type c = ''TXT'' \<longrightarrow>
        writes E up rr rq (ovh_creates z c) (\<lambda>resp. is_success (rs_status resp))) \<and>
     (\<forall>f z i rq. zone_for self soa f = Some z \<longrightarrow> rq_method rq = DELETE \<longrightarrow> rq_url rq = ovh_record_item_url E self z i \<longrightarrow>
        writes E up rr rq (\<lambda>s s'. s' = s((z, i) := None)) (\<lambda>resp. is_success (rs_status resp) \<or> rs_status resp = 404)) \<and>
     (\<forall>f z rq. zone_for self soa f = Some z \<longrightarrow> rq_method rq = POST \<longrightarrow> rq_url rq = ovh_refresh_url E self z \<longrightarrow>
        reads E up rr rq (\<lambda>_ _. True)) \<and>
     (\<forall>c. ovh_to_json E c \<noteq> Inr [])"

definition ovh_values :: "ovh_db \<Rightarrow> (string \<times> string) option \<Rightarrow> string set" where
  "ovh_values = held fst (\<lambda>r. trim_matches QUOTE (snd r))"

definition ovh_owner :: "OvhProvider \<Rightarrow> (string \<Rightarrow> bool) \<Rightarrow> string \<Rightarrow> (string \<times> string) option" where
  "ovh_owner self soa f = owner Pair (zone_for self soa (to_ascii_lowercase f)) (to_ascii_lowercase f)"

lemma ovh_apiD:
  assumes "ovh_api E self soa up rr"
  shows "idles E up rr"
    "rq_method rq = GET \<Longrightarrow> rq_url rq = api_base self @ ''/auth/time'' \<Longrightarrow> reads E up rr rq (\<lambda>_ _. True)"
    "zone_for self soa f = Some z \<Longrightarrow> rq_method rq = GET \<Longrightarrow> rq_url rq = ovh_list_url E self z sub \<Longrightarrow>
        reads E up rr rq (\<lambda>s resp. is_success (rs_status resp) \<longrightarrow> (\<forall>ids. ovh_ids_json E (rs_body resp) = Inr ids \<longrightarrow>
          Pair z ` set ids = {i. \<exists>d. s i = Some ((z, sub), d)}))"
    "zone_for self soa f = Some z \<Longrightarrow> rq_method rq = GET \<Longrightarrow> rq_url rq = ovh_record_item_url E self z i \<Longrightarrow>
        reads E up rr rq (\<lambda>s resp. is_success (rs_status resp) \<longrightarrow> (\<forall>x. ovh_record_json E (rs_body resp) = Inr x \<longrightarrow>
          ovh_id x = i \<and> (\<exists>k. s (z, i) = Some (k, ovh_target x))))"
    "zone_for self soa f = Some z \<Longrightarrow> rq_method rq = POST \<Longrightarrow> rq_url rq = ovh_record_list_url E self z \<Longrightarrow>
        ovh_to_json E c = Inr b \<Longrightarrow> rq_body rq = Some b \<Longrightarrow> field_type c = ''TXT'' \<Longrightarrow>
        writes E up rr rq (ovh_creates z c) (\<lambda>resp. is_success (rs_status resp))"
    "zone_for self soa f = Some z \<Longrightarrow> rq_method rq = DELETE \<Longrightarrow> rq_url rq = ovh_record_item_url E self z i \<Longrightarrow>
        writes E up rr rq (\<lambda>s s'. s' = s((z, i) := None)) (\<lambda>resp. is_success (rs_status resp) \<or> rs_status resp = 404)"
    "zone_for self soa f = Some z \<Longrightarrow> rq_method rq = POST \<Longrightarrow> rq_url rq = ovh_refresh_url E self z \<Longrightarrow>
        reads E up rr rq (\<lambda>_ _. True)"
    "ovh_to_json E c \<noteq> Inr []"
  using assms unfolding ovh_api_def by (elim conjE; simp; fail | elim conjE; metis)+

text \<open>A signed request has the method, URL and body it was made for.\<close>

definition signed_as :: "http_method \<Rightarrow> string \<Rightarrow> string \<Rightarrow> string request \<Rightarrow> bool" where
  "signed_as meth url body rq \<longleftrightarrow>
     rq_method rq = meth \<and> rq_url rq = url \<and> rq_body rq = (if body = [] then None else Some body)"

lemma observes_signed:
  assumes "idles E up rr" "\<And>rq. signed_as meth url body rq \<Longrightarrow> reads E up rr rq ans"
  shows "observes (online up (\<lambda>_. True)) (\<lambda>w. rr (net w)) S (send_signed E self meth url body) ans"
  unfolding send_signed_def
proof (rule observes_given [where P = "signed_as meth url body"])
  show "observes (online up (\<lambda>_. True)) (\<lambda>w. rr (net w)) S (get_state (signed_request E self meth url body))
      (\<lambda>_. signed_as meth url body)"
    by (rule observes_get_state) (simp add: signed_as_def signed_request_def Let_def)
qed (rule observes_send [OF assms(1)], simp_all add: assms(2))

lemma stores_signed:
  assumes "\<And>rq. signed_as meth url body rq \<Longrightarrow> stores (online up (\<lambda>_. True)) (\<lambda>w. rr (net w)) (attempt (send E rq) rest) step"
  shows "stores (online up (\<lambda>_. True)) (\<lambda>w. rr (net w)) (attempt (send_signed E self meth url body) rest) step"
  unfolding send_signed_def attempt_assoc
proof (rule stores_given [where P = "signed_as meth url body", OF _ assms])
  show "observes (online up (\<lambda>_. True)) (\<lambda>w. rr (net w)) (\<lambda>_. True) (get_state (signed_request E self meth url body))
      (\<lambda>_. signed_as meth url body)"
    by (rule observes_get_state) (simp add: signed_as_def signed_request_def Let_def)
qed

lemma ovh_list:
  assumes "ovh_api E self soa up rr" "zone_for self soa f = Some z"
  shows "observes (online up (\<lambda>_. True)) (\<lambda>w. rr (net w)) S (ovh_list_records E self z sub)
    (\<lambda>s ids. Pair z ` set ids = {i. \<exists>d. s i = Some ((z, sub), d)})"
  unfolding ovh_list_records_def Let_def
  by (rule observes_attempt, rule observes_signed [OF ovh_apiD(1) [OF assms(1)] ovh_apiD(3) [OF assms, where sub = sub]])
    ((simp_all add: signed_as_def)[2], intro editing, auto)

lemma ovh_get:
  assumes "ovh_api E self soa up rr" "zone_for self soa f = Some z"
  shows "observes (online up (\<lambda>_. True)) (\<lambda>w. rr (net w)) S (ovh_get_record E self z i)
    (\<lambda>s x. ovh_id x = i \<and> (\<exists>k. s (z, i) = Some (k, ovh_target x)))"
  unfolding ovh_get_record_def Let_def
  by (rule observes_attempt, rule observes_signed [OF ovh_apiD(1) [OF assms(1)] ovh_apiD(4) [OF assms, where i = i]])
    ((simp_all add: signed_as_def)[2], intro editing, auto)

lemma ovh_refresh:
  assumes "ovh_api E self soa up rr" "zone_for self soa f = Some z"
  shows "observes (online up (\<lambda>_. True)) (\<lambda>w. rr (net w)) S (ovh_refresh_zone E self z) (\<lambda>_ _. True)"
  unfolding ovh_refresh_zone_def Let_def
  by (rule observes_attempt, rule observes_signed [OF ovh_apiD(1) [OF assms(1)] ovh_apiD(7) [OF assms]])
    ((simp_all add: signed_as_def)[2], intro editing, auto)

lemma ovh_sync:
  fixes E :: "('r, 'n) ovh_env"
  assumes "ovh_api E self soa up rr"
  shows "observes (online up (\<lambda>_. True)) (\<lambda>w. rr (net w)) S (ovh_sync_time E self) (\<lambda>_ _. True)"
  unfolding observes_def
proof (intro allI impI)
  fix w :: "('n, 'z) ovh_world_scheme"
  assume w: "online up (\<lambda>_. True) w" "S (rr (net w))"
  let ?rq = "\<lparr>rq_method = GET, rq_url = api_base self @ ''/auth/time'', rq_query = [], rq_headers = [], rq_body = None\<rparr>"
  have "observes (online up (\<lambda>_. True)) (\<lambda>w :: ('n, 'z) ovh_world_scheme. rr (net w)) S (send E ?rq) (\<lambda>_ _. True)"
    by (rule observes_send [OF ovh_apiD(1,2) [OF assms]]) simp_all
  with w have "after (send E ?rq) w (\<lambda>r w'. online up (\<lambda>_. True) w' \<and> rr (net w') = rr (net w))"
    unfolding observes_def by (auto elim: after_mono)
  with w show "after (ovh_sync_time E self) w (\<lambda>r w'. online up (\<lambda>_. True) w' \<and> rr (net w') = rr (net w) \<and>
      (\<forall>x. r = Inr x \<longrightarrow> True))"
    by (auto simp: after_def ovh_sync_time_def online_def split: prod.splits sum.splits)
qed

lemma ovh_create:
  assumes "ovh_api E self soa up rr" "zone_for self soa f = Some z" "QUOTE \<notin> set v"
  shows "stores (online up (\<lambda>_. True)) (\<lambda>w. rr (net w)) (ovh_create_record E self z sub v)
    (adds fst (\<lambda>r. trim_matches QUOTE (snd r)) (z, sub) v)"
proof (cases "ovh_to_json E \<lparr>field_type = ''TXT'', sub_domain = sub, ovh_body_target = v, ovh_body_ttl = ttl self\<rparr>")
  case (Inl e)
  then show ?thesis by (auto simp: ovh_create_record_def Let_def stores_def after_simps)
next
  case (Inr b)
  let ?c = "\<lparr>field_type = ''TXT'', sub_domain = sub, ovh_body_target = v, ovh_body_ttl = ttl self\<rparr>"
  have b: "b \<noteq> []" using Inr ovh_apiD(8) [OF assms(1), of ?c] by auto
  have "adds fst (\<lambda>r. trim_matches QUOTE (snd r)) (z, sub) v s s'" if new: "ovh_creates z ?c s s'" for s s' :: ovh_db
  proof -
    obtain t where "t = v \<or> t = quote_txt v" and t: "creates ((z, sub), t) s s'" using new by (auto simp: ovh_creates_def)
    then have "trim_matches QUOTE t = v" using assms(3) by (auto simp: trim_matches_free quote_txt_def)
    with adds_creates [OF t, of fst "\<lambda>r. trim_matches QUOTE (snd r)"] show ?thesis by simp
  qed
  then show ?thesis
    unfolding ovh_create_record_def Let_def Inr map_err_simps attempt_value
    by (intro stores_signed stores_adds [OF ovh_apiD(1) [OF assms(1)] ovh_apiD(5) [OF assms(1,2) _ _ Inr]])
      (auto simp: signed_as_def b split: if_splits)
qed

lemma ovh_delete:
  assumes "ovh_api E self soa up rr" "zone_for self soa f = Some z"
  shows "stores (online up (\<lambda>_. True)) (\<lambda>w. rr (net w)) (ovh_delete_record E self z i) (\<lambda>s s'. s' = s((z, i) := None))"
  unfolding ovh_delete_record_def Let_def
  by (intro stores_signed stores_send [OF ovh_apiD(1) [OF assms(1)] ovh_apiD(6) [OF assms]])
    (auto simp: signed_as_def split: if_splits)

text \<open>The loops over the ids of a subdomain.\<close>

definition ovh_bears :: "string \<Rightarrow> string \<Rightarrow> ovh_db \<Rightarrow> nat \<Rightarrow> bool" where
  "ovh_bears z v s i \<longleftrightarrow> (case s (z, i) of None \<Rightarrow> False | Some r \<Rightarrow> trim_matches QUOTE (snd r) = v)"

lemma ovh_holds_observes:
  fixes E :: "('r, 'n) ovh_env"
  assumes "ovh_api E self soa up rr" "zone_for self soa f = Some z"
  shows "observes (online up (\<lambda>_. True)) (\<lambda>w :: ('n, 'z) ovh_world_scheme. rr (net w)) S (ovh_holds E self z v ids)
    (\<lambda>s found. found \<longleftrightarrow> (\<exists>i \<in> set ids. ovh_bears z v s i))"
proof (induction ids arbitrary: S)
  case (Cons i ids)
  show ?case
    unfolding ovh_holds.simps
  proof (rule observes_attempt [OF ovh_get [OF assms]], intro editing)
    fix r
    assume "ovh_stored r \<noteq> v"
    then show "observes (online up (\<lambda>_. True)) (\<lambda>w :: ('n, 'z) ovh_world_scheme. rr (net w))
        (\<lambda>s. S s \<and> ovh_id r = i \<and> (\<exists>k. s (z, i) = Some (k, ovh_target r))) (ovh_holds E self z v ids)
        (\<lambda>s found. found \<longleftrightarrow> (\<exists>i \<in> set (i # ids). ovh_bears z v s i))"
      by (intro observes_weaken [OF Cons]) (auto simp: ovh_stored_def ovh_bears_def [of z v _ i])
  qed (auto simp: ovh_stored_def ovh_bears_def)
qed (simp add: observes_pure)

definition ovh_marked :: "string \<Rightarrow> string \<Rightarrow> nat list \<Rightarrow> ovh_db \<Rightarrow> (string \<times> nat) set" where
  "ovh_marked z v ids s = Pair z ` {i \<in> set ids. ovh_bears z v s i}"

lemma ovh_marked_Cons:
  "ovh_marked z v (i # ids) s =
   (if ovh_bears z v s i then {(z, i)} \<union> ovh_marked z v ids (s |` (- {(z, i)})) else ovh_marked z v ids s)"
  by (auto simp: ovh_marked_def ovh_bears_def restrict_map_def)

lemma ovh_deletes:
  fixes E :: "('r, 'n) ovh_env"
  assumes "ovh_api E self soa up rr" "zone_for self soa f = Some z"
  shows "drops (online up (\<lambda>_. True)) (\<lambda>w :: ('n, 'z) ovh_world_scheme. rr (net w)) (ovh_marked z v ids)
    (ovh_delete_matching E self z v b ids)"
proof (induction ids arbitrary: b)
  case Nil
  show ?case by (simp add: ovh_marked_def drops_def after_def)
next
  case (Cons i ids)
  let ?st = "\<lambda>w :: ('n, 'z) ovh_world_scheme. rr (net w)"
  let ?M = "\<lambda>x s. if ovh_stored x = v then {(z, ovh_id x)} \<union> ovh_marked z v ids (s |` (- {(z, ovh_id x)})) else ovh_marked z v ids s"
  have "drops (online up (\<lambda>_. True)) ?st (\<lambda>s. {(z, j)} \<union> ovh_marked z v ids (s |` (- {(z, j)})))
      (attempt (ovh_delete_record E self z j) (\<lambda>_. ovh_delete_matching E self z v True ids))" for j
    by (rule drops_then [OF drops_stores [OF ovh_delete [OF assms]] Cons]) simp
  with Cons have body: "drops (online up (\<lambda>_. True)) ?st (?M x)
      (if ovh_stored x = v
       then attempt (ovh_delete_record E self z (ovh_id x)) (\<lambda>_. ovh_delete_matching E self z v True ids)
       else ovh_delete_matching E self z v b ids)" for x
    by simp
  show ?case
    unfolding ovh_delete_matching.simps
    by (rule drops_given [OF ovh_get [OF assms] body]) (auto simp: ovh_marked_Cons ovh_bears_def ovh_stored_def)
qed

section \<open>The contract\<close>

lemma ovh_resolve:
  assumes "quiet_dns (api_dns E) up rr soa" "validate_fqdn f = Inr ()"
  shows "observes (online up (\<lambda>_. True)) (\<lambda>w. rr (net w)) S (ovh_resolve_zone E self f) (\<lambda>_ z. zone_for self soa f = Some z)"
  unfolding ovh_resolve_zone_def by (rule observes_zone_for [OF assms]) simp

lemma ovh_bears_held:
  assumes "Pair z ` set ids = {i. \<exists>d. s i = Some ((z, sub), d)}"
  shows "(\<exists>i \<in> set ids. ovh_bears z v s i) \<longleftrightarrow> v \<in> ovh_values s (Some (z, sub))"
    and "ovh_marked z v ids s = {i. \<exists>r. s i = Some r \<and> fst r = (z, sub) \<and> trim_matches QUOTE (snd r) = v}"
proof -
  have ids: "i \<in> set ids \<longleftrightarrow> (\<exists>d. s (z, i) = Some ((z, sub), d))" for i
  proof -
    have "(z, i) \<in> Pair z ` set ids \<longleftrightarrow> (z, i) \<in> {i. \<exists>d. s i = Some ((z, sub), d)}" using assms by simp
    then show ?thesis by auto
  qed
  have in_z: "fst i = z" if "s i = Some ((z, sub), d)" for i d
  proof -
    have "i \<in> Pair z ` set ids" using assms that by blast
    then show ?thesis by auto
  qed
  show marked: "ovh_marked z v ids s = {i. \<exists>r. s i = Some r \<and> fst r = (z, sub) \<and> trim_matches QUOTE (snd r) = v}"
  proof (rule set_eqI)
    fix i
    show "i \<in> ovh_marked z v ids s \<longleftrightarrow> i \<in> {i. \<exists>r. s i = Some r \<and> fst r = (z, sub) \<and> trim_matches QUOTE (snd r) = v}"
      using in_z [of i] by (cases i) (auto simp: ovh_marked_def ovh_bears_def ids)
  qed
  have "(\<exists>i \<in> set ids. ovh_bears z v s i) \<longleftrightarrow> ovh_marked z v ids s \<noteq> {}" by (auto simp: ovh_marked_def)
  then show "(\<exists>i \<in> set ids. ovh_bears z v s i) \<longleftrightarrow> v \<in> ovh_values s (Some (z, sub))"
    unfolding marked by (auto simp: ovh_values_def held_def)
qed

lemma ovh_present_edits:
  fixes E :: "('r, 'n) ovh_env"
  assumes "ovh_api E self soa up rr" "quiet_dns (api_dns E) up rr soa"
  shows "edits (online up (\<lambda>_. True)) (\<lambda>w :: ('n, 'z) ovh_world_scheme. rr (net w)) ovh_values (\<lambda>_. True)
    (ovh_owner self soa f) v True (ovh_present E self f v)"
  unfolding ovh_present_def ovh_owner_def Let_def
proof (intro editing edits_in_zone ovh_resolve assms)
  fix u :: unit and z sub
  assume z: "zone_for self soa (to_ascii_lowercase f) = Some z" and v: "validate_acme_value v = Inr u"
  let ?st = "\<lambda>w :: ('n, 'z) ovh_world_scheme. rr (net w)"
  have new: "stores (online up (\<lambda>_. True)) ?st (attempt (ovh_create_record E self z sub v) (\<lambda>_. ovh_refresh_zone E self z))
      (adds fst (\<lambda>r. trim_matches QUOTE (snd r)) (z, sub) v)"
    using v by (intro stores_then [OF ovh_create [OF assms(1) z] ovh_refresh [OF assms(1) z]]) (simp add: acme_value_no_quote)
  show "edits (online up (\<lambda>_. True)) ?st ovh_values (\<lambda>_. True) (Some (z, sub)) v True
      (attempt (ovh_sync_time E self) (\<lambda>_. attempt (ovh_list_records E self z sub) (\<lambda>ids.
       attempt (ovh_holds E self z v ids) (\<lambda>found. if found then done_ok ()
       else attempt (ovh_create_record E self z sub v) (\<lambda>_. ovh_refresh_zone E self z)))))"
    by (rule edits_attempt [OF ovh_sync [OF assms(1)]], rule edits_attempt [OF ovh_list [OF assms(1) z]],
        rule edits_attempt [OF ovh_holds_observes [OF assms(1) z]], intro editing edits_store [OF new])
      (auto simp: ovh_bears_held adds_def ovh_values_def)
qed (simp add: validate_fqdn_lower)

lemma ovh_cleanup_edits:
  fixes E :: "('r, 'n) ovh_env"
  assumes "ovh_api E self soa up rr" "quiet_dns (api_dns E) up rr soa"
  shows "edits (online up (\<lambda>_. True)) (\<lambda>w :: ('n, 'z) ovh_world_scheme. rr (net w)) ovh_values (\<lambda>_. True)
    (ovh_owner self soa f) v False (ovh_cleanup E self f v)"
  unfolding ovh_cleanup_def ovh_owner_def Let_def
proof (intro editing edits_in_zone ovh_resolve assms)
  fix z sub
  assume z: "zone_for self soa (to_ascii_lowercase f) = Some z"
  let ?st = "\<lambda>w :: ('n, 'z) ovh_world_scheme. rr (net w)"
  have "drops (online up (\<lambda>_. True)) ?st (\<lambda>_. {}) (if b then ovh_refresh_zone E self z else done_ok ())" for b
    by (cases b) (simp_all only: drops_observes [OF ovh_refresh [OF assms(1) z]] drops_done if_True if_False)
  then have loop: "drops (online up (\<lambda>_. True)) ?st (ovh_marked z v ids)
      (attempt (ovh_delete_matching E self z v False ids) (\<lambda>b. if b then ovh_refresh_zone E self z else done_ok ()))" for ids
    by (rule drops_then [OF ovh_deletes [OF assms(1) z]]) simp
  show "edits (online up (\<lambda>_. True)) ?st ovh_values (\<lambda>_. True) (Some (z, sub)) v False
      (attempt (ovh_sync_time E self) (\<lambda>_. attempt (ovh_list_records E self z sub) (\<lambda>ids.
       attempt (ovh_delete_matching E self z v False ids) (\<lambda>deleted_any.
       if deleted_any then ovh_refresh_zone E self z else done_ok ()))))"
    unfolding ovh_values_def
    by (rule edits_attempt [OF ovh_sync [OF assms(1)]], rule edits_attempt [OF ovh_list [OF assms(1) z]],
        rule edits_drops [OF loop]) (simp add: ovh_bears_held)
qed (simp add: validate_fqdn_lower)

text \<open>C18: the OVH provider keeps the provider contract on the zone's database, for any server with the documented
  behaviour and whatever the clocks say.\<close>

theorem ovh_contract:
  assumes "ovh_api E self soa up rr" "quiet_dns (api_dns E) up rr soa"
  shows "dns_provider (ovh_provider E self) (\<lambda>w. ovh_values (rr (net w))) (ovh_owner self soa) (online up (\<lambda>_. True))"
  by (rule dns_providerI [where st = "\<lambda>w. rr (net w)" and T = ovh_values])
    (simp_all add: ovh_present_edits [OF assms] ovh_cleanup_edits [OF assms])

section \<open>A server\<close>

text \<open>
  An account with the zone \<open>a.org\<close> and room for three records. The published zone is the database at the last
  refresh; the server refuses a number of refreshes. Request bodies are packed strings.
\<close>

record ovh_net =
  database :: ovh_db
  published :: ovh_db
  refusals :: nat

record ovh_answer =
  ans_ovh_ids :: "nat list"
  ans_ovh_record :: OvhRecord

definition ovh_places :: "(string \<times> nat) list" where
  "ovh_places = [(''a.org'', 0), (''a.org'', 1), (''a.org'', 2)]"

definition ovh_fits :: "string \<times> nat \<Rightarrow> (string \<times> string) \<times> string \<Rightarrow> bool" where
  "ovh_fits i r \<longleftrightarrow> fst i = ''a.org'' \<and> fst (fst r) = ''a.org''"

definition ovh_encode :: "OvhCreateRecordBody \<Rightarrow> string" where
  "ovh_encode c = pack [sub_domain c, ovh_body_target c]"

definition ovh_decode :: "string \<Rightarrow> string \<times> string" where
  "ovh_decode b = (unpack b ! 0, unpack b ! 1)"

definition ovh_server :: "string request \<Rightarrow> ovh_net \<Rightarrow> (reqwest_error + ovh_answer response) \<times> ovh_net" where
  "ovh_server rq n =
     (let body = (\<lambda>ids r. \<lparr>ans_ovh_ids = ids, ans_ovh_record = r\<rparr>); none = \<lparr>ovh_id = 0, ovh_target = []\<rparr>;
          item = find (\<lambda>i. rq_url rq = ''api/domain/zone/a.org/record/'' @ show_nat (snd i)) ovh_places in
      case rq_method rq of
        POST \<Rightarrow>
          (if rq_url rq = ''api/domain/zone/a.org/record'' then
             (case (rq_body rq, free_place ovh_places (database n)) of
                (Some b, Some i) \<Rightarrow> (answer 200 (body [] none),
                  n\<lparr>database := (database n)(i \<mapsto> ((''a.org'', fst (ovh_decode b)), quote_txt (snd (ovh_decode b))))\<rparr>)
              | _ \<Rightarrow> (answer 403 (body [] none), n))
           else if refusals n = 0 then (answer 200 (body [] none), n\<lparr>published := database n\<rparr>)
           else (answer 503 (body [] none), n\<lparr>refusals := refusals n - 1\<rparr>))
      | DELETE \<Rightarrow>
          (case item of
             Some i \<Rightarrow> (answer 200 (body [] none), n\<lparr>database := (database n)(i := None)\<rparr>)
           | None \<Rightarrow> (answer 404 (body [] none), n))
      | _ \<Rightarrow>
          (case item of
             Some i \<Rightarrow>
               (case database n i of
                  Some r \<Rightarrow> (answer 200 (body [] \<lparr>ovh_id = snd i, ovh_target = snd r\<rparr>), n)
                | None \<Rightarrow> (answer 404 (body [] none), n))
           | None \<Rightarrow>
               (case strip_prefix ''api/domain/zone/a.org/record?fieldType=TXT&subDomain='' (rq_url rq) of
                  Some sub \<Rightarrow> (answer 200 (body (map (\<lambda>x. snd (fst x))
                    (pick ovh_places (\<lambda>r. fst r = (''a.org'', sub)) (database n))) none), n)
                | None \<Rightarrow> (answer 404 (body [] none), n))))"

definition demo_ovh :: "(ovh_answer, ovh_net) ovh_env" where
  "demo_ovh = api_around ovh_server (\<lambda>_. False)
     (ovh_env.fields (\<lambda>s. s) (\<lambda>c. Inr (ovh_encode c)) (\<lambda>_. Some 7) (\<lambda>_. Inr 9) (\<lambda>b. Inr (ans_ovh_ids b))
       (\<lambda>b. Inr (ans_ovh_record b)))"

definition demo_ovh_provider :: OvhProvider where
  "demo_ovh_provider = \<lparr>api_base = ''api'', zone_override = Some ''a.org'', ttl = 2, cfg_timeout = 1,
     application_key = ''k'', application_secret = ''s'', consumer_key = ''c''\<rparr>"

definition demo_ovh_world :: "nat \<Rightarrow> ovh_net ovh_world" where
  "demo_ovh_world k =
     \<lparr>RESOLVER = None, net = \<lparr>database = [(''a.org'', 1) \<mapsto> ((''a.org'', ''_acme-challenge''), quote_txt ''other'')],
        published = Map.empty, refusals = k\<rparr>, time_delta = None\<rparr>"

lemma demo_ovh_run:
  "fst (ovh_present demo_ovh demo_ovh_provider ''_acme-challenge.A.org'' ''v'' (demo_ovh_world 0)) = Inr ()"
  "fst (ovh_cleanup demo_ovh demo_ovh_provider ''_acme-challenge.A.org'' ''v''
     (snd (ovh_present demo_ovh demo_ovh_provider ''_acme-challenge.A.org'' ''v'' (demo_ovh_world 0)))) = Inr ()"
  by code_simp+

lemma demo_ovh_sel:
  "http_send demo_ovh = ovh_server" "idles demo_ovh up view" "encode_path demo_ovh s = s"
  "api_dns demo_ovh = still_dns (\<lambda>_. False)" "ovh_to_json demo_ovh = (\<lambda>c. Inr (ovh_encode c))"
  "ovh_ids_json demo_ovh = (\<lambda>b. Inr (ans_ovh_ids b))" "ovh_record_json demo_ovh = (\<lambda>b. Inr (ans_ovh_record b))"
  by (simp_all add: demo_ovh_def api_around_def ovh_env.defs encode_path_def idles_def)

lemma ovh_decode_encode: "ovh_decode (ovh_encode c) = (sub_domain c, ovh_body_target c)"
  by (simp add: ovh_decode_def ovh_encode_def)

lemma ovh_place_fits: "i \<in> set ovh_places \<Longrightarrow> ovh_fits i ((''a.org'', nm), d)" "i \<in> set ovh_places \<Longrightarrow> fst i = ''a.org''"
  by (auto simp: ovh_places_def ovh_fits_def)

lemma demo_ovh_zone: "zone_for demo_ovh_provider (\<lambda>_. False) f = Some z \<Longrightarrow> z = ''a.org''"
  by (simp add: zone_for_def demo_ovh_provider_def)

lemma ovh_item:
  "rq_url rq = ovh_record_item_url demo_ovh demo_ovh_provider ''a.org'' i \<Longrightarrow>
   find (\<lambda>j. rq_url rq = ''api/domain/zone/a.org/record/'' @ show_nat (snd j)) ovh_places =
   (if (''a.org'', i) \<in> set ovh_places then Some (''a.org'', i) else None)"
  using find_id [of ovh_places "''a.org''" i]
  by (simp add: ovh_record_item_url_def demo_ovh_provider_def demo_ovh_sel ovh_place_fits)

lemma ovh_not_list:
  "rq_url rq = ovh_record_item_url demo_ovh demo_ovh_provider ''a.org'' i \<Longrightarrow>
   strip_prefix ''api/domain/zone/a.org/record?fieldType=TXT&subDomain='' (rq_url rq) = None"
  by (simp add: ovh_record_item_url_def demo_ovh_provider_def demo_ovh_sel strip_prefix_def)

lemma ovh_not_item:
  assumes "rq_url rq = ovh_list_url demo_ovh demo_ovh_provider ''a.org'' sub"
  shows "find (\<lambda>j. rq_url rq = ''api/domain/zone/a.org/record/'' @ show_nat (snd j)) ovh_places = None"
    and "strip_prefix ''api/domain/zone/a.org/record?fieldType=TXT&subDomain='' (rq_url rq) = Some sub"
  using assms
  by (simp_all add: find_None_iff ovh_list_url_def ovh_record_list_url_def demo_ovh_provider_def demo_ovh_sel strip_prefix_eq_Some)

lemma ovh_listing:
  assumes "roomy ovh_places ovh_fits s"
  shows "Pair ''a.org'' ` set (map (\<lambda>x. snd (fst x)) (pick ovh_places (\<lambda>r. fst r = (''a.org'', sub)) s)) =
    {i. \<exists>d. s i = Some ((''a.org'', sub), d)}"
proof -
  have "Pair ''a.org'' (snd (fst x)) = fst x" if "x \<in> set (pick ovh_places P s)" for x P
    using that ovh_place_fits(2) [of "fst x"] by (simp add: set_pick prod_eq_iff)
  then have "Pair ''a.org'' ` set (map (\<lambda>x. snd (fst x)) (pick ovh_places P s)) = fst ` set (pick ovh_places P s)" for P
    by (simp add: image_image)
  then have "Pair ''a.org'' ` set (map (\<lambda>x. snd (fst x)) (pick ovh_places (\<lambda>r. fst r = (''a.org'', sub)) s)) =
      {i \<in> set ovh_places. \<exists>r. s i = Some r \<and> fst r = (''a.org'', sub)}" by (simp only: fst_pick)
  also have "\<dots> = {i. \<exists>r. s i = Some r \<and> fst r = (''a.org'', sub)}" using assms unfolding roomy_def by blast
  finally show ?thesis by (simp add: prod_eq_iff)
qed

lemma demo_ovh_api:
  "ovh_api demo_ovh demo_ovh_provider (\<lambda>_. False) (\<lambda>n. roomy ovh_places ovh_fits (database n)) database"
  unfolding ovh_api_def
proof (intro conjI allI impI)
  let ?up = "\<lambda>n. roomy ovh_places ovh_fits (database n)"
  fix f z sub i c b and rq :: "string request"
  show "reads demo_ovh ?up database rq (\<lambda>_ _. True)" if "rq_method rq = GET"
    unfolding reads_def demo_ovh_sel ovh_server_def that http_method.case Let_def by (auto split: option.splits)
  show "ovh_to_json demo_ovh c \<noteq> Inr []" by (simp add: demo_ovh_sel ovh_encode_def pack_def)
  assume "zone_for demo_ovh_provider (\<lambda>_. False) f = Some z"
  then have z: "z = ''a.org''" by (rule demo_ovh_zone)
  show "reads demo_ovh ?up database rq (\<lambda>s resp. is_success (rs_status resp) \<longrightarrow>
      (\<forall>ids. ovh_ids_json demo_ovh (rs_body resp) = Inr ids \<longrightarrow> Pair z ` set ids = {i. \<exists>d. s i = Some ((z, sub), d)}))"
    if rq: "rq_method rq = GET" "rq_url rq = ovh_list_url demo_ovh demo_ovh_provider z sub"
    unfolding reads_def demo_ovh_sel ovh_server_def rq(1) http_method.case Let_def ovh_not_item [OF rq(2) [unfolded z]] option.case z
    by (auto simp: answer_def ovh_listing simp del: set_map)
  show "reads demo_ovh ?up database rq (\<lambda>s resp. is_success (rs_status resp) \<longrightarrow>
      (\<forall>x. ovh_record_json demo_ovh (rs_body resp) = Inr x \<longrightarrow> ovh_id x = i \<and> (\<exists>k. s (z, i) = Some (k, ovh_target x))))"
    if rq: "rq_method rq = GET" "rq_url rq = ovh_record_item_url demo_ovh demo_ovh_provider z i"
    unfolding reads_def demo_ovh_sel ovh_server_def rq(1) http_method.case Let_def ovh_item [OF rq(2) [unfolded z]] z
    by (auto simp: answer_def is_success_def ovh_not_list [OF rq(2) [unfolded z]] split: option.splits if_splits)
  show "writes demo_ovh ?up database rq (ovh_creates z c) (\<lambda>resp. is_success (rs_status resp))"
    if rq: "rq_method rq = POST" "rq_url rq = ovh_record_list_url demo_ovh demo_ovh_provider z"
      "ovh_to_json demo_ovh c = Inr b" "rq_body rq = Some b"
  proof -
    have url: "rq_url rq = ''api/domain/zone/a.org/record''"
      by (simp add: rq z ovh_record_list_url_def demo_ovh_provider_def demo_ovh_sel)
    have b: "ovh_decode b = (sub_domain c, ovh_body_target c)" using rq(3) ovh_decode_encode [of c] by (simp add: demo_ovh_sel)
    show ?thesis
      unfolding writes_def demo_ovh_sel ovh_server_def rq(1) http_method.case Let_def url rq(4) z
      by (auto simp: b answer_def is_success_def ovh_creates_def free_place_creates roomy_upd ovh_place_fits split: option.splits)
  qed
  show "writes demo_ovh ?up database rq (\<lambda>s s'. s' = s((z, i) := None)) (\<lambda>resp. is_success (rs_status resp) \<or> rs_status resp = 404)"
    if rq: "rq_method rq = DELETE" "rq_url rq = ovh_record_item_url demo_ovh demo_ovh_provider z i"
    unfolding writes_def demo_ovh_sel ovh_server_def rq(1) http_method.case Let_def ovh_item [OF rq(2) [unfolded z]] z
    by (auto simp: answer_def roomy_upd roomy_absent split: if_splits)
  show "reads demo_ovh ?up database rq (\<lambda>_ _. True)"
    if rq: "rq_method rq = POST" "rq_url rq = ovh_refresh_url demo_ovh demo_ovh_provider z"
  proof -
    have url: "rq_url rq \<noteq> ''api/domain/zone/a.org/record''"
      by (simp add: rq z ovh_refresh_url_def demo_ovh_provider_def demo_ovh_sel)
    show ?thesis unfolding reads_def demo_ovh_sel ovh_server_def rq(1) http_method.case Let_def by (auto simp: url)
  qed
qed (simp add: demo_ovh_sel)

lemma demo_ovh_start: "online (\<lambda>n. roomy ovh_places ovh_fits (database n)) (\<lambda>_. True) (demo_ovh_world k)"
  by (auto simp: online_def roomy_def ovh_places_def ovh_fits_def demo_ovh_world_def split: if_splits)

theorem ovh_contract_witness:
  "\<exists>w1 w2. present (ovh_provider demo_ovh demo_ovh_provider) ''_acme-challenge.A.org'' ''v'' (demo_ovh_world 0) = (Inr (), w1)
     \<and> ''v'' \<in> ovh_values (database (net w1)) (ovh_owner demo_ovh_provider (\<lambda>_. False) ''_acme-challenge.A.org'')
     \<and> cleanup (ovh_provider demo_ovh demo_ovh_provider) ''_acme-challenge.A.org'' ''v'' w1 = (Inr (), w2)
     \<and> ovh_values (database (net w2)) = ovh_values (database (net (demo_ovh_world 0)))"
proof -
  note contract = ovh_contract [OF demo_ovh_api, unfolded demo_ovh_sel, OF quiet_still_dns]
  have "trim_matches QUOTE (quote_txt ''other'') = ''other''" by code_simp
  then have "''v'' \<notin> ovh_values (database (net (demo_ovh_world 0))) k" for k
    by (auto simp: ovh_values_def held_def demo_ovh_world_def split: if_splits)
  then show ?thesis
    by (intro dns_provider.round_trip [OF contract]) (simp_all add: demo_ovh_run demo_ovh_start)
qed

text \<open>When publishing the zone fails, present returns an error; the retry finds the record in the database and
  returns Ok without publishing, so the value is in the database and not in the published zone.\<close>

theorem ovh_retry_unpublished:
  "let w1 = snd (ovh_present demo_ovh demo_ovh_provider ''_acme-challenge.a.org'' ''v'' (demo_ovh_world 1));
       (r, w2) = ovh_present demo_ovh demo_ovh_provider ''_acme-challenge.a.org'' ''v'' w1
   in fst (ovh_present demo_ovh demo_ovh_provider ''_acme-challenge.a.org'' ''v'' (demo_ovh_world 1)) \<noteq> Inr ()
      \<and> r = Inr ()
      \<and> database (net w2) (''a.org'', 0) = Some ((''a.org'', ''_acme-challenge''), quote_txt ''v'')
      \<and> published (net w2) (''a.org'', 0) = None"
  by code_simp

end
