(* ===== verification/Bunny.thy ===== *)
theory Bunny
  imports Record_Kit Provider_Config
begin

text \<open>
  The Bunny provider (\<open>providers/bunny.rs\<close>): the zone of a name is the longest matching domain of the account's
  paged zone list, and a zone is read with all its records at once. A record is added by \<open>PUT\<close>.
\<close>

section \<open>Configuration\<close>

definition BUNNY_API_BASE :: string where
  "BUNNY_API_BASE = ''https://api.bunny.net''"

definition BUNNY_ENV_API_KEY :: string where
  "BUNNY_ENV_API_KEY = ''BUNNY_API_KEY''"

definition ACCESS_KEY_HEADER :: string where
  "ACCESS_KEY_HEADER = ''AccessKey''"

definition RECORD_TYPE_TXT :: nat where
  "RECORD_TYPE_TXT = 3"

definition BUNNY_DEFAULT_TTL :: nat where
  "BUNNY_DEFAULT_TTL = 60"

definition BUNNY_PER_PAGE :: nat where
  "BUNNY_PER_PAGE = 1000"

definition BUNNY_MAX_PAGES :: nat where
  "BUNNY_MAX_PAGES = 50"

definition BUNNY_MAX_ERROR_MESSAGE :: nat where
  "BUNNY_MAX_ERROR_MESSAGE = 512"

definition BUNNY_PROVIDER :: string where
  "BUNNY_PROVIDER = ''bunny''"

record BunnyZoneSummary =
  bunny_zone_id :: int
  bunny_zone_domain :: string

record BunnyZoneList =
  bunny_items :: "BunnyZoneSummary list option"
  has_more_items :: bool

record BunnyRecord =
  bunny_id :: int
  bunny_type :: nat
  bunny_record_name :: "string option"
  bunny_record_value :: "string option"

record BunnyZone =
  bunny_records :: "BunnyRecord list option"

record BunnyAddRecordBody =
  add_type :: nat
  add_ttl :: nat
  add_value :: string
  add_name :: string

record BunnyErrorBody =
  error_key :: "string option"
  error_message :: "string option"

record Zone =
  zone_id :: int
  zone_domain :: string

record ('r, 'n) bunny_env = "(BunnyAddRecordBody, 'r, 'n) api_env" +
  bunny_zones_json :: "'r \<Rightarrow> reqwest_error + BunnyZoneList"
  bunny_zone_json :: "'r \<Rightarrow> reqwest_error + BunnyZone"
  bunny_error_json :: "string \<Rightarrow> BunnyErrorBody option"

record BunnyConfig = api_config +
  bunny_api_key :: string

type_synonym BunnyProvider = BunnyConfig

definition BunnyConfig_new :: "string \<Rightarrow> BunnyConfig" where
  "BunnyConfig_new key =
     \<lparr>api_base = BUNNY_API_BASE, zone_override = None, ttl = BUNNY_DEFAULT_TTL, cfg_timeout = HTTP_TIMEOUT,
      bunny_api_key = key\<rparr>"

definition bunny_with_api_base :: "('r, 'n) bunny_env \<Rightarrow> string \<Rightarrow> BunnyConfig \<Rightarrow> BunnyConfig result" where
  "bunny_with_api_base E base config = set_api_base E BUNNY_PROVIDER base config"

definition bunny_with_zone :: "string \<Rightarrow> BunnyConfig \<Rightarrow> BunnyConfig result" where
  "bunny_with_zone zone config = set_zone zone config"

definition bunny_with_ttl :: "nat \<Rightarrow> BunnyConfig \<Rightarrow> BunnyConfig result" where
  "bunny_with_ttl t config = and_then (validate_ttl t) (\<lambda>t. Inr (config\<lparr>ttl := t\<rparr>))"

definition bunny_with_timeout :: "duration \<Rightarrow> BunnyConfig \<Rightarrow> BunnyConfig" where
  "bunny_with_timeout t config = config\<lparr>cfg_timeout := t\<rparr>"

interpretation bunny_config: config_builder "url_parse E" BUNNY_PROVIDER "0" "MAX_TTL" "BunnyConfig_new t" "bunny_with_api_base E"
  bunny_with_zone bunny_with_ttl bunny_with_timeout for E :: "('r, 'n) bunny_env" and t
  by unfold_locales
    (auto simp: bunny_with_api_base_def bunny_with_zone_def bunny_with_ttl_def bunny_with_timeout_def BunnyConfig_new_def BUNNY_DEFAULT_TTL_def builder_simps)

definition BunnyProvider_new :: "('r, 'n) bunny_env \<Rightarrow> BunnyConfig \<Rightarrow> BunnyProvider result" where
  "BunnyProvider_new E config =
     and_then (build_client E (cfg_timeout config) CONNECT_TIMEOUT) (\<lambda>_. Inr config)"

definition bunny_from_env :: "('r, 'n) bunny_env \<Rightarrow> BunnyProvider result" where
  "bunny_from_env E =
     and_then (required_var E BUNNY_ENV_API_KEY) (\<lambda>key. BunnyProvider_new E (BunnyConfig_new key))"

section \<open>Errors and names\<close>

definition bunny_truncate :: "string \<Rightarrow> string" where
  "bunny_truncate raw =
     (if length raw \<le> BUNNY_MAX_ERROR_MESSAGE then raw
      else take (floor_boundary raw BUNNY_MAX_ERROR_MESSAGE) raw @ TRUNCATED)"

definition bunny_check_error ::
  "('r, 'n) bunny_env \<Rightarrow> string \<Rightarrow> string \<Rightarrow> nat \<Rightarrow> 'r response \<Rightarrow> DnsError" where
  "bunny_check_error E meth path status response =
     (if status = 429
      then
        (let hint = (case rs_header response ''retry-after'' of
               Some secs \<Rightarrow> ''retry after '' @ secs @ ''s'' | None \<Rightarrow> ''retry later'') in
         Api (BUNNY_PROVIDER @ '' '' @ meth @ '' '' @ path @ '' was rate limited (429), '' @ hint))
      else if status = 401
      then Auth (BUNNY_PROVIDER @ '' '' @ meth @ '' '' @ path @ '' rejected the API key (401)'')
      else if \<not> (case rs_header response ''content-type'' of Some ct \<Rightarrow> str_contains ''json'' ct | None \<Rightarrow> False)
      then api_error E BUNNY_PROVIDER meth path status response
      else
        (let raw = (case http_text E (rs_body response) of Inl _ \<Rightarrow> [] | Inr t \<Rightarrow> t);
             detail = (case Option.bind (bunny_error_json E raw) (\<lambda>b. map_option (Pair (error_key b)) (error_message b)) of
               Some (Some key, message) \<Rightarrow> bunny_truncate key @ '': '' @ bunny_truncate message
             | Some (None, message) \<Rightarrow> bunny_truncate message
             | None \<Rightarrow> bunny_truncate raw) in
         Api (BUNNY_PROVIDER @ '' '' @ meth @ '' '' @ path @ '' returned '' @ status_display E status @ '': '' @ detail)))"

definition is_suffix :: "string \<Rightarrow> string \<Rightarrow> bool" where
  "is_suffix name zone \<longleftrightarrow>
     eq_ignore_ascii_case name zone \<or>
     length name > length zone \<and> name ! (length name - length zone - 1) = DOT \<and>
     eq_ignore_ascii_case (drop (length name - length zone) name) zone"

definition record_name :: "BunnyRecord \<Rightarrow> string" where
  "record_name r =
     (let name = (case bunny_record_name r of Some n \<Rightarrow> n | None \<Rightarrow> []) in if name = ''@'' then [] else name)"

definition record_value :: "BunnyRecord \<Rightarrow> string" where
  "record_value r = trim_matches QUOTE (trim (case bunny_record_value r of Some v \<Rightarrow> v | None \<Rightarrow> []))"

definition bunny_name :: "string \<Rightarrow> string \<Rightarrow> string result" where
  "bunny_name fqdn zone =
     and_then (relative_name fqdn zone) (\<lambda>rname. Inr (if rname = ''@'' then [] else rname))"

section \<open>The API calls\<close>

definition bunny_zone_path :: "int \<Rightarrow> string" where
  "bunny_zone_path i = ''/dnszone/'' @ show_int i"

definition bunny_records_path :: "int \<Rightarrow> string" where
  "bunny_records_path i = ''/dnszone/'' @ show_int i @ ''/records''"

definition bunny_record_item_path :: "int \<Rightarrow> int \<Rightarrow> string" where
  "bunny_record_item_path i j = ''/dnszone/'' @ show_int i @ ''/records/'' @ show_int j"

definition bunny_url :: "BunnyProvider \<Rightarrow> string \<Rightarrow> string" where
  "bunny_url self path = api_base self @ path"

definition bunny_request ::
  "BunnyProvider \<Rightarrow> http_method \<Rightarrow> string \<Rightarrow> (string \<times> string) list \<Rightarrow> BunnyAddRecordBody option \<Rightarrow> BunnyAddRecordBody request" where
  "bunny_request self meth path query body =
     \<lparr>rq_method = meth, rq_url = bunny_url self path, rq_query = query,
      rq_headers = [(ACCESS_KEY_HEADER, bunny_api_key self)], rq_body = body\<rparr>"

definition bunny_zones_request :: "BunnyProvider \<Rightarrow> string \<Rightarrow> nat \<Rightarrow> BunnyAddRecordBody request" where
  "bunny_zones_request self search page =
     bunny_request self GET ''/dnszone''
       [(''search'', search), (''perPage'', show_nat BUNNY_PER_PAGE), (''page'', show_nat page)] None"

definition bunny_zone_of :: "BunnyZoneSummary \<Rightarrow> Zone" where
  "bunny_zone_of z =
     \<lparr>zone_id = bunny_zone_id z, zone_domain = to_ascii_lowercase (trim_end_matches DOT (bunny_zone_domain z))\<rparr>"

definition bunny_fetch_page ::
  "('r, 'n) bunny_env \<Rightarrow> BunnyProvider \<Rightarrow> string \<Rightarrow> nat \<Rightarrow> (('n, 'z) world_scheme, Zone list \<times> DnsError option) io" where
  "bunny_fetch_page E self search page =
     attempt (send E (bunny_zones_request self search page)) (\<lambda>response.
     let status = rs_status response in
     if \<not> is_success status then fail_with (bunny_check_error E ''GET'' ''/dnszone'' status response)
     else
       attempt (read_json (bunny_zones_json E) response) (\<lambda>body.
       done_ok (map bunny_zone_of (case bunny_items body of Some zs \<Rightarrow> zs | None \<Rightarrow> []),
         if has_more_items body
         then Some (Api (BUNNY_PROVIDER @ '' GET /dnszone: more than '' @ show_nat BUNNY_MAX_PAGES @ '' pages of zones''))
         else None)))"

definition bunny_list_zones ::
  "('r, 'n) bunny_env \<Rightarrow> BunnyProvider \<Rightarrow> string \<Rightarrow> (('n, 'z) world_scheme, Zone list) io" where
  "bunny_list_zones E self search = page_loop BUNNY_MAX_PAGES (bunny_fetch_page E self search) [] 1"

text \<open>\<open>Iterator::max_by_key\<close>: the last element with the largest key.\<close>

fun max_by_key :: "('a \<Rightarrow> nat) \<Rightarrow> 'a list \<Rightarrow> 'a option" where
  "max_by_key f [] = None"
| "max_by_key f (x # xs) =
     (case max_by_key f xs of None \<Rightarrow> Some x | Some y \<Rightarrow> if f y < f x then Some x else Some y)"

definition bunny_search :: "string \<Rightarrow> string" where
  "bunny_search name = (let labels = split_char DOT name in join [DOT] (drop (length labels - 2) labels))"

definition bunny_resolve_zone ::
  "('r, 'n) bunny_env \<Rightarrow> BunnyProvider \<Rightarrow> string \<Rightarrow> (('n, 'z) world_scheme, Zone) io" where
  "bunny_resolve_zone E self fqdn =
     (let name = trim_end_matches DOT fqdn in
      case zone_override self of
        Some zone \<Rightarrow>
          attempt (bunny_list_zones E self zone) (\<lambda>zones.
          from_result (ok_or (ZoneNotFound zone) (find (\<lambda>z. zone_domain z = zone) zones)))
      | None \<Rightarrow>
          attempt (bunny_list_zones E self (bunny_search name)) (\<lambda>zones.
          from_result (ok_or (ZoneNotFound fqdn)
            (max_by_key (\<lambda>z. length (zone_domain z)) (filter (\<lambda>z. is_suffix name (zone_domain z)) zones)))))"

definition bunny_list_matching_records ::
  "('r, 'n) bunny_env \<Rightarrow> BunnyProvider \<Rightarrow> Zone \<Rightarrow> string \<Rightarrow> (('n, 'z) world_scheme, BunnyRecord list) io" where
  "bunny_list_matching_records E self zone rname =
     (let path = bunny_zone_path (zone_id zone) in
      attempt (send E (bunny_request self GET path [] None)) (\<lambda>response.
      let status = rs_status response in
      if status = 404 then fail_with (ZoneNotFound (zone_domain zone))
      else if \<not> is_success status then fail_with (bunny_check_error E ''GET'' path status response)
      else
        attempt (read_json (bunny_zone_json E) response) (\<lambda>body.
        done_ok (filter (\<lambda>r. bunny_type r = RECORD_TYPE_TXT \<and> eq_ignore_ascii_case (record_name r) rname)
          (case bunny_records body of Some rs \<Rightarrow> rs | None \<Rightarrow> [])))))"

definition bunny_create_record ::
  "('r, 'n) bunny_env \<Rightarrow> BunnyProvider \<Rightarrow> Zone \<Rightarrow> string \<Rightarrow> string \<Rightarrow> (('n, 'z) world_scheme, unit) io" where
  "bunny_create_record E self zone rname v =
     (let path = bunny_records_path (zone_id zone);
          body = \<lparr>add_type = RECORD_TYPE_TXT, add_ttl = ttl self, add_value = v, add_name = rname\<rparr> in
      attempt (send E (bunny_request self PUT path [] (Some body))) (\<lambda>response.
      let status = rs_status response in
      if status = 404 then fail_with (ZoneNotFound (zone_domain zone))
      else if \<not> is_success status then fail_with (bunny_check_error E ''PUT'' path status response)
      else done_ok ()))"

definition bunny_delete_record ::
  "('r, 'n) bunny_env \<Rightarrow> BunnyProvider \<Rightarrow> Zone \<Rightarrow> int \<Rightarrow> (('n, 'z) world_scheme, unit) io" where
  "bunny_delete_record E self zone i =
     (let path = bunny_record_item_path (zone_id zone) i in
      attempt (send E (bunny_request self DELETE path [] None)) (\<lambda>response.
      let status = rs_status response in
      if \<not> is_success status \<and> status \<noteq> 404 then fail_with (bunny_check_error E ''DELETE'' path status response)
      else done_ok ()))"

section \<open>The provider\<close>

definition bunny_present ::
  "('r, 'n) bunny_env \<Rightarrow> BunnyProvider \<Rightarrow> string \<Rightarrow> string \<Rightarrow> (('n, 'z) world_scheme, unit) io" where
  "bunny_present E self fqdn v =
     attempt (from_result (validate_fqdn fqdn)) (\<lambda>_.
     let fqdn = to_ascii_lowercase fqdn in
     attempt (from_result (validate_acme_value v)) (\<lambda>_.
     attempt (bunny_resolve_zone E self fqdn) (\<lambda>zone.
     attempt (from_result (bunny_name fqdn (zone_domain zone))) (\<lambda>rname.
     with_lock BUNNY_PROVIDER (zone_domain zone @ ''|'' @ rname) (
     attempt (bunny_list_matching_records E self zone rname) (\<lambda>existing.
     if list_ex (\<lambda>r. record_value r = v) existing then done_ok ()
     else bunny_create_record E self zone rname v))))))"

definition bunny_cleanup ::
  "('r, 'n) bunny_env \<Rightarrow> BunnyProvider \<Rightarrow> string \<Rightarrow> string \<Rightarrow> (('n, 'z) world_scheme, unit) io" where
  "bunny_cleanup E self fqdn v =
     attempt (from_result (validate_fqdn fqdn)) (\<lambda>_.
     let fqdn = to_ascii_lowercase fqdn in
     attempt (bunny_resolve_zone E self fqdn) (\<lambda>zone.
     attempt (from_result (bunny_name fqdn (zone_domain zone))) (\<lambda>rname.
     with_lock BUNNY_PROVIDER (zone_domain zone @ ''|'' @ rname) (
     attempt (bunny_list_matching_records E self zone rname) (
     try_for (\<lambda>r. if record_value r = v then bunny_delete_record E self zone (bunny_id r) else done_ok ()))))))"

definition bunny_provider :: "('r, 'n) bunny_env \<Rightarrow> BunnyProvider \<Rightarrow> ('n, 'z) world_scheme DnsProvider" where
  "bunny_provider E self =
     \<lparr>present = bunny_present E self, cleanup = bunny_cleanup E self, provider_timing = PropagationTiming_default\<rparr>"

lemma bunny_provider_simps [simp]:
  "present (bunny_provider E self) = bunny_present E self" "cleanup (bunny_provider E self) = bunny_cleanup E self"
  by (simp_all add: bunny_provider_def)

section \<open>The documented API\<close>

text \<open>
  \<open>zones search\<close> is the list of the account's zones that match a search, in pages. \<open>rr n (zone, id)\<close> is the TXT
  record with an id: its zone and lower-case name, and its value. \<open>PUT\<close> adds a record with a fresh id, each time
  it is sent; \<open>DELETE\<close> removes the record of its URL.
\<close>

type_synonym bunny_db = "int \<times> int \<rightharpoonup> (int \<times> string) \<times> string"

definition bunny_txt_at :: "string \<Rightarrow> BunnyRecord \<Rightarrow> bool" where
  "bunny_txt_at nm r \<longleftrightarrow> bunny_type r = RECORD_TYPE_TXT \<and> to_ascii_lowercase (record_name r) = nm"

definition bunny_account :: "(string \<Rightarrow> BunnyZoneSummary list list) \<Rightarrow> int \<Rightarrow> bool" where
  "bunny_account zones i \<longleftrightarrow> (\<exists>search. i \<in> bunny_zone_id ` set (concat (zones search)))"

definition bunny_api ::
  "('r, 'n) bunny_env \<Rightarrow> BunnyProvider \<Rightarrow> (string \<Rightarrow> BunnyZoneSummary list list) \<Rightarrow> ('n \<Rightarrow> bool) \<Rightarrow> ('n \<Rightarrow> bunny_db) \<Rightarrow> bool" where
  "bunny_api E self zones up rr \<longleftrightarrow> idles E up rr \<and>
     (\<forall>search p. reads E up rr (bunny_zones_request self search (Suc p)) (\<lambda>s resp.
        is_success (rs_status resp) \<longrightarrow> (\<forall>b. bunny_zones_json E (rs_body resp) = Inr b \<longrightarrow>
          (case bunny_items b of Some zs \<Rightarrow> zs | None \<Rightarrow> []) = (if p < length (zones search) then zones search ! p else []) \<and>
          (has_more_items b \<longleftrightarrow> Suc p < length (zones search))))) \<and>
     (\<forall>i. bunny_account zones i \<longrightarrow> reads E up rr (bunny_request self GET (bunny_zone_path i) [] None) (\<lambda>s resp.
        is_success (rs_status resp) \<longrightarrow> (\<forall>b nm. bunny_zone_json E (rs_body resp) = Inr b \<longrightarrow>
          listed fst snd (\<lambda>x. (i, bunny_id x)) (\<lambda>x. case bunny_record_value x of Some v \<Rightarrow> v | None \<Rightarrow> []) (i, nm) s
            (filter (bunny_txt_at nm) (case bunny_records b of Some rs \<Rightarrow> rs | None \<Rightarrow> []))))) \<and>
     (\<forall>i rq b. bunny_account zones i \<longrightarrow> rq_method rq = PUT \<longrightarrow> rq_url rq = bunny_url self (bunny_records_path i) \<longrightarrow>
        rq_body rq = Some b \<longrightarrow> add_type b = RECORD_TYPE_TXT \<longrightarrow> add_name b \<noteq> ''@'' \<longrightarrow>
        writes E up rr rq (creates ((i, to_ascii_lowercase (add_name b)), add_value b)) (\<lambda>resp. is_success (rs_status resp))) \<and>
     (\<forall>i j rq. bunny_account zones i \<longrightarrow> rq_method rq = DELETE \<longrightarrow> rq_url rq = bunny_url self (bunny_record_item_path i j) \<longrightarrow>
        writes E up rr rq (\<lambda>s s'. s' = s((i, j) := None)) (\<lambda>resp. is_success (rs_status resp) \<or> rs_status resp = 404))"

lemma bunny_apiD:
  assumes "bunny_api E self zones up rr"
  shows "idles E up rr"
    "reads E up rr (bunny_zones_request self search (Suc p)) (\<lambda>s resp.
        is_success (rs_status resp) \<longrightarrow> (\<forall>b. bunny_zones_json E (rs_body resp) = Inr b \<longrightarrow>
          (case bunny_items b of Some zs \<Rightarrow> zs | None \<Rightarrow> []) = (if p < length (zones search) then zones search ! p else []) \<and>
          (has_more_items b \<longleftrightarrow> Suc p < length (zones search))))"
    "bunny_account zones i \<Longrightarrow> reads E up rr (bunny_request self GET (bunny_zone_path i) [] None) (\<lambda>s resp.
        is_success (rs_status resp) \<longrightarrow> (\<forall>b nm. bunny_zone_json E (rs_body resp) = Inr b \<longrightarrow>
          listed fst snd (\<lambda>x. (i, bunny_id x)) (\<lambda>x. case bunny_record_value x of Some v \<Rightarrow> v | None \<Rightarrow> []) (i, nm) s
            (filter (bunny_txt_at nm) (case bunny_records b of Some rs \<Rightarrow> rs | None \<Rightarrow> []))))"
    "bunny_account zones i \<Longrightarrow> rq_method rq = PUT \<Longrightarrow> rq_url rq = bunny_url self (bunny_records_path i) \<Longrightarrow>
        rq_body rq = Some b \<Longrightarrow> add_type b = RECORD_TYPE_TXT \<Longrightarrow> add_name b \<noteq> ''@'' \<Longrightarrow>
        writes E up rr rq (creates ((i, to_ascii_lowercase (add_name b)), add_value b)) (\<lambda>resp. is_success (rs_status resp))"
    "bunny_account zones i \<Longrightarrow> rq_method rq = DELETE \<Longrightarrow> rq_url rq = bunny_url self (bunny_record_item_path i j) \<Longrightarrow>
        writes E up rr rq (\<lambda>s s'. s' = s((i, j) := None)) (\<lambda>resp. is_success (rs_status resp) \<or> rs_status resp = 404)"
  using assms unfolding bunny_api_def by blast+

text \<open>The zone of a name, from the pages of the account's zones.\<close>

definition bunny_zone_for :: "BunnyProvider \<Rightarrow> (string \<Rightarrow> BunnyZoneSummary list list) \<Rightarrow> string \<Rightarrow> Zone option" where
  "bunny_zone_for self zones f =
     (let name = trim_end_matches DOT f; found = (\<lambda>search. map bunny_zone_of (concat (zones search))) in
      case zone_override self of
        Some zone \<Rightarrow> find (\<lambda>z. zone_domain z = zone) (found zone)
      | None \<Rightarrow> max_by_key (\<lambda>z. length (zone_domain z)) (filter (\<lambda>z. is_suffix name (zone_domain z)) (found (bunny_search name))))"

definition bunny_values :: "bunny_db \<Rightarrow> (int \<times> string) option \<Rightarrow> string set" where
  "bunny_values = held fst (\<lambda>r. trim_matches QUOTE (trim (snd r)))"

definition bunny_owner ::
  "BunnyProvider \<Rightarrow> (string \<Rightarrow> BunnyZoneSummary list list) \<Rightarrow> string \<Rightarrow> (int \<times> string) option" where
  "bunny_owner self zones f =
     (case bunny_zone_for self zones (to_ascii_lowercase f) of None \<Rightarrow> None | Some z \<Rightarrow>
        (case bunny_name (to_ascii_lowercase f) (zone_domain z) of Inl _ \<Rightarrow> None | Inr r \<Rightarrow> Some (zone_id z, r)))"

lemma concat_pages:
  "concat (take (Suc p) xss) = concat (take p xss) @ (if p < length xss then xss ! p else [])"
  by (simp add: take_Suc_conv_app_nth)

lemma bunny_page:
  assumes "bunny_api E self zones up rr"
  shows "observes (online up (\<lambda>_. True)) (\<lambda>w. rr (net w)) S (bunny_fetch_page E self search (Suc p)) (\<lambda>s got.
    map bunny_zone_of (concat (take (Suc p) (zones search))) = map bunny_zone_of (concat (take p (zones search))) @ fst got \<and>
    (snd got = None \<longrightarrow> map bunny_zone_of (concat (take (Suc p) (zones search))) = map bunny_zone_of (concat (zones search))) \<and> True)"
  unfolding bunny_fetch_page_def Let_def
proof (rule observes_attempt [OF observes_send [OF bunny_apiD(1,2) [OF assms]]], simp, intro editing conjI impI TrueI)
  fix resp and b :: BunnyZoneList and s
  let ?got = "(map bunny_zone_of (case bunny_items b of Some zs \<Rightarrow> zs | None \<Rightarrow> []), if has_more_items b
    then Some (Api (BUNNY_PROVIDER @ '' GET /dnszone: more than '' @ show_nat BUNNY_MAX_PAGES @ '' pages of zones'')) else None)"
  assume law: "\<not> \<not> is_success (rs_status resp)" "bunny_zones_json E (rs_body resp) = Inr b"
    "S s \<and> (is_success (rs_status resp) \<longrightarrow> (\<forall>b. bunny_zones_json E (rs_body resp) = Inr b \<longrightarrow>
       (case bunny_items b of Some zs \<Rightarrow> zs | None \<Rightarrow> []) = (if p < length (zones search) then zones search ! p else []) \<and>
       (has_more_items b \<longleftrightarrow> Suc p < length (zones search))))"
  show "map bunny_zone_of (concat (take (Suc p) (zones search))) = map bunny_zone_of (concat (take p (zones search))) @ fst ?got"
    using law unfolding concat_pages by simp
  show "map bunny_zone_of (concat (take (Suc p) (zones search))) = map bunny_zone_of (concat (zones search))" if "snd ?got = None"
    using law that by (simp split: if_splits)
qed

lemma bunny_zones:
  assumes "bunny_api E self zones up rr"
  shows "observes (online up (\<lambda>_. True)) (\<lambda>w. rr (net w)) S (bunny_list_zones E self search)
    (\<lambda>_ zs. zs = map bunny_zone_of (concat (zones search)))"
  unfolding bunny_list_zones_def One_nat_def
  by (rule observes_weaken [OF page_loop_observes [where S = S and first = "\<lambda>p s. map bunny_zone_of (concat (take p (zones search)))"
        and whole = "\<lambda>s. map bunny_zone_of (concat (zones search))", OF bunny_page [OF assms]]]) auto

lemma bunny_resolve:
  assumes "bunny_api E self zones up rr"
  shows "observes (online up (\<lambda>_. True)) (\<lambda>w. rr (net w)) S (bunny_resolve_zone E self f)
    (\<lambda>_ z. bunny_zone_for self zones f = Some z)"
proof (cases "zone_override self")
  case None
  show ?thesis
    unfolding bunny_resolve_zone_def bunny_zone_for_def Let_def None option.case
    by (rule observes_attempt [OF bunny_zones [OF assms]], intro editing) auto
next
  case (Some z)
  show ?thesis
    unfolding bunny_resolve_zone_def bunny_zone_for_def Let_def Some option.case
    by (rule observes_attempt [OF bunny_zones [OF assms]], intro editing) auto
qed

section \<open>The contract\<close>

lemma max_by_key_None: "max_by_key g xs = None \<longleftrightarrow> xs = []"
  by (cases xs) (auto split: option.splits)

lemma max_by_key_Some: "max_by_key g xs = Some x \<Longrightarrow> x \<in> set xs \<and> (\<forall>y \<in> set xs. g y \<le> g x)"
proof (induction xs arbitrary: x)
  case (Cons y ys)
  show ?case
  proof (cases "max_by_key g ys")
    case None
    with Cons(2) show ?thesis by (simp add: max_by_key_None)
  next
    case (Some a)
    have "\<forall>b \<in> set ys. g b \<le> g a" "a \<in> set ys" using Cons(1) [OF Some] by blast+
    with Some Cons(2) show ?thesis by (auto split: if_splits intro: le_trans [OF _ less_imp_le])
  qed
qed simp

lemma bunny_zone_account:
  assumes "bunny_zone_for self zones f = Some z"
  shows "bunny_account zones (zone_id z)"
proof -
  let ?search = "case zone_override self of Some x \<Rightarrow> x | None \<Rightarrow> bunny_search (trim_end_matches DOT f)"
  have "z \<in> set (map bunny_zone_of (concat (zones ?search)))"
  proof (cases "zone_override self")
    case None
    with assms show ?thesis unfolding bunny_zone_for_def Let_def by (auto dest!: max_by_key_Some)
  next
    case (Some x)
    with assms show ?thesis unfolding bunny_zone_for_def Let_def by (auto dest!: find_SomeD)
  qed
  then have "zone_id z \<in> bunny_zone_id ` set (concat (zones ?search))"
    by (auto simp: bunny_zone_of_def simp del: set_concat)
  then show ?thesis unfolding bunny_account_def by blast
qed

lemma bunny_list:
  assumes "bunny_api E self zones up rr" "bunny_account zones (zone_id z)" "to_ascii_lowercase rn = rn"
  shows "observes (online up (\<lambda>_. True)) (\<lambda>w. rr (net w)) S (bunny_list_matching_records E self z rn)
    (listed fst (\<lambda>r. trim_matches QUOTE (trim (snd r))) (\<lambda>x. (zone_id z, bunny_id x)) record_value (zone_id z, rn))"
proof -
  have match: "(\<lambda>r. bunny_type r = RECORD_TYPE_TXT \<and> eq_ignore_ascii_case (record_name r) rn) = bunny_txt_at rn"
    using assms(3) by (auto simp: fun_eq_iff bunny_txt_at_def eq_ignore_ascii_case_def)
  show ?thesis
    unfolding bunny_list_matching_records_def Let_def match record_value_def
    by (rule observes_attempt [OF observes_send [OF bunny_apiD(1) [OF assms(1)] bunny_apiD(3) [OF assms(1,2)]]], simp, intro editing)
      (auto simp: listed_map [where g = "\<lambda>d. trim_matches QUOTE (trim d)"])
qed

lemma bunny_create:
  assumes "bunny_api E self zones up rr" "bunny_account zones (zone_id z)" "to_ascii_lowercase rn = rn" "rn \<noteq> ''@''"
  shows "stores (online up (\<lambda>_. True)) (\<lambda>w. rr (net w)) (bunny_create_record E self z rn v) (creates ((zone_id z, rn), v))\<^sup>+\<^sup>+"
proof -
  let ?b = "\<lparr>add_type = RECORD_TYPE_TXT, add_ttl = ttl self, add_value = v, add_name = rn\<rparr>"
  let ?rq = "bunny_request self PUT (bunny_records_path (zone_id z)) [] (Some ?b)"
  have "writes E up rr ?rq (creates ((zone_id z, rn), v)) (\<lambda>resp. is_success (rs_status resp))"
    using bunny_apiD(4) [OF assms(1,2), of ?rq ?b] assms(3,4) by (simp add: bunny_request_def)
  then show ?thesis
    unfolding bunny_create_record_def Let_def
    by (rule stores_send_plus [OF bunny_apiD(1) [OF assms(1)]]) (auto split: if_splits)
qed

lemma bunny_delete:
  assumes "bunny_api E self zones up rr" "bunny_account zones (zone_id z)"
  shows "stores (online up (\<lambda>_. True)) (\<lambda>w. rr (net w)) (bunny_delete_record E self z i) (\<lambda>s s'. s' = s((zone_id z, i) := None))"
proof -
  let ?rq = "bunny_request self DELETE (bunny_record_item_path (zone_id z) i) [] None"
  have "writes E up rr ?rq (\<lambda>s s'. s' = s((zone_id z, i) := None)) (\<lambda>resp. is_success (rs_status resp) \<or> rs_status resp = 404)"
    using bunny_apiD(5) [OF assms, of ?rq i] by (simp add: bunny_request_def)
  then show ?thesis
    unfolding bunny_delete_record_def Let_def
    by (rule stores_send [OF bunny_apiD(1) [OF assms(1)]]) (auto split: if_splits)
qed

lemma bunny_name_lower:
  assumes "bunny_name (to_ascii_lowercase f) z = Inr rn"
  shows "to_ascii_lowercase rn = rn" "rn \<noteq> ''@''"
  using assms relative_name_lower by (auto simp: bunny_name_def and_then_eq_Inr split: if_splits)

text \<open>Both calls find the zone first; the rest works on the records of the owner.\<close>

lemma bunny_edits_in_zone:
  assumes "bunny_api E self zones up rr"
    and "\<And>z rn. bunny_account zones (zone_id z) \<Longrightarrow> to_ascii_lowercase rn = rn \<Longrightarrow> rn \<noteq> ''@'' \<Longrightarrow>
      edits (online up (\<lambda>_. True)) (\<lambda>w. rr (net w)) bunny_values (\<lambda>_. True) (Some (zone_id z, rn)) v b (body z rn)"
  shows "edits (online up (\<lambda>_. True)) (\<lambda>w. rr (net w)) bunny_values (\<lambda>_. True) (bunny_owner self zones f) v b
    (attempt (bunny_resolve_zone E self (to_ascii_lowercase f)) (\<lambda>z.
     attempt (from_result (bunny_name (to_ascii_lowercase f) (zone_domain z))) (body z)))"
proof (rule edits_given [OF bunny_resolve [OF assms(1)]], rule edits_pure(3))
  fix z :: Zone and rn
  assume z: "bunny_zone_for self zones (to_ascii_lowercase f) = Some z" and rn: "bunny_name (to_ascii_lowercase f) (zone_domain z) = Inr rn"
  with assms(2) [OF bunny_zone_account [OF z] bunny_name_lower [OF rn]]
  show "edits (online up (\<lambda>_. True)) (\<lambda>w. rr (net w)) bunny_values (\<lambda>_. True) (bunny_owner self zones f) v b (body z rn)"
    by (simp add: bunny_owner_def)
qed

lemma bunny_present_edits:
  assumes "bunny_api E self zones up rr"
  shows "edits (online up (\<lambda>_. True)) (\<lambda>w. rr (net w)) bunny_values (\<lambda>_. True) (bunny_owner self zones f) v True
    (bunny_present E self f v)"
  unfolding bunny_present_def Let_def
proof (intro editing bunny_edits_in_zone [OF assms])
  fix u :: unit and z :: Zone and rn
  assume v: "validate_acme_value v = Inr u" and z: "bunny_account zones (zone_id z)" and rn: "to_ascii_lowercase rn = rn" "rn \<noteq> ''@''"
  show "edits (online up (\<lambda>_. True)) (\<lambda>w. rr (net w)) bunny_values (\<lambda>_. True) (Some (zone_id z, rn)) v True
      (attempt (bunny_list_matching_records E self z rn) (\<lambda>existing.
       if list_ex (\<lambda>r. record_value r = v) existing then done_ok () else bunny_create_record E self z rn v))"
    unfolding bunny_values_def using v
    by (intro add_record [OF bunny_list [OF assms z rn(1)] bunny_create [OF assms z rn]])
      (simp_all add: trim_acme_value trim_matches_free acme_value_no_quote)
qed

lemma bunny_cleanup_edits:
  assumes "bunny_api E self zones up rr"
  shows "edits (online up (\<lambda>_. True)) (\<lambda>w. rr (net w)) bunny_values (\<lambda>_. True) (bunny_owner self zones f) v False
    (bunny_cleanup E self f v)"
  unfolding bunny_cleanup_def Let_def
proof (intro editing bunny_edits_in_zone [OF assms])
  fix z :: Zone and rn
  assume z: "bunny_account zones (zone_id z)" and rn: "to_ascii_lowercase rn = rn" "rn \<noteq> ''@''"
  show "edits (online up (\<lambda>_. True)) (\<lambda>w. rr (net w)) bunny_values (\<lambda>_. True) (Some (zone_id z, rn)) v False
      (attempt (bunny_list_matching_records E self z rn) (
       try_for (\<lambda>r. if record_value r = v then bunny_delete_record E self z (bunny_id r) else done_ok ())))"
    unfolding bunny_values_def by (rule drop_records [OF bunny_list [OF assms z rn(1)] bunny_delete [OF assms z]])
qed

text \<open>C19: the Bunny provider keeps the provider contract on any server with the documented behaviour, also when a
  retried \<open>PUT\<close> adds the record more than once.\<close>

theorem bunny_contract:
  assumes "bunny_api E self zones up rr"
  shows "dns_provider (bunny_provider E self) (\<lambda>w. bunny_values (rr (net w))) (bunny_owner self zones) (online up (\<lambda>_. True))"
  by (rule dns_providerI [where st = "\<lambda>w. rr (net w)" and T = bunny_values])
    (simp_all add: bunny_present_edits [OF assms] bunny_cleanup_edits [OF assms])

section \<open>The longest zone\<close>

definition below :: "string \<Rightarrow> string \<Rightarrow> bool" where
  "below name zone \<longleftrightarrow> name = zone \<or> (\<exists>p. name = p @ DOT # zone)"

lemma is_suffix_below:
  assumes "to_ascii_lowercase name = name" "to_ascii_lowercase zone = zone"
  shows "is_suffix name zone \<longleftrightarrow> below name zone"
proof
  assume "is_suffix name zone"
  then show "below name zone"
  proof (cases "name = zone")
    case False
    let ?k = "length name - length zone"
    assume "is_suffix name zone"
    with False assms have k: "length zone < length name" "name ! (?k - 1) = DOT" "to_ascii_lowercase (drop ?k name) = zone"
      by (auto simp: is_suffix_def eq_ignore_ascii_case_def)
    have "to_ascii_lowercase (take ?k name) @ to_ascii_lowercase (drop ?k name) = name"
      using assms(1) by (metis append_take_drop_id to_ascii_lowercase_append)
    then have "drop ?k name = zone" using k(1,3) by (metis append_eq_conv_conj length_to_ascii_lowercase length_take min.absorb2 diff_le_self)
    moreover have "drop (?k - 1) name = DOT # drop ?k name"
    proof -
      have "Suc (?k - 1) = ?k" "?k - 1 < length name" using k(1) by simp_all
      with Cons_nth_drop_Suc [of "?k - 1" name] k(2) show ?thesis by simp
    qed
    ultimately have "name = take (?k - 1) name @ DOT # zone" by (metis append_take_drop_id)
    then show ?thesis unfolding below_def by blast
  qed (simp add: below_def)
next
  assume "below name zone"
  then show "is_suffix name zone"
    by (auto simp: below_def is_suffix_def eq_ignore_ascii_case_def nth_append)
qed

lemma join_drop_suffix: "k < length ls \<Longrightarrow> \<exists>q. join sep ls = q @ join sep (drop k ls)"
proof (induction ls arbitrary: k)
  case (Cons l ls)
  show ?case
  proof (cases k)
    case (Suc j)
    with Cons obtain q where "join sep ls = q @ join sep (drop j ls)" by auto
    moreover have "ls \<noteq> []" using Cons(2) Suc by auto
    ultimately have "join sep (l # ls) = (l @ sep @ q) @ join sep (drop k (l # ls))" by (cases ls) (simp_all add: Suc)
    then show ?thesis by blast
  qed auto
qed simp

lemma bunny_search_suffix:
  assumes "below name zone" "DOT \<in> set zone"
  shows "\<exists>q. zone = q @ bunny_search name"
proof -
  let ?L = "split_char DOT zone"
  obtain a b where "zone = a @ DOT # b" using assms(2) by (meson split_list)
  moreover have "1 \<le> length (split_char DOT x)" for x by (simp add: Suc_le_eq)
  from this [of a] this [of b] have "2 \<le> length (split_char DOT a @ split_char DOT b)" by simp
  ultimately have len: "2 \<le> length ?L" by (simp only: split_char_append)
  obtain A where A: "split_char DOT name = A @ ?L"
    using assms(1) by (auto simp: below_def split_char_append)
  have "bunny_search name = join [DOT] (drop (length ?L - 2) ?L)"
    using len by (simp add: bunny_search_def Let_def A)
  with join_drop_suffix [of "length ?L - 2" ?L "[DOT]"] len show ?thesis by (simp add: join_split_char)
qed

text \<open>Without a configured zone, the zone found for a lower-case name is a domain of the account at or above the
  name, and no domain of the account with at least two labels at or above the name is longer, provided that a
  search lists the domains of the account that end in the searched text.\<close>

theorem bunny_zone_longest:
  assumes "bunny_api E self zones up rr" "up (net w)" "zone_override self = None" "to_ascii_lowercase f = f"
    and "\<And>search. set (concat (zones search)) \<subseteq> account"
    and "\<And>search q y. y \<in> account \<Longrightarrow> zone_domain (bunny_zone_of y) = q @ search \<Longrightarrow> y \<in> set (concat (zones search))"
    and "bunny_resolve_zone E self f w = (Inr z, w')"
  shows "z \<in> bunny_zone_of ` account \<and> below (trim_end_matches DOT f) (zone_domain z) \<and>
    (\<forall>y \<in> bunny_zone_of ` account. DOT \<in> set (zone_domain y) \<and> below (trim_end_matches DOT f) (zone_domain y) \<longrightarrow>
       length (zone_domain y) \<le> length (zone_domain z))"
proof -
  let ?name = "trim_end_matches DOT f"
  let ?zones = "map bunny_zone_of (concat (zones (bunny_search ?name)))"
  have "after (bunny_resolve_zone E self f) w (\<lambda>r w'. \<forall>x. r = Inr x \<longrightarrow> bunny_zone_for self zones f = Some x)"
    using bunny_resolve [OF assms(1), where S = "\<lambda>_. True" and f = f] assms(2)
    unfolding observes_def online_def by (auto simp: after_def)
  with assms(3,7) have "max_by_key (\<lambda>z. length (zone_domain z)) (filter (\<lambda>z. is_suffix ?name (zone_domain z)) ?zones) = Some z"
    by (simp add: after_def bunny_zone_for_def Let_def)
  note found = max_by_key_Some [OF this]
  have low: "to_ascii_lowercase ?name = ?name" using assms(4) by (metis trim_end_matches_DOT_lower)
  then have suffix: "is_suffix ?name (zone_domain y) \<longleftrightarrow> below ?name (zone_domain y)" if "y \<in> range bunny_zone_of" for y
    using that by (intro is_suffix_below) (auto simp: bunny_zone_of_def)
  have "length (zone_domain y) \<le> length (zone_domain z)"
    if y: "y \<in> bunny_zone_of ` account" "DOT \<in> set (zone_domain y)" "below ?name (zone_domain y)" for y
  proof -
    obtain x where x: "x \<in> account" "y = bunny_zone_of x" using y(1) by blast
    then have "y \<in> set ?zones"
      using bunny_search_suffix [OF y(3,2)] assms(6) [OF x(1)] by (auto simp del: set_concat)
    with found suffix [of y] x y(3) show ?thesis by auto
  qed
  moreover have "z \<in> bunny_zone_of ` account" using found assms(5) by (auto simp del: set_concat)
  ultimately show ?thesis using found suffix [of z] by auto
qed

section \<open>A server\<close>

text \<open>An account with the zones \<open>a.org\<close> and \<open>s.a.org\<close>, and room for three records.\<close>

record bunny_answer =
  ans_bunny_zones :: "BunnyZoneSummary list"
  ans_bunny_records :: "BunnyRecord list"

definition bunny_domains :: "BunnyZoneSummary list" where
  "bunny_domains = [\<lparr>bunny_zone_id = 5, bunny_zone_domain = ''A.org.''\<rparr>, \<lparr>bunny_zone_id = 6, bunny_zone_domain = ''s.a.org''\<rparr>]"

definition bunny_pages :: "string \<Rightarrow> BunnyZoneSummary list list" where
  "bunny_pages search = [filter (\<lambda>y. strip_suffix search (zone_domain (bunny_zone_of y)) \<noteq> None) bunny_domains]"

definition bunny_places :: "(int \<times> int) list" where
  "bunny_places = [(5, 0), (5, 1), (6, 0)]"

definition bunny_fits :: "int \<times> int \<Rightarrow> (int \<times> string) \<times> string \<Rightarrow> bool" where
  "bunny_fits i r \<longleftrightarrow> fst i = fst (fst r) \<and> to_ascii_lowercase (snd (fst r)) = snd (fst r) \<and> snd (fst r) \<noteq> ''@''"

definition bunny_shown :: "(int \<times> int) \<times> (int \<times> string) \<times> string \<Rightarrow> BunnyRecord" where
  "bunny_shown x = \<lparr>bunny_id = snd (fst x), bunny_type = 3, bunny_record_name = Some (snd (fst (snd x))),
     bunny_record_value = Some (snd (snd x))\<rparr>"

definition bunny_server :: "BunnyAddRecordBody request \<Rightarrow> bunny_db \<Rightarrow> (reqwest_error + bunny_answer response) \<times> bunny_db" where
  "bunny_server rq n =
     (let body = (\<lambda>zs rs. \<lparr>ans_bunny_zones = zs, ans_bunny_records = rs\<rparr>) in
      case rq_method rq of
        PUT \<Rightarrow>
          (case (rq_body rq, find (\<lambda>i. rq_url rq = ''api/dnszone/'' @ show_int i @ ''/records'') [5, 6]) of
             (Some b, Some i) \<Rightarrow>
               (case free_place (filter (\<lambda>p. fst p = i) bunny_places) n of
                  Some p \<Rightarrow> if add_name b = ''@'' then (answer 400 (body [] []), n)
                    else (answer 201 (body [] []), n(p \<mapsto> ((i, to_ascii_lowercase (add_name b)), add_value b)))
                | None \<Rightarrow> (answer 400 (body [] []), n))
           | _ \<Rightarrow> (answer 404 (body [] []), n))
      | DELETE \<Rightarrow>
          (case find (\<lambda>p. rq_url rq = ''api/dnszone/'' @ show_int (fst p) @ ''/records/'' @ show_int (snd p)) bunny_places of
             Some p \<Rightarrow> (answer 204 (body [] []), n(p := None))
           | None \<Rightarrow> (answer 404 (body [] []), n))
      | _ \<Rightarrow>
          (case map_of (rq_query rq) ''search'' of
             Some srch \<Rightarrow> (answer 200 (body (if map_of (rq_query rq) ''page'' = Some (show_nat 1) then bunny_pages srch ! 0 else []) []), n)
           | None \<Rightarrow>
               (case find (\<lambda>i. rq_url rq = ''api/dnszone/'' @ show_int i) [5, 6] of
                  Some i \<Rightarrow> (answer 200 (body [] (map bunny_shown (filter (\<lambda>x. fst (fst x) = i) (pick bunny_places (\<lambda>_. True) n)))), n)
                | None \<Rightarrow> (answer 404 (body [] []), n))))"

definition demo_bunny :: "(bunny_answer, bunny_db) bunny_env" where
  "demo_bunny = api_around bunny_server (\<lambda>_. False)
     (bunny_env.fields (\<lambda>b. Inr \<lparr>bunny_items = Some (ans_bunny_zones b), has_more_items = False\<rparr>)
       (\<lambda>b. Inr \<lparr>bunny_records = Some (ans_bunny_records b)\<rparr>) (\<lambda>_. None))"

definition demo_bunny_provider :: BunnyProvider where
  "demo_bunny_provider = \<lparr>api_base = ''api'', zone_override = None, ttl = 2, cfg_timeout = 1, bunny_api_key = ''t''\<rparr>"

definition demo_bunny_world :: "bunny_db world" where
  "demo_bunny_world = \<lparr>RESOLVER = None, net = [(5, 0) \<mapsto> ((5, ''_acme-challenge''), ''other'')]\<rparr>"

lemma demo_bunny_run:
  "fst (bunny_present demo_bunny demo_bunny_provider ''_acme-challenge.A.org'' ''v'' demo_bunny_world) = Inr ()"
  "fst (bunny_cleanup demo_bunny demo_bunny_provider ''_acme-challenge.A.org'' ''v''
     (snd (bunny_present demo_bunny demo_bunny_provider ''_acme-challenge.A.org'' ''v'' demo_bunny_world))) = Inr ()"
  "fst (bunny_resolve_zone demo_bunny demo_bunny_provider ''_acme-challenge.s.a.org'' demo_bunny_world) =
     Inr \<lparr>zone_id = 6, zone_domain = ''s.a.org''\<rparr>"
  by code_simp+

lemma demo_bunny_sel:
  "http_send demo_bunny = bunny_server" "idles demo_bunny up view"
  "bunny_zones_json demo_bunny = (\<lambda>b. Inr \<lparr>bunny_items = Some (ans_bunny_zones b), has_more_items = False\<rparr>)"
  "bunny_zone_json demo_bunny = (\<lambda>b. Inr \<lparr>bunny_records = Some (ans_bunny_records b)\<rparr>)"
  by (simp_all add: demo_bunny_def api_around_def bunny_env.defs idles_def)

lemma bunny_account_pages: "bunny_account bunny_pages i \<Longrightarrow> i = 5 \<or> i = 6"
  by (auto simp: bunny_account_def bunny_pages_def bunny_domains_def split: if_splits)

lemma bunny_place_fits:
  "free_place (filter (\<lambda>p. fst p = i) bunny_places) s = Some p \<Longrightarrow> nm \<noteq> ''@'' \<Longrightarrow>
   p \<in> set bunny_places \<and> bunny_fits p ((i, to_ascii_lowercase nm), d)"
  using free_place_creates(2) [of "filter (\<lambda>p. fst p = i) bunny_places" s p] lower_eq_at [of nm]
  by (auto simp: bunny_fits_def)

lemma listed_bunny_shown:
  assumes "roomy bunny_places bunny_fits s"
  shows "listed fst snd (\<lambda>x. (i, bunny_id x)) (\<lambda>x. case bunny_record_value x of Some v \<Rightarrow> v | None \<Rightarrow> []) (i, nm) s
    (filter (bunny_txt_at nm) (map bunny_shown (filter (\<lambda>x. fst (fst x) = i) (pick bunny_places (\<lambda>_. True) s))))"
proof -
  have fits: "bunny_fits j r" if "s j = Some r" for j r using assms that unfolding roomy_def by blast
  have "filter (bunny_txt_at nm) (map bunny_shown (filter (\<lambda>x. fst (fst x) = i) (pick bunny_places (\<lambda>_. True) s))) =
      map bunny_shown (filter (\<lambda>x. fst (fst x) = i \<and> bunny_txt_at nm (bunny_shown x)) (pick bunny_places (\<lambda>_. True) s))"
    by (simp add: filter_map comp_def conj_commute)
  also have "filter (\<lambda>x. fst (fst x) = i \<and> bunny_txt_at nm (bunny_shown x)) (pick bunny_places (\<lambda>_. True) s) =
      pick bunny_places (\<lambda>r. fst r = (i, nm)) s"
    by (rule filter_pick) (drule fits, auto simp: bunny_fits_def bunny_txt_at_def bunny_shown_def record_name_def RECORD_TYPE_TXT_def prod_eq_iff)
  finally have rows: "filter (bunny_txt_at nm) (map bunny_shown (filter (\<lambda>x. fst (fst x) = i) (pick bunny_places (\<lambda>_. True) s))) =
      map bunny_shown (pick bunny_places (\<lambda>r. fst r = (i, nm)) s)" .
  show ?thesis
    unfolding rows by (rule listed_pick [OF assms]) (auto simp: bunny_fits_def bunny_shown_def prod_eq_iff)
qed

lemma bunny_urls:
  assumes "i = 5 \<or> i = 6"
  shows "rq_url rq = bunny_url demo_bunny_provider (bunny_zone_path i) \<Longrightarrow>
      find (\<lambda>i. rq_url rq = ''api/dnszone/'' @ show_int i) [5, 6] = Some i"
    and "rq_url rq = bunny_url demo_bunny_provider (bunny_records_path i) \<Longrightarrow>
      find (\<lambda>i. rq_url rq = ''api/dnszone/'' @ show_int i @ ''/records'') [5, 6] = Some i"
    and "rq_url rq = bunny_url demo_bunny_provider (bunny_record_item_path i j) \<Longrightarrow>
      find (\<lambda>p. rq_url rq = ''api/dnszone/'' @ show_int (fst p) @ ''/records/'' @ show_int (snd p)) bunny_places =
      (if (i, j) \<in> set bunny_places then Some (i, j) else None)"
proof -
  have ids: "show_int 5 = ''5''" "show_int 6 = ''6''" by code_simp+
  note urls = bunny_url_def bunny_zone_path_def bunny_records_path_def bunny_record_item_path_def demo_bunny_provider_def ids
  show "find (\<lambda>i. rq_url rq = ''api/dnszone/'' @ show_int i) [5, 6] = Some i"
    if "rq_url rq = bunny_url demo_bunny_provider (bunny_zone_path i)"
    using assms that by (auto simp: urls)
  show "find (\<lambda>i. rq_url rq = ''api/dnszone/'' @ show_int i @ ''/records'') [5, 6] = Some i"
    if "rq_url rq = bunny_url demo_bunny_provider (bunny_records_path i)"
    using assms that by (auto simp: urls)
  show "find (\<lambda>p. rq_url rq = ''api/dnszone/'' @ show_int (fst p) @ ''/records/'' @ show_int (snd p)) bunny_places =
      (if (i, j) \<in> set bunny_places then Some (i, j) else None)"
    if "rq_url rq = bunny_url demo_bunny_provider (bunny_record_item_path i j)"
    using assms that by (auto simp: urls bunny_places_def)
qed

lemma demo_bunny_api: "bunny_api demo_bunny demo_bunny_provider bunny_pages (roomy bunny_places bunny_fits) (\<lambda>n. n)"
  unfolding bunny_api_def
proof (intro conjI allI impI)
  fix search and p :: nat
  have run: "http_send demo_bunny (bunny_zones_request demo_bunny_provider search (Suc p)) n =
      (answer 200 \<lparr>ans_bunny_zones = (if p = 0 then bunny_pages search ! 0 else []), ans_bunny_records = []\<rparr>, n)" for n
    using show_nat_inj [of "Suc p" "Suc 0"]
    by (simp add: demo_bunny_sel bunny_server_def bunny_zones_request_def bunny_request_def Let_def)
  have one: "length (bunny_pages search) = 1" by (simp add: bunny_pages_def)
  show "reads demo_bunny (roomy bunny_places bunny_fits) (\<lambda>n. n) (bunny_zones_request demo_bunny_provider search (Suc p)) (\<lambda>s resp.
      is_success (rs_status resp) \<longrightarrow> (\<forall>b. bunny_zones_json demo_bunny (rs_body resp) = Inr b \<longrightarrow>
        (case bunny_items b of Some zs \<Rightarrow> zs | None \<Rightarrow> []) = (if p < length (bunny_pages search) then bunny_pages search ! p else []) \<and>
        (has_more_items b \<longleftrightarrow> Suc p < length (bunny_pages search))))"
    unfolding reads_def run by (auto simp: demo_bunny_sel(3) answer_def one)
next
  fix i
  assume i: "bunny_account bunny_pages i"
  have run: "http_send demo_bunny (bunny_request demo_bunny_provider GET (bunny_zone_path i) [] None) n =
      (answer 200 \<lparr>ans_bunny_zones = [], ans_bunny_records =
         map bunny_shown (filter (\<lambda>x. fst (fst x) = i) (pick bunny_places (\<lambda>_. True) n))\<rparr>, n)" for n
    using bunny_urls(1) [OF bunny_account_pages [OF i], of "bunny_request demo_bunny_provider GET (bunny_zone_path i) [] None"]
    by (simp add: demo_bunny_sel bunny_server_def bunny_request_def Let_def)
  show "reads demo_bunny (roomy bunny_places bunny_fits) (\<lambda>n. n) (bunny_request demo_bunny_provider GET (bunny_zone_path i) [] None)
      (\<lambda>s resp. is_success (rs_status resp) \<longrightarrow> (\<forall>b nm. bunny_zone_json demo_bunny (rs_body resp) = Inr b \<longrightarrow>
        listed fst snd (\<lambda>x. (i, bunny_id x)) (\<lambda>x. case bunny_record_value x of Some v \<Rightarrow> v | None \<Rightarrow> []) (i, nm) s
          (filter (bunny_txt_at nm) (case bunny_records b of Some rs \<Rightarrow> rs | None \<Rightarrow> []))))"
    unfolding reads_def run using listed_bunny_shown by (auto simp: demo_bunny_sel(4) answer_def)
next
  fix i b and rq :: "BunnyAddRecordBody request"
  assume i: "bunny_account bunny_pages i" and rq: "rq_method rq = PUT"
    "rq_url rq = bunny_url demo_bunny_provider (bunny_records_path i)" "rq_body rq = Some b" "add_name b \<noteq> ''@''"
  show "writes demo_bunny (roomy bunny_places bunny_fits) (\<lambda>n. n) rq (creates ((i, to_ascii_lowercase (add_name b)), add_value b))
      (\<lambda>resp. is_success (rs_status resp))"
    unfolding writes_def demo_bunny_sel(1) bunny_server_def rq(1,3) bunny_urls(2) [OF bunny_account_pages [OF i] rq(2)] http_method.case Let_def
    using rq(4) by (auto simp: answer_def is_success_def free_place_creates(1) roomy_upd bunny_place_fits split: option.splits)
next
  fix i j and rq :: "BunnyAddRecordBody request"
  assume i: "bunny_account bunny_pages i" and rq: "rq_method rq = DELETE"
    "rq_url rq = bunny_url demo_bunny_provider (bunny_record_item_path i j)"
  show "writes demo_bunny (roomy bunny_places bunny_fits) (\<lambda>n. n) rq (\<lambda>s s'. s' = s((i, j) := None))
      (\<lambda>resp. is_success (rs_status resp) \<or> rs_status resp = 404)"
    unfolding writes_def demo_bunny_sel(1) bunny_server_def rq(1) bunny_urls(3) [OF bunny_account_pages [OF i] rq(2)] http_method.case Let_def
    by (auto simp: answer_def roomy_upd roomy_absent split: if_splits)
qed (simp add: demo_bunny_sel)

lemma demo_bunny_start: "online (roomy bunny_places bunny_fits) (\<lambda>_. True) demo_bunny_world"
proof -
  have "to_ascii_lowercase ''_acme-challenge'' = ''_acme-challenge''" by code_simp
  then show ?thesis
    by (auto simp: online_def roomy_def bunny_places_def bunny_fits_def demo_bunny_world_def split: if_splits)
qed

theorem bunny_contract_witness:
  "\<exists>w1 w2. present (bunny_provider demo_bunny demo_bunny_provider) ''_acme-challenge.A.org'' ''v'' demo_bunny_world = (Inr (), w1)
     \<and> ''v'' \<in> bunny_values (net w1) (bunny_owner demo_bunny_provider bunny_pages ''_acme-challenge.A.org'')
     \<and> cleanup (bunny_provider demo_bunny demo_bunny_provider) ''_acme-challenge.A.org'' ''v'' w1 = (Inr (), w2)
     \<and> bunny_values (net w2) = bunny_values (net demo_bunny_world)"
proof -
  note contract = bunny_contract [OF demo_bunny_api]
  have "trim_matches QUOTE (trim ''other'') = ''other''" by code_simp
  then have "''v'' \<notin> bunny_values (net demo_bunny_world) k" for k
    by (auto simp: bunny_values_def held_def demo_bunny_world_def split: if_splits)
  then show ?thesis
    by (intro dns_provider.round_trip [OF contract]) (simp_all add: demo_bunny_run demo_bunny_start)
qed

theorem bunny_zone_longest_witness:
  "\<exists>z w'. bunny_resolve_zone demo_bunny demo_bunny_provider ''_acme-challenge.s.a.org'' demo_bunny_world = (Inr z, w') \<and>
     z \<in> bunny_zone_of ` set bunny_domains \<and> below ''_acme-challenge.s.a.org'' (zone_domain z) \<and>
     length ''s.a.org'' \<le> length (zone_domain z)"
proof -
  let ?f = "''_acme-challenge.s.a.org''"
  let ?z = "\<lparr>zone_id = 6, zone_domain = ''s.a.org''\<rparr>"
  obtain w' where run: "bunny_resolve_zone demo_bunny demo_bunny_provider ?f demo_bunny_world = (Inr ?z, w')"
    using demo_bunny_run(3) by (metis prod.collapse)
  have f: "to_ascii_lowercase ?f = ?f" "trim_end_matches DOT ?f = ?f" by code_simp+
  have suf: "strip_suffix search (q @ search) \<noteq> None" for q search :: string using strip_suffix_eq_Some [of search "q @ search" q] by simp
  have "?z \<in> bunny_zone_of ` set bunny_domains \<and> below (trim_end_matches DOT ?f) (zone_domain ?z) \<and>
    (\<forall>y \<in> bunny_zone_of ` set bunny_domains. DOT \<in> set (zone_domain y) \<and> below (trim_end_matches DOT ?f) (zone_domain y) \<longrightarrow>
       length (zone_domain y) \<le> length (zone_domain ?z))"
    by (rule bunny_zone_longest [OF demo_bunny_api _ _ f(1) _ _ run])
      (use demo_bunny_start suf in \<open>auto simp: online_def demo_bunny_provider_def bunny_pages_def\<close>)
  with run show ?thesis by (simp add: f(2))
qed

end
