(* ===== verification/Porkbun.thy ===== *)
theory Porkbun
  imports Record_Kit Provider_Config
begin

text \<open>
  The Porkbun provider (\<open>providers/porkbun.rs\<close>): every call is a \<open>POST\<close> with the credentials in its body, and every
  answer an envelope that can be an error on any HTTP status. A record that the server stores but does not serve
  is taken back. JSON values are a parameter type with the decoders of the environment.
\<close>

section \<open>Configuration\<close>

definition PORKBUN_API_BASE :: string where
  "PORKBUN_API_BASE = ''https://api.porkbun.com/api/json/v3''"

definition PORKBUN_ENV_API_KEY :: string where
  "PORKBUN_ENV_API_KEY = ''PORKBUN_API_KEY''"

definition PORKBUN_ENV_SECRET_API_KEY :: string where
  "PORKBUN_ENV_SECRET_API_KEY = ''PORKBUN_SECRET_API_KEY''"

definition PORKBUN_DEFAULT_TTL :: nat where
  "PORKBUN_DEFAULT_TTL = 600"

definition PORKBUN_PROVIDER :: string where
  "PORKBUN_PROVIDER = ''porkbun''"

definition PORKBUN_MAX_ERROR_MESSAGE :: nat where
  "PORKBUN_MAX_ERROR_MESSAGE = 512"

definition CODE_API_ACCESS_DISABLED :: string where
  "CODE_API_ACCESS_DISABLED = ''API_ACCESS_DISABLED''"

definition CODE_DUPLICATE_RECORD :: string where
  "CODE_DUPLICATE_RECORD = ''DUPLICATE_RECORD''"

definition CODE_INVALID_RECORD_ID :: string where
  "CODE_INVALID_RECORD_ID = ''INVALID_RECORD_ID''"

definition AUTH_CODES :: "string list" where
  "AUTH_CODES =
     [''API_KEY_REQUIRED'', ''MISSING_SECRETAPIKEY'', ''INVALID_API_KEYS_001'', ''INVALID_API_KEYS_002'',
      ''INVALID_USER'', ''IP_NOT_ALLOWED'', ''DOMAIN_NOT_ALLOWED'']"

text \<open>Ids come as strings or numbers, warnings as nothing, a string or a list.\<close>

datatype Id = Text string | Number nat

fun string_or_number :: "Id \<Rightarrow> string" where
  "string_or_number (Text s) = s"
| "string_or_number (Number n) = show_nat n"

datatype Warnings = NoWarnings | One string | Many "string list"

definition warnings_into_vec :: "Warnings \<Rightarrow> string list" where
  "warnings_into_vec ws =
     (let all = (case ws of NoWarnings \<Rightarrow> [] | One w \<Rightarrow> [w] | Many ws \<Rightarrow> ws) in filter (\<lambda>w. trim w \<noteq> []) all)"

record Envelope =
  env_status :: string
  env_code :: "string option"
  env_message :: "string option"

record PorkbunRecord =
  pork_raw_id :: Id
  pork_record_type :: string
  pork_content :: string

record CreatedRecord =
  created_id :: "Id option"
  created_warnings :: Warnings

record PorkbunCreateRecord =
  pork_name :: string
  pork_create_type :: string
  pork_create_content :: string
  pork_create_ttl :: nat

datatype PorkbunFields = Empty | CreateFields PorkbunCreateRecord

record AuthenticatedBody =
  apikey :: string
  secretapikey :: string
  body_fields :: PorkbunFields

text \<open>
  \<open>pork_value\<close> parses a text to a JSON value; the other decoders read a value as an envelope, as a list of records
  or its error, and as the answer to a creation.
\<close>

record ('v, 'r, 'n) pork_env = "(AuthenticatedBody, 'r, 'n) api_env" +
  pork_value :: "string \<Rightarrow> 'v option"
  pork_envelope :: "'v \<Rightarrow> Envelope option"
  pork_records :: "'v \<Rightarrow> string + PorkbunRecord list"
  pork_created :: "'v \<Rightarrow> CreatedRecord option"

record PorkbunConfig = api_config +
  pork_api_key :: string
  pork_secret_api_key :: string

type_synonym PorkbunProvider = PorkbunConfig

definition PorkbunConfig_new :: "string \<Rightarrow> string \<Rightarrow> PorkbunConfig" where
  "PorkbunConfig_new key secret =
     \<lparr>api_base = PORKBUN_API_BASE, zone_override = None, ttl = PORKBUN_DEFAULT_TTL, cfg_timeout = HTTP_TIMEOUT,
      pork_api_key = key, pork_secret_api_key = secret\<rparr>"

definition pork_with_api_base :: "('v, 'r, 'n) pork_env \<Rightarrow> string \<Rightarrow> PorkbunConfig \<Rightarrow> PorkbunConfig result" where
  "pork_with_api_base E base config = set_api_base E PORKBUN_PROVIDER base config"

definition pork_with_zone :: "string \<Rightarrow> PorkbunConfig \<Rightarrow> PorkbunConfig result" where
  "pork_with_zone zone config = set_zone zone config"

definition pork_with_ttl :: "nat \<Rightarrow> PorkbunConfig \<Rightarrow> PorkbunConfig result" where
  "pork_with_ttl t config = and_then (validate_ttl t) (\<lambda>t. Inr (config\<lparr>ttl := t\<rparr>))"

definition pork_with_timeout :: "duration \<Rightarrow> PorkbunConfig \<Rightarrow> PorkbunConfig" where
  "pork_with_timeout t config = config\<lparr>cfg_timeout := t\<rparr>"

interpretation pork_config: config_builder "url_parse E" PORKBUN_PROVIDER "0" "MAX_TTL" "PorkbunConfig_new t u" "pork_with_api_base E"
  pork_with_zone pork_with_ttl pork_with_timeout for E :: "('v, 'r, 'n) pork_env" and t u
  by unfold_locales
    (auto simp: pork_with_api_base_def pork_with_zone_def pork_with_ttl_def pork_with_timeout_def PorkbunConfig_new_def PORKBUN_DEFAULT_TTL_def builder_simps)

definition PorkbunProvider_new :: "('v, 'r, 'n) pork_env \<Rightarrow> PorkbunConfig \<Rightarrow> PorkbunProvider result" where
  "PorkbunProvider_new E config =
     and_then (build_client E (cfg_timeout config) CONNECT_TIMEOUT) (\<lambda>_. Inr config)"

definition pork_from_env :: "('v, 'r, 'n) pork_env \<Rightarrow> PorkbunProvider result" where
  "pork_from_env E =
     and_then (required_var E PORKBUN_ENV_API_KEY) (\<lambda>key.
     and_then (required_var E PORKBUN_ENV_SECRET_API_KEY) (\<lambda>secret.
     PorkbunProvider_new E (PorkbunConfig_new key secret)))"

section \<open>Envelopes\<close>

datatype PorkbunError = Code string DnsError | OtherError DnsError

fun from_porkbun_error :: "PorkbunError \<Rightarrow> DnsError" where
  "from_porkbun_error (Code _ err) = err"
| "from_porkbun_error (OtherError err) = err"

definition from_reqwest_error :: "reqwest_error \<Rightarrow> PorkbunError" where
  "from_reqwest_error e = OtherError (Http e)"

definition pork_truncate :: "string \<Rightarrow> string" where
  "pork_truncate raw =
     (if length raw \<le> PORKBUN_MAX_ERROR_MESSAGE then raw
      else take (floor_boundary raw PORKBUN_MAX_ERROR_MESSAGE) raw @ TRUNCATED)"

definition is_api_access_message :: "string \<Rightarrow> bool" where
  "is_api_access_message message =
     (let lower = to_ascii_lowercase message in str_contains ''api access'' lower \<or> str_contains ''opted in'' lower)"

definition pork_code_error :: "('v, 'r, 'n) pork_env \<Rightarrow> string \<Rightarrow> string \<Rightarrow> nat \<Rightarrow> string \<Rightarrow> string \<Rightarrow> DnsError" where
  "pork_code_error E path zone status code message =
     (if code = CODE_API_ACCESS_DISABLED \<or> is_api_access_message message
      then Auth (PORKBUN_PROVIDER @ '': API access is not enabled for domain '' @ zone @ ''; turn on '' @ [QUOTE] @
        ''API Access'' @ [QUOTE] @ '' for it in the Porkbun domain management page ('' @ message @ '')'')
      else if code \<in> set AUTH_CODES
      then Auth (PORKBUN_PROVIDER @ '' POST '' @ path @ '' refused credentials: '' @ code @ '': '' @ message)
      else if code = []
      then Api (PORKBUN_PROVIDER @ '' POST '' @ path @ '' returned '' @ status_display E status @ '': '' @ message)
      else Api (PORKBUN_PROVIDER @ '' POST '' @ path @ '' returned '' @ status_display E status @ '': '' @ code @ '': '' @ message))"

definition parse_envelope ::
  "('v, 'r, 'n) pork_env \<Rightarrow> string \<Rightarrow> string \<Rightarrow> 'r response \<Rightarrow> PorkbunError + 'v" where
  "parse_envelope E path zone response =
     (let status = rs_status response; retry_after = rs_header response ''retry-after'' in
      and_then (map_err from_reqwest_error (http_text E (rs_body response))) (\<lambda>raw.
      let body = pork_value E raw; envelope = Option.bind body (pork_envelope E) in
      case (if is_success status \<and> (case envelope of Some env \<Rightarrow> eq_ignore_ascii_case (env_status env) ''SUCCESS'' | None \<Rightarrow> False)
            then body else None) of
        Some b \<Rightarrow> Inr b
      | None \<Rightarrow>
          if status = 429
          then Inl (Code ''RATE_LIMIT_EXCEEDED'' (Api (PORKBUN_PROVIDER @ '' POST '' @ path @ '' was rate limited (429), '' @
            (case retry_after of Some secs \<Rightarrow> ''retry after '' @ secs @ ''s'' | None \<Rightarrow> ''retry later''))))
          else
            (case envelope of
               None \<Rightarrow> Inl (OtherError (Api (PORKBUN_PROVIDER @ '' POST '' @ path @ '' returned '' @ status_display E status @ '': '' @
                 pork_truncate raw)))
             | Some env \<Rightarrow>
                 (let code = (case env_code env of Some c \<Rightarrow> c | None \<Rightarrow> []);
                      message = pork_truncate (case env_message env of Some m \<Rightarrow> m | None \<Rightarrow> ''no message'') in
                  Inl (Code code (pork_code_error E path zone status code message))))))"

section \<open>The API calls\<close>

definition pork_resolve_zone :: "('v, 'r, 'n) pork_env \<Rightarrow> PorkbunProvider \<Rightarrow> string \<Rightarrow> (('n, 'z) world_scheme, string) io" where
  "pork_resolve_zone E self fqdn =
     (case zone_override self of
        Some zone \<Rightarrow> done_ok (trim_end_matches DOT zone)
      | None \<Rightarrow>
          attempt (find_zone (api_dns E) fqdn) (\<lambda>zone.
          attempt (from_result (validate_zone zone)) (\<lambda>_.
          done_ok zone)))"

definition retrieve_path :: "('v, 'r, 'n) pork_env \<Rightarrow> string \<Rightarrow> string \<Rightarrow> string" where
  "retrieve_path E zone sub =
     (let path = ''/dns/retrieveByNameType/'' @ encode_path E zone @ ''/TXT'' in
      if sub \<noteq> [] then path @ ''/'' @ encode_path E sub else path)"

definition create_path :: "('v, 'r, 'n) pork_env \<Rightarrow> string \<Rightarrow> string" where
  "create_path E zone = ''/dns/create/'' @ encode_path E zone"

definition delete_path :: "('v, 'r, 'n) pork_env \<Rightarrow> string \<Rightarrow> string \<Rightarrow> string" where
  "delete_path E zone i = ''/dns/delete/'' @ encode_path E zone @ ''/'' @ encode_path E i"

definition pork_request :: "PorkbunProvider \<Rightarrow> string \<Rightarrow> PorkbunFields \<Rightarrow> AuthenticatedBody request" where
  "pork_request self path flds =
     \<lparr>rq_method = POST, rq_url = api_base self @ path, rq_query = [], rq_headers = [],
      rq_body = Some \<lparr>apikey = pork_api_key self, secretapikey = pork_secret_api_key self, body_fields = flds\<rparr>\<rparr>"

definition pork_post ::
  "('v, 'r, 'n) pork_env \<Rightarrow> PorkbunProvider \<Rightarrow> string \<Rightarrow> string \<Rightarrow> PorkbunFields \<Rightarrow> (('n, 'z) world_scheme, PorkbunError, 'v) act" where
  "pork_post E self path zone flds =
     attempt (act_map_err from_reqwest_error (on_net (send_retrying E (pork_request self path flds)))) (\<lambda>response.
     from_result (parse_envelope E path zone response))"

definition pork_fetch_existing ::
  "('v, 'r, 'n) pork_env \<Rightarrow> PorkbunProvider \<Rightarrow> string \<Rightarrow> string \<Rightarrow> (('n, 'z) world_scheme, PorkbunRecord list) io" where
  "pork_fetch_existing E self zone sub =
     (let path = retrieve_path E zone sub in
      attempt (act_map_err from_porkbun_error (pork_post E self path zone Empty)) (\<lambda>body.
      attempt (from_result (map_err (\<lambda>e. Api (PORKBUN_PROVIDER @ '' POST '' @ path @ '' returned an invalid body: '' @ e))
        (pork_records E body))) (\<lambda>records.
      done_ok (filter (\<lambda>r. eq_ignore_ascii_case (pork_record_type r) ''TXT'') records))))"

text \<open>What the callers make of an error of a call: one code means that there is nothing left to do.\<close>

definition tolerate :: "string \<Rightarrow> PorkbunError + 'v \<Rightarrow> 'v option result" where
  "tolerate ok_code r =
     (case r of
        Inr body \<Rightarrow> Inr (Some body)
      | Inl (Code code err) \<Rightarrow> if code = ok_code then Inr None else Inl err
      | Inl (OtherError err) \<Rightarrow> Inl err)"

definition pork_post_tolerating ::
  "('v, 'r, 'n) pork_env \<Rightarrow> PorkbunProvider \<Rightarrow> string \<Rightarrow> string \<Rightarrow> string \<Rightarrow> PorkbunFields \<Rightarrow>
   (('n, 'z) world_scheme, 'v option) io" where
  "pork_post_tolerating E self ok_code path zone flds w =
     (let (r, w1) = pork_post E self path zone flds w in (tolerate ok_code r, w1))"

definition pork_delete_record ::
  "('v, 'r, 'n) pork_env \<Rightarrow> PorkbunProvider \<Rightarrow> string \<Rightarrow> string \<Rightarrow> (('n, 'z) world_scheme, unit) io" where
  "pork_delete_record E self zone i =
     (let path = delete_path E zone i in
      attempt (pork_post_tolerating E self CODE_INVALID_RECORD_ID path zone Empty) (\<lambda>_. done_ok ()))"

definition pork_create_record ::
  "('v, 'r, 'n) pork_env \<Rightarrow> PorkbunProvider \<Rightarrow> string \<Rightarrow> string \<Rightarrow> string \<Rightarrow> (('n, 'z) world_scheme, unit) io" where
  "pork_create_record E self zone sub v =
     (let path = create_path E zone;
          flds = \<lparr>pork_name = sub, pork_create_type = ''TXT'', pork_create_content = v, pork_create_ttl = ttl self\<rparr> in
      attempt (pork_post_tolerating E self CODE_DUPLICATE_RECORD path zone (CreateFields flds)) (\<lambda>posted.
      case posted of
        None \<Rightarrow> done_ok ()
      | Some body \<Rightarrow>
          (let created = (case pork_created E body of Some c \<Rightarrow> c | None \<Rightarrow> \<lparr>created_id = None, created_warnings = NoWarnings\<rparr>);
               warnings = warnings_into_vec (created_warnings created);
               failed = fail_with (Api (PORKBUN_PROVIDER @ '': record for '' @ zone @ '' was stored but will not resolve: '' @
                 pork_truncate (join '' '' warnings))) in
           if warnings = [] then done_ok ()
           else
             (case created_id created of
                Some i \<Rightarrow> (\<lambda>w. failed (snd (pork_delete_record E self zone (string_or_number i) w)))
              | None \<Rightarrow> failed))))"

section \<open>The provider\<close>

definition pork_id :: "PorkbunRecord \<Rightarrow> string" where
  "pork_id r = string_or_number (pork_raw_id r)"

definition subdomain_of :: "string \<Rightarrow> string \<Rightarrow> string result" where
  "subdomain_of fqdn zone = and_then (relative_name fqdn zone) (\<lambda>rname. Inr (if rname = ''@'' then [] else rname))"

definition pork_present ::
  "('v, 'r, 'n) pork_env \<Rightarrow> PorkbunProvider \<Rightarrow> string \<Rightarrow> string \<Rightarrow> (('n, 'z) world_scheme, unit) io" where
  "pork_present E self fqdn v =
     attempt (from_result (validate_fqdn fqdn)) (\<lambda>_.
     let fqdn = to_ascii_lowercase fqdn in
     attempt (from_result (validate_acme_value v)) (\<lambda>_.
     attempt (pork_resolve_zone E self fqdn) (\<lambda>zone.
     attempt (from_result (subdomain_of fqdn zone)) (\<lambda>sub.
     with_lock PORKBUN_PROVIDER (zone @ ''|'' @ sub) (
     attempt (pork_fetch_existing E self zone sub) (\<lambda>existing.
     if list_ex (\<lambda>r. unquote (pork_content r) = v) existing then done_ok ()
     else pork_create_record E self zone sub v))))))"

definition pork_cleanup ::
  "('v, 'r, 'n) pork_env \<Rightarrow> PorkbunProvider \<Rightarrow> string \<Rightarrow> string \<Rightarrow> (('n, 'z) world_scheme, unit) io" where
  "pork_cleanup E self fqdn v =
     attempt (from_result (validate_fqdn fqdn)) (\<lambda>_.
     let fqdn = to_ascii_lowercase fqdn in
     attempt (pork_resolve_zone E self fqdn) (\<lambda>zone.
     attempt (from_result (subdomain_of fqdn zone)) (\<lambda>sub.
     with_lock PORKBUN_PROVIDER (zone @ ''|'' @ sub) (
     attempt (pork_fetch_existing E self zone sub) (
     try_for (\<lambda>r. if unquote (pork_content r) = v then pork_delete_record E self zone (pork_id r) else done_ok ()))))))"

definition pork_provider :: "('v, 'r, 'n) pork_env \<Rightarrow> PorkbunProvider \<Rightarrow> ('n, 'z) world_scheme DnsProvider" where
  "pork_provider E self =
     \<lparr>present = pork_present E self, cleanup = pork_cleanup E self, provider_timing = PropagationTiming_default\<rparr>"

lemma pork_provider_simps [simp]:
  "present (pork_provider E self) = pork_present E self" "cleanup (pork_provider E self) = pork_cleanup E self"
  by (simp_all add: pork_provider_def)

section \<open>The documented API\<close>













section \<open>The contract\<close>










section \<open>A server\<close>

























end
