(* ===== verification/Change_Wait.thy ===== *)
theory Change_Wait
  imports Provider_Kit
begin

text \<open>
  Changes that a provider applies after it accepted them: the change is asked for again and again until it is
  settled or a deadline is over. Google Cloud DNS, Route 53 and Hetzner have this loop. \<open>settle_loop\<close> is the loop
  as it is written, which need not end; \<open>settle\<close> is the loop with at most \<open>rounds\<close> sleeps, and the number of
  intervals before the deadline is enough of them when the clock advances by what is slept.
\<close>

definition instant_now :: "('b, 'r, 'n, 'e) api_env_scheme \<Rightarrow> ('n, 'z) world_scheme \<Rightarrow> nat" where
  "instant_now E w = dns_now (api_dns E) (net w)"

definition sleep_for :: "('b, 'r, 'n, 'e) api_env_scheme \<Rightarrow> duration \<Rightarrow> (('n, 'z) world_scheme, unit) io" where
  "sleep_for E d = modify_state (\<lambda>w. w\<lparr>net := http_sleep E d (net w)\<rparr>)"

partial_function (option) settle_loop ::
  "('b, 'r, 'n, 'e) api_env_scheme \<Rightarrow> ('c \<Rightarrow> unit result option) \<Rightarrow> ('c \<Rightarrow> DnsError) \<Rightarrow> duration \<Rightarrow>
   ('c \<Rightarrow> (('n, 'z) world_scheme, 'c) io) \<Rightarrow> nat \<Rightarrow> 'c \<Rightarrow> ('n, 'z) world_scheme \<Rightarrow>
   (unit result \<times> ('n, 'z) world_scheme) option" where
  [code]: "settle_loop E judge still pause fetch deadline change w =
     (case judge change of
        Some r \<Rightarrow> Some (r, w)
      | None \<Rightarrow>
          if instant_now E w + pause > deadline then Some (Inl (still change), w)
          else (case attempt (sleep_for E pause) (\<lambda>_. fetch change) w of
                  (Inl e, w') \<Rightarrow> Some (Inl e, w')
                | (Inr change, w') \<Rightarrow> settle_loop E judge still pause fetch deadline change w'))"

fun settle ::
  "nat \<Rightarrow> ('b, 'r, 'n, 'e) api_env_scheme \<Rightarrow> ('c \<Rightarrow> unit result option) \<Rightarrow> ('c \<Rightarrow> DnsError) \<Rightarrow> duration \<Rightarrow>
   ('c \<Rightarrow> (('n, 'z) world_scheme, 'c) io) \<Rightarrow> nat \<Rightarrow> 'c \<Rightarrow> (('n, 'z) world_scheme, unit) io" where
  "settle rounds E judge still pause fetch deadline change w =
     (case judge change of
        Some r \<Rightarrow> (r, w)
      | None \<Rightarrow>
          if instant_now E w + pause > deadline then (Inl (still change), w)
          else (case rounds of
                  0 \<Rightarrow> (Inl (still change), w)
                | Suc n \<Rightarrow>
                    attempt (sleep_for E pause) (\<lambda>_.
                    attempt (fetch change) (\<lambda>change.
                    settle n E judge still pause fetch deadline change)) w))"

declare settle.simps [simp del]

text \<open>Waiting for at most \<open>limit\<close>, one pause between two questions.\<close>

definition wait_settled ::
  "('b, 'r, 'n, 'e) api_env_scheme \<Rightarrow> ('c \<Rightarrow> unit result option) \<Rightarrow> ('c \<Rightarrow> DnsError) \<Rightarrow> duration \<Rightarrow> duration \<Rightarrow>
   ('c \<Rightarrow> (('n, 'z) world_scheme, 'c) io) \<Rightarrow> 'c \<Rightarrow> (('n, 'z) world_scheme, unit) io" where
  "wait_settled E judge still limit pause fetch change w =
     settle (limit div pause) E judge still pause fetch (instant_now E w + limit) change w"

lemma wait_settled_now [code]:
  "wait_settled E judge still limit pause fetch change w =
     (case judge change of
        Some r \<Rightarrow> (r, w)
      | None \<Rightarrow> settle (limit div pause) E judge still pause fetch (instant_now E w + limit) change w)"
  by (simp add: wait_settled_def settle.simps split: option.splits)

section \<open>Enough rounds\<close>

text \<open>Sleeping takes at least as long as asked, and asking takes no negative time.\<close>

definition clock_runs ::
  "('b, 'r, 'n, 'e) api_env_scheme \<Rightarrow> duration \<Rightarrow> ('c \<Rightarrow> (('n, 'z) world_scheme, 'c) io) \<Rightarrow> bool" where
  "clock_runs E pause fetch \<longleftrightarrow>
     (\<forall>n. dns_now (api_dns E) (http_sleep E pause n) \<ge> dns_now (api_dns E) n + pause) \<and>
     (\<forall>change w. instant_now E (snd (fetch change w)) \<ge> instant_now E w)"

lemma clock_runsD:
  assumes "clock_runs E pause fetch"
  shows "instant_now E w + pause \<le> instant_now E (snd (fetch change (w\<lparr>net := http_sleep E pause (net w)\<rparr>)))"
proof -
  let ?w1 = "w\<lparr>net := http_sleep E pause (net w)\<rparr>"
  have "instant_now E w + pause \<le> instant_now E ?w1"
    using assms unfolding clock_runs_def instant_now_def by simp
  also have "\<dots> \<le> instant_now E (snd (fetch change ?w1))"
    using assms unfolding clock_runs_def by blast
  finally show ?thesis .
qed

lemma settle_eq_loop:
  assumes "clock_runs E pause fetch"
  shows "deadline < instant_now E w + (rounds + 1) * pause \<Longrightarrow>
    settle_loop E judge still pause fetch deadline change w =
    Some (settle rounds E judge still pause fetch deadline change w)"
proof (induction rounds arbitrary: change w)
  case 0
  then show ?case by (subst settle_loop.simps, subst settle.simps) (simp split: option.splits)
next
  case (Suc rounds)
  let ?w1 = "w\<lparr>net := http_sleep E pause (net w)\<rparr>"
  obtain r w2 where f: "fetch change ?w1 = (r, w2)" by fastforce
  have "instant_now E w + pause \<le> instant_now E w2" using clock_runsD [OF assms, of w change] f by simp
  with Suc(2) have "deadline < instant_now E w2 + (rounds + 1) * pause" by simp
  then have "settle_loop E judge still pause fetch deadline c w2 =
      Some (settle rounds E judge still pause fetch deadline c w2)" for c by (rule Suc(1))
  with f show ?case
    by (subst settle_loop.simps, subst settle.simps)
      (simp add: attempt_def sleep_for_def modify_state_def split: option.split sum.split)
qed

text \<open>C27: waiting returns. When a sleep takes as long as asked and the clock does not run backwards, the loop, which
  has no other bound than the clock, ends, and \<open>wait_settled\<close> is its result.\<close>

theorem wait_settled_returns:
  assumes "clock_runs E pause fetch" "0 < pause"
  shows "settle_loop E judge still pause fetch (instant_now E w + limit) change w =
    Some (wait_settled E judge still limit pause fetch change w)"
proof -
  have "limit < (limit div pause + 1) * pause"
    using assms(2) by (metis Suc_eq_plus1 dividend_less_times_div less_Suc_eq_le mult.commute mult_Suc add.commute dividend_less_div_times)
  then show ?thesis unfolding wait_settled_def by (intro settle_eq_loop [OF assms(1)]) simp
qed

text \<open>Asking again \<open>k\<close> times, without looking at the answers.\<close>

fun polled ::
  "('b, 'r, 'n, 'e) api_env_scheme \<Rightarrow> duration \<Rightarrow> ('c \<Rightarrow> (('n, 'z) world_scheme, 'c) io) \<Rightarrow> nat \<Rightarrow> 'c \<Rightarrow>
   (('n, 'z) world_scheme, 'c) io" where
  "polled E pause fetch 0 change = done_ok change"
| "polled E pause fetch (Suc k) change = attempt (attempt (sleep_for E pause) (\<lambda>_. fetch change)) (polled E pause fetch k)"

lemma settle_in_time:
  assumes "\<And>c w. instant_now E (snd (attempt (sleep_for E pause) (\<lambda>_. fetch c) w)) \<le> instant_now E w + lag" "pause \<le> lag"
  shows "k \<le> rounds \<Longrightarrow> instant_now E w + k * lag \<le> deadline \<Longrightarrow>
    polled E pause fetch k change w = (Inr c, w') \<Longrightarrow> judge c \<noteq> None \<Longrightarrow>
    \<exists>j d w1 r. j \<le> k \<and> polled E pause fetch j change w = (Inr d, w1) \<and> judge d = Some r \<and>
      settle rounds E judge still pause fetch deadline change w = (r, w1)"
proof (induction k arbitrary: rounds change w)
  case 0
  then show ?case by (auto simp: settle.simps split: option.splits)
next
  case (Suc k)
  show ?case
  proof (cases "judge change")
    case None
    obtain n where n: "rounds = Suc n" "k \<le> n" using Suc(2) by (cases rounds) auto
    obtain d w1 where ask: "attempt (sleep_for E pause) (\<lambda>_. fetch change) w = (Inr d, w1)"
      and rest: "polled E pause fetch k d w1 = (Inr c, w')"
      using Suc(4) by (auto simp: attempt_def [of "attempt _ _"] split: prod.splits sum.splits)
    have "instant_now E w1 \<le> instant_now E w + lag" using assms(1) [where c = change and w = w] ask by simp
    with Suc(3) have "instant_now E w1 + k * lag \<le> deadline" by simp
    from Suc(1) [OF n(2) this rest Suc(5)] obtain j d' w2 r where j: "j \<le> k" "polled E pause fetch j d w1 = (Inr d', w2)" "judge d' = Some r"
      "settle n E judge still pause fetch deadline d w1 = (r, w2)" by blast
    have "settle rounds E judge still pause fetch deadline change w =
        attempt (attempt (sleep_for E pause) (\<lambda>_. fetch change)) (settle n E judge still pause fetch deadline) w"
      using Suc(3) assms(2) None n unfolding attempt_assoc by (subst settle.simps) simp
    also have "\<dots> = (r, w2)" using ask j(4) by (simp add: attempt_def [of "attempt _ _"])
    finally have "settle rounds E judge still pause fetch deadline change w = (r, w2)" .
    moreover have "polled E pause fetch (Suc j) change w = (Inr d', w2)" using ask j(2) by (simp add: attempt_def [of "attempt _ _"])
    ultimately show ?thesis using j(1,3) Suc_le_mono by blast
  next
    case (Some r)
    then show ?thesis by (intro exI [of _ 0] exI [of _ change] exI [of _ w] exI [of _ r]) (simp add: settle.simps)
  qed
qed

text \<open>C28: a change that the server settles in time is not given up. When asking \<open>k\<close> times takes at most \<open>k * lag\<close>, which is
  within the limit, and the change is settled then, waiting ends with the verdict on one of these answers.\<close>

theorem wait_settled_settles:
  assumes "\<And>c w. instant_now E (snd (attempt (sleep_for E pause) (\<lambda>_. fetch c) w)) \<le> instant_now E w + lag" "pause \<le> lag" "0 < pause"
    and "k * lag \<le> limit" "polled E pause fetch k change w = (Inr c, w')" "judge c \<noteq> None"
  shows "\<exists>j d w1 r. j \<le> k \<and> polled E pause fetch j change w = (Inr d, w1) \<and> judge d = Some r \<and>
    wait_settled E judge still limit pause fetch change w = (r, w1)"
proof -
  have "k * pause \<le> limit" using assms(2,4) by (meson le_trans mult_le_mono2)
  then have "k \<le> limit div pause" using assms(3) by (simp add: less_eq_div_iff_mult_less_eq)
  then show ?thesis
    unfolding wait_settled_def using assms(4) by (intro settle_in_time [where E = E and fetch = fetch and judge = judge and lag = lag, OF assms(1,2) _ _ assms(5,6)]) simp_all
qed

section \<open>What waiting keeps\<close>

text \<open>An invariant of the change and the world that asking again keeps.\<close>

lemma after_settle:
  assumes "\<And>c w r. I c w \<Longrightarrow> judge c = Some r \<Longrightarrow> Q r w" "\<And>c w. I c w \<Longrightarrow> Q (Inl (still c)) w"
    and "\<And>c w. I c w \<Longrightarrow> judge c = None \<Longrightarrow>
      after (attempt (sleep_for E pause) (\<lambda>_. fetch c)) w (\<lambda>r w'. case r of Inl e \<Rightarrow> Q (Inl e) w' | Inr c' \<Rightarrow> I c' w')"
  shows "I change w \<Longrightarrow> after (settle rounds E judge still pause fetch deadline change) w Q"
proof (induction rounds arbitrary: change w)
  case 0
  with assms(1,2) show ?case by (auto simp: after_def settle.simps split: option.splits)
next
  case (Suc rounds)
  show ?case
  proof (cases "judge change = None \<and> \<not> instant_now E w + pause > deadline")
    case False
    with assms(1,2) [OF Suc(2)] show ?thesis by (auto simp: after_def settle.simps split: option.splits)
  next
    case True
    have "after (attempt (sleep_for E pause) (\<lambda>_. attempt (fetch change)
        (\<lambda>c. settle rounds E judge still pause fetch deadline c))) w Q"
      unfolding attempt_assoc [symmetric, of "sleep_for E pause"] after_attempt [of "attempt _ _"]
      by (rule after_mono [OF assms(3) [OF Suc(2)]]) (use True Suc(1) in \<open>auto split: sum.splits\<close>)
    with True show ?thesis by (simp add: after_def settle.simps)
  qed
qed

lemma observes_sleep:
  assumes "idles E up view" "net_free C" "\<And>s. S s \<Longrightarrow> post s ()"
  shows "observes (online up C) (\<lambda>w. view (net w)) S (sleep_for E d) post"
  unfolding sleep_for_def
proof (rule observes_modify_state)
  fix w assume w: "online up C w" "S (view (net w))"
  have "(w\<lparr>net := http_sleep E d (net w)\<rparr>)\<lparr>net := net w\<rparr> = w" by simp
  from net_free_same(1) [OF assms(2) this] w assms(1,3)
  show "online up C (w\<lparr>net := http_sleep E d (net w)\<rparr>) \<and> view (net (w\<lparr>net := http_sleep E d (net w)\<rparr>)) = view (net w) \<and>
      post (view (net w)) ()"
    by (simp add: online_def idles_def)
qed

lemma observes_wait_settled:
  fixes fetch :: "'c \<Rightarrow> (('n, 'z) world_scheme, 'c) io"
  assumes "idles E up view" "net_free C"
    and "\<And>c. observes (online up C) (\<lambda>w. view (net w)) (\<lambda>_. True) (fetch c) (\<lambda>_ _. True)"
  shows "observes (online up C) (\<lambda>w. view (net w)) S (wait_settled E judge still limit pause fetch change) (\<lambda>_ _. True)"
  unfolding observes_def
proof (intro allI impI)
  fix w assume w: "online up C w"
  let ?I = "\<lambda>_ w'. online up C w' \<and> view (net w') = view (net w)"
  let ?Q = "\<lambda>r w'. online up C w' \<and> view (net w') = view (net w) \<and> (\<forall>x. r = Inr x \<longrightarrow> True)"
  have ask: "observes (online up C) (\<lambda>w. view (net w)) (\<lambda>_. True) (attempt (sleep_for E pause) (\<lambda>_. fetch c)) (\<lambda>_ _. True)" for c
    by (rule observes_given [OF observes_sleep [OF assms(1,2)] assms(3), where P = "\<lambda>_. True"]) simp
  have "after (settle (limit div pause) E judge still pause fetch (instant_now E w + limit) change) w ?Q"
  proof (rule after_settle [where I = ?I])
    fix c :: 'c and w' assume w': "?I c w'"
    show "after (attempt (sleep_for E pause) (\<lambda>_. fetch c)) w'
        (\<lambda>r w''. case r of Inl e \<Rightarrow> ?Q (Inl e) w'' | Inr c' \<Rightarrow> ?I c' w'')"
      using ask [of c, unfolded observes_def, rule_format, of w'] w' by (auto simp: after_def split: sum.splits)
  qed (use w in auto)
  then show "after (wait_settled E judge still limit pause fetch change) w ?Q"
    by (simp add: wait_settled_def after_def)
qed

section \<open>A change and what follows it\<close>

text \<open>
  An action sends a change if it ends in the old state or after the change, and after the change when its result
  says so. Observations may follow; they end well only when the result says that the change is applied.
\<close>

definition sends ::
  "('w \<Rightarrow> bool) \<Rightarrow> ('w \<Rightarrow> 's) \<Rightarrow> ('w, 'a) io \<Rightarrow> ('s \<Rightarrow> 's \<Rightarrow> bool) \<Rightarrow> ('a \<Rightarrow> bool) \<Rightarrow> bool" where
  "sends good st m step applied \<longleftrightarrow> (\<forall>w. good w \<longrightarrow>
     after m w (\<lambda>r w'. good w' \<and> (st w' = st w \<or> step (st w) (st w')) \<and>
       (\<forall>x. r = Inr x \<longrightarrow> applied x \<longrightarrow> step (st w) (st w'))))"

lemma sends_send:
  assumes "idles E up view" "writes E up view rq step applied" "net_free C"
    and "\<And>s s' s''. step s s' \<Longrightarrow> step s' s'' \<Longrightarrow> step s s''"
  shows "sends (online up C) (\<lambda>w. view (net w)) (send E rq) step applied"
  unfolding sends_def
proof (intro allI impI)
  fix w
  assume w: "online up C w"
  show "after (send E rq) w (\<lambda>r w'. online up C w' \<and>
      (view (net w') = view (net w) \<or> step (view (net w)) (view (net w'))) \<and>
      (\<forall>x. r = Inr x \<longrightarrow> applied x \<longrightarrow> step (view (net w)) (view (net w'))))"
    by (rule after_write [OF assms(1,2), where J = "\<lambda>s. s = view (net w) \<or> step (view (net w)) s"
          and K = "\<lambda>s. step (view (net w)) s"])
      (use w assms(4) net_free_same(1) [OF assms(3)] in \<open>auto simp: online_def\<close>)
qed

lemma sends_observes:
  assumes "sends good st m step applied" "\<And>x. observes good st (\<lambda>_. True) (rest x) (\<lambda>_ y. applied' y \<longrightarrow> applied x)"
  shows "sends good st (attempt m rest) step applied'"
  unfolding sends_def after_attempt
proof (intro allI impI)
  fix w
  assume w: "good w"
  let ?Q = "\<lambda>r w'. good w' \<and> (st w' = st w \<or> step (st w) (st w')) \<and> (\<forall>x. r = Inr x \<longrightarrow> applied' x \<longrightarrow> step (st w) (st w'))"
  show "after m w (\<lambda>r w1. case r of Inl e \<Rightarrow> ?Q (Inl e) w1 | Inr x \<Rightarrow> after (rest x) w1 ?Q)"
  proof (rule after_mono [OF assms(1) [unfolded sends_def, rule_format, OF w]])
    fix r w1
    assume w1: "good w1 \<and> (st w1 = st w \<or> step (st w) (st w1)) \<and> (\<forall>x. r = Inr x \<longrightarrow> applied x \<longrightarrow> step (st w) (st w1))"
    show "case r of Inl e \<Rightarrow> ?Q (Inl e) w1 | Inr x \<Rightarrow> after (rest x) w1 ?Q"
    proof (cases r)
      case (Inr x)
      with w1 assms(2) [unfolded observes_def, rule_format, of w1 x] show ?thesis by (auto simp: after_def)
    qed (use w1 in auto)
  qed
qed

lemma stores_sends:
  "sends good st m step (\<lambda>_. True) \<Longrightarrow> stores good st m step"
  by (auto simp: sends_def stores_def after_def)

text \<open>Something that reads the world first, or gives up.\<close>

lemma sends_given:
  assumes "observes good st (\<lambda>_. True) m (\<lambda>_. P)" "\<And>x. P x \<Longrightarrow> sends good st (f x) step applied"
  shows "sends good st (attempt m f) step applied"
  unfolding sends_def after_attempt
proof (intro allI impI)
  fix w
  assume w: "good w"
  let ?Q = "\<lambda>r w'. good w' \<and> (st w' = st w \<or> step (st w) (st w')) \<and> (\<forall>x. r = Inr x \<longrightarrow> applied x \<longrightarrow> step (st w) (st w'))"
  show "after m w (\<lambda>r w1. case r of Inl e \<Rightarrow> ?Q (Inl e) w1 | Inr x \<Rightarrow> after (f x) w1 ?Q)"
  proof (rule after_mono)
    show "after m w (\<lambda>r w'. good w' \<and> st w' = st w \<and> (\<forall>x. r = Inr x \<longrightarrow> P x))"
      using assms(1) w unfolding observes_def by blast
    show "case r of Inl e \<Rightarrow> ?Q (Inl e) w1 | Inr x \<Rightarrow> after (f x) w1 ?Q"
      if "good w1 \<and> st w1 = st w \<and> (\<forall>x. r = Inr x \<longrightarrow> P x)" for r w1
      using that assms(2) [unfolded sends_def, rule_format, of _ w1] by (auto split: sum.splits)
  qed
qed

text \<open>Trying again when the result does not say that the change is applied.\<close>

lemma sends_again:
  assumes "sends good st m step applied" "\<And>x. applied x \<Longrightarrow> observes good st (\<lambda>_. True) (rest x) (\<lambda>_ _. True)"
    and "\<And>x. \<not> applied x \<Longrightarrow> sends good st (rest x) step applied'" "\<And>s s' s''. step s s' \<Longrightarrow> step s' s'' \<Longrightarrow> step s s''"
  shows "sends good st (attempt m rest) step applied'"
  unfolding sends_def after_attempt
proof (intro allI impI)
  fix w
  assume w: "good w"
  let ?Q = "\<lambda>r w'. good w' \<and> (st w' = st w \<or> step (st w) (st w')) \<and> (\<forall>x. r = Inr x \<longrightarrow> applied' x \<longrightarrow> step (st w) (st w'))"
  show "after m w (\<lambda>r w1. case r of Inl e \<Rightarrow> ?Q (Inl e) w1 | Inr x \<Rightarrow> after (rest x) w1 ?Q)"
  proof (rule after_mono [OF assms(1) [unfolded sends_def, rule_format, OF w]])
    fix r w1
    assume w1: "good w1 \<and> (st w1 = st w \<or> step (st w) (st w1)) \<and> (\<forall>x. r = Inr x \<longrightarrow> applied x \<longrightarrow> step (st w) (st w1))"
    show "case r of Inl e \<Rightarrow> ?Q (Inl e) w1 | Inr x \<Rightarrow> after (rest x) w1 ?Q"
    proof (cases r)
      case (Inr x)
      show ?thesis
      proof (cases "applied x")
        case True
        with w1 Inr assms(2) [OF True, unfolded observes_def, rule_format, of w1] show ?thesis by (auto simp: after_def)
      next
        case False
        note again = assms(3) [OF False, unfolded sends_def after_def, rule_format, of w1]
        with w1 Inr assms(4) [of "st w" "st w1" "st (snd (rest x w1))"] show ?thesis unfolding after_def by (simp, metis)
      qed
    qed (use w1 in auto)
  qed
qed

lemma sends_fail: "sends good st (fail_with e) step applied"
  by (simp add: sends_def after_simps)

lemma stores_send_observes:
  assumes "idles E up view" "writes E up view rq step applied" "net_free C"
    and "\<And>s s' s''. step s s' \<Longrightarrow> step s' s'' \<Longrightarrow> step s s''"
    and "\<And>resp. observes (online up C) (\<lambda>w. view (net w)) (\<lambda>_. True) (rest resp) (\<lambda>_ _. applied resp)"
  shows "stores (online up C) (\<lambda>w. view (net w)) (attempt (send E rq) rest) step"
proof (rule stores_sends, rule sends_observes)
  show "sends (online up C) (\<lambda>w. view (net w)) (send E rq) step applied" by (rule sends_send [OF assms(1-4)])
  show "observes (online up C) (\<lambda>w. view (net w)) (\<lambda>_. True) (rest resp) (\<lambda>_ _. True \<longrightarrow> applied resp)" for resp
    using assms(5) by simp
qed

section \<open>A clock\<close>

text \<open>A network that is its own clock, and a change that is settled once the clock shows 3.\<close>

definition ticking :: "(unit, unit, nat) api_env" where
  "ticking = \<lparr>http_send = (\<lambda>_ n. (Inr \<lparr>rs_status = 200, rs_header = (\<lambda>_. None), rs_body = ()\<rparr>, n)),
     http_clonable = (\<lambda>_. True), http_builds = (\<lambda>_. True), http_sleep = (\<lambda>d n. n + d), http_text = (\<lambda>_. Inr []),
     status_display = show_nat, pct_encode = (\<lambda>_ s. s), api_dns = (still_dns (\<lambda>_. False))\<lparr>dns_now := (\<lambda>n. n)\<rparr>,
     env_var = (\<lambda>_. None), url_parse = (\<lambda>_. None), client_build = (\<lambda>_ _. None)\<rparr>"

definition ticking_fetch :: "nat \<Rightarrow> (nat world, nat) io" where
  "ticking_fetch _ = get_state net"

definition ticking_judge :: "nat \<Rightarrow> unit result option" where
  "ticking_judge t = (if t \<ge> 3 then Some (Inr ()) else None)"

definition ticking_world :: "nat world" where
  "ticking_world = \<lparr>RESOLVER = None, net = 0\<rparr>"

lemma clock_runs_ticking: "clock_runs ticking 1 ticking_fetch"
  by (simp add: clock_runs_def ticking_def ticking_fetch_def get_state_def instant_now_def)

theorem wait_settled_returns_witness:
  "settle_loop ticking ticking_judge (\<lambda>_. Other []) 1 ticking_fetch (instant_now ticking ticking_world + 5) 0 ticking_world =
     Some (Inr (), ticking_world\<lparr>net := 3\<rparr>)"
proof -
  have "wait_settled ticking ticking_judge (\<lambda>_. Other []) 5 1 ticking_fetch 0 ticking_world = (Inr (), ticking_world\<lparr>net := 3\<rparr>)"
    by code_simp
  then show ?thesis
    using wait_settled_returns [OF clock_runs_ticking, where judge = ticking_judge and still = "\<lambda>_. Other []"
      and w = ticking_world and limit = 5 and change = 0] by simp
qed

theorem wait_settled_settles_witness:
  "\<exists>j d w1. j \<le> 4 \<and> polled ticking 1 ticking_fetch j 0 ticking_world = (Inr d, w1) \<and> ticking_judge d = Some (Inr ()) \<and>
     wait_settled ticking ticking_judge (\<lambda>_. Other []) 5 1 ticking_fetch 0 ticking_world = (Inr (), w1)"
proof -
  have "instant_now ticking (snd (attempt (sleep_for ticking 1) (\<lambda>_. ticking_fetch c) w)) \<le> instant_now ticking w + 1" for c w
    by (simp add: ticking_def ticking_fetch_def attempt_def sleep_for_def modify_state_def get_state_def instant_now_def)
  moreover have "polled ticking 1 ticking_fetch 4 0 ticking_world = (Inr 4, ticking_world\<lparr>net := 4\<rparr>)" by code_simp
  moreover have "ticking_judge 4 \<noteq> None" by (simp add: ticking_judge_def)
  ultimately have "\<exists>j d w1 r. j \<le> 4 \<and> polled ticking 1 ticking_fetch j 0 ticking_world = (Inr d, w1) \<and> ticking_judge d = Some r \<and>
      wait_settled ticking ticking_judge (\<lambda>_. Other []) 5 1 ticking_fetch 0 ticking_world = (r, w1)"
    by (intro wait_settled_settles [where lag = 1]) simp_all
  then show ?thesis by (auto simp: ticking_judge_def split: if_splits)
qed

end
