(* ===== verification/GoogleCloudDns.thy ===== *)
theory GoogleCloudDns
  imports Change_Wait
begin

text \<open>
  The Google Cloud DNS provider (\<open>providers/google_cloud_dns.rs\<close>): access tokens bought with a signed assertion
  and cached until shortly before they expire, a listing of zones that is followed by page tokens, and record
  sets that a change replaces as a whole, after which the change is polled until it is done. JSON values, RSA,
  base64, files and the system clock are parameters.
\<close>

section \<open>Configuration\<close>

definition GCDNS_API_BASE :: string where
  "GCDNS_API_BASE = ''https://dns.googleapis.com/dns/v1''"

definition DEFAULT_TOKEN_URI :: string where
  "DEFAULT_TOKEN_URI = ''https://oauth2.googleapis.com/token''"

definition GCDNS_ENV_CREDENTIALS :: string where
  "GCDNS_ENV_CREDENTIALS = ''GOOGLE_APPLICATION_CREDENTIALS''"

definition GCDNS_SCOPE :: string where
  "GCDNS_SCOPE = ''https://www.googleapis.com/auth/ndev.clouddns.readwrite''"

definition JWT_GRANT_TYPE :: string where
  "JWT_GRANT_TYPE = ''urn:ietf:params:oauth:grant-type:jwt-bearer''"

definition JWT_LIFETIME :: duration where
  "JWT_LIFETIME = from_secs 3600"

definition TOKEN_REFRESH_MARGIN :: duration where
  "TOKEN_REFRESH_MARGIN = from_secs 60"

definition GCDNS_DEFAULT_TTL :: nat where
  "GCDNS_DEFAULT_TTL = 60"

definition GCDNS_MAX_PAGES :: nat where
  "GCDNS_MAX_PAGES = 50"

definition GCDNS_CHANGE_POLL_INTERVAL :: duration where
  "GCDNS_CHANGE_POLL_INTERVAL = from_secs 1"

definition GCDNS_CHANGE_TIMEOUT :: duration where
  "GCDNS_CHANGE_TIMEOUT = from_secs 60"

definition GCDNS_PROVIDER :: string where
  "GCDNS_PROVIDER = ''google-cloud-dns''"

record ServiceAccountKey =
  sa_kind :: "string option"
  sa_client_email :: string
  sa_private_key :: string
  sa_private_key_id :: "string option"
  sa_token_uri :: "string option"
  sa_project_id :: "string option"

record JwtHeader =
  jwt_alg :: string
  jwt_typ :: string
  jwt_kid :: "string option"

record JwtClaims =
  jwt_iss :: string
  jwt_scope :: string
  jwt_aud :: string
  jwt_iat :: nat
  jwt_exp :: nat

record TokenResponse =
  tr_access_token :: string
  tr_expires_in :: "nat option"

record ManagedZone =
  mz_name :: string
  mz_dns_name :: string
  mz_visibility :: "string option"

record ManagedZones =
  managed_zones :: "ManagedZone list"
  next_page_token :: "string option"

record Rrset =
  rrset_name :: string
  rrset_kind :: string
  rrset_ttl :: nat
  rrset_datas :: "string list"

record Change =
  change_id :: string
  change_status :: string

text \<open>\<open>'v\<close> is the type of JSON values. A request carries a form or a change.\<close>

record 'v ChangeRequest =
  additions :: "Rrset list"
  deletions :: "'v list"

datatype 'v GcdnsBody = Form "(string \<times> string) list" | ChangeJson "'v ChangeRequest"

text \<open>
  \<open>json_index\<close>, \<open>json_str\<close>, \<open>json_u64\<close> and \<open>json_array\<close> read JSON values, \<open>pem_pkcs8\<close> and \<open>rsa_from_pkcs8\<close> private
  keys; \<open>rsa_sign\<close> may draw random numbers, and \<open>system_time\<close> gives the seconds since 1970, or nothing before.
\<close>

record ('k, 'v, 'r, 'n) gcdns_env = "('v GcdnsBody, 'r, 'n) api_env" +
  sa_json :: "string \<Rightarrow> string + ServiceAccountKey"
  read_to_string :: "string \<Rightarrow> string + string"
  pem_pkcs8 :: "string \<Rightarrow> string option"
  rsa_from_pkcs8 :: "string \<Rightarrow> string + 'k"
  rsa_sign :: "'k \<Rightarrow> string \<Rightarrow> 'n \<Rightarrow> string option"
  base64url :: "string \<Rightarrow> string"
  jwt_header_json :: "JwtHeader \<Rightarrow> string + string"
  jwt_claims_json :: "JwtClaims \<Rightarrow> string + string"
  system_time :: "'n \<Rightarrow> nat option"
  json_index :: "'v \<Rightarrow> string \<Rightarrow> 'v"
  json_str :: "'v \<Rightarrow> string option"
  json_u64 :: "'v \<Rightarrow> nat option"
  json_array :: "'v \<Rightarrow> 'v list option"
  token_json :: "'r \<Rightarrow> reqwest_error + TokenResponse"
  zones_json :: "'r \<Rightarrow> reqwest_error + ManagedZones"
  rrsets_json :: "'r \<Rightarrow> reqwest_error + 'v list"
  change_json :: "'r \<Rightarrow> reqwest_error + Change"

text \<open>The field \<open>zone_override\<close> of the common fields is \<open>managed_zone\<close> here: the resource name of a zone.\<close>

record GoogleCloudDnsConfig = api_config +
  client_email :: string
  private_key :: string
  private_key_id :: "string option"
  token_uri :: string
  project :: string

record 'k GoogleCloudDnsProvider = GoogleCloudDnsConfig +
  gc_key :: 'k

record CachedToken =
  token_value :: string
  refresh_at :: nat

record 'n gcdns_world = "'n world" +
  gc_token :: "CachedToken option"

definition validate_project :: "string \<Rightarrow> unit result" where
  "validate_project p =
     (let valid = p \<noteq> [] \<and> length p \<le> 100 \<and>
            list_all (\<lambda>b. 97 \<le> byte b \<and> byte b \<le> 122 \<or> 48 \<le> byte b \<and> byte b \<le> 57 \<or> b \<in> set ''-.:'') p in
      if \<not> valid then Inl (Other (GCDNS_PROVIDER @ '' invalid project id: '' @ p)) else Inr ())"

definition from_service_account_json ::
  "('k, 'v, 'r, 'n) gcdns_env \<Rightarrow> string \<Rightarrow> GoogleCloudDnsConfig result" where
  "from_service_account_json E json =
     and_then (map_err (\<lambda>e. Other (GCDNS_PROVIDER @ '' invalid service account key: '' @ e)) (sa_json E json)) (\<lambda>key.
     and_then (case sa_kind key of
         Some kind \<Rightarrow> if kind \<noteq> ''service_account''
           then Inl (Other (GCDNS_PROVIDER @ '' credentials must be a service account key, got type '' @ kind)) else Inr ()
       | None \<Rightarrow> Inr ()) (\<lambda>_.
     let uri = (case sa_token_uri key of Some u \<Rightarrow> u | None \<Rightarrow> DEFAULT_TOKEN_URI) in
     and_then (validate_https_base (url_parse E) uri GCDNS_PROVIDER) (\<lambda>_.
     let p = (case sa_project_id key of Some p \<Rightarrow> p | None \<Rightarrow> []) in
     and_then (if p \<noteq> [] then validate_project p else Inr ()) (\<lambda>_.
     Inr \<lparr>api_base = GCDNS_API_BASE, zone_override = None, ttl = GCDNS_DEFAULT_TTL, cfg_timeout = HTTP_TIMEOUT,
       client_email = sa_client_email key, private_key = sa_private_key key, private_key_id = sa_private_key_id key,
       token_uri = uri, project = p\<rparr>))))"

definition from_service_account_file ::
  "('k, 'v, 'r, 'n) gcdns_env \<Rightarrow> string \<Rightarrow> GoogleCloudDnsConfig result" where
  "from_service_account_file E path =
     and_then (map_err (\<lambda>e. MissingCredentials (GCDNS_PROVIDER @ '' cannot read service account key '' @ path @ '': '' @ e))
       (read_to_string E path)) (from_service_account_json E)"

definition gc_with_api_base ::
  "('k, 'v, 'r, 'n) gcdns_env \<Rightarrow> string \<Rightarrow> GoogleCloudDnsConfig \<Rightarrow> GoogleCloudDnsConfig result" where
  "gc_with_api_base E base config = set_api_base E GCDNS_PROVIDER base config"

definition gc_with_token_uri ::
  "('k, 'v, 'r, 'n) gcdns_env \<Rightarrow> string \<Rightarrow> GoogleCloudDnsConfig \<Rightarrow> GoogleCloudDnsConfig result" where
  "gc_with_token_uri E uri config =
     and_then (validate_https_base (url_parse E) uri GCDNS_PROVIDER) (\<lambda>_. Inr (config\<lparr>token_uri := uri\<rparr>))"

definition gc_with_project :: "string \<Rightarrow> GoogleCloudDnsConfig \<Rightarrow> GoogleCloudDnsConfig result" where
  "gc_with_project p config = and_then (validate_project p) (\<lambda>_. Inr (config\<lparr>project := p\<rparr>))"

definition gc_with_managed_zone :: "string \<Rightarrow> GoogleCloudDnsConfig \<Rightarrow> GoogleCloudDnsConfig result" where
  "gc_with_managed_zone name config =
     (if name = [] \<or> length name > 63 then Inl (Other (GCDNS_PROVIDER @ '' invalid managed zone name: '' @ name))
      else Inr (config\<lparr>zone_override := Some name\<rparr>))"

definition gc_with_ttl :: "nat \<Rightarrow> GoogleCloudDnsConfig \<Rightarrow> GoogleCloudDnsConfig result" where
  "gc_with_ttl t config = and_then (validate_ttl t) (\<lambda>t. Inr (config\<lparr>ttl := t\<rparr>))"

definition gc_with_timeout :: "duration \<Rightarrow> GoogleCloudDnsConfig \<Rightarrow> GoogleCloudDnsConfig" where
  "gc_with_timeout t config = config\<lparr>cfg_timeout := t\<rparr>"

definition GoogleCloudDnsProvider_new ::
  "('k, 'v, 'r, 'n) gcdns_env \<Rightarrow> GoogleCloudDnsConfig \<Rightarrow> 'k GoogleCloudDnsProvider result" where
  "GoogleCloudDnsProvider_new E config =
     (if project config = []
      then Inl (MissingCredentials (GCDNS_PROVIDER @ '' project id (not in the key, set it with with_project)''))
      else
        and_then (ok_or (Other (GCDNS_PROVIDER @ '' private_key is not a PKCS#8 PEM private key''))
          (pem_pkcs8 E (private_key config))) (\<lambda>der.
        and_then (map_err (\<lambda>e. Other (GCDNS_PROVIDER @ '' private_key is not a usable RSA key: '' @ e))
          (rsa_from_pkcs8 E der)) (\<lambda>key.
        and_then (build_client E (cfg_timeout config) CONNECT_TIMEOUT) (\<lambda>_.
        Inr (GoogleCloudDnsConfig.extend config (GoogleCloudDnsProvider.fields key))))))"

definition gc_from_env :: "('k, 'v, 'r, 'n) gcdns_env \<Rightarrow> 'k GoogleCloudDnsProvider result" where
  "gc_from_env E =
     and_then (required_var E GCDNS_ENV_CREDENTIALS) (\<lambda>path.
     and_then (from_service_account_file E path) (GoogleCloudDnsProvider_new E))"

section \<open>Access tokens\<close>

definition into_auth :: "DnsError \<Rightarrow> DnsError" where
  "into_auth err = (case err of Api msg \<Rightarrow> Auth msg | other \<Rightarrow> other)"

definition json_err :: "string \<Rightarrow> DnsError" where
  "json_err e = Other (GCDNS_PROVIDER @ '' JSON encoding failed: '' @ e)"

definition signed_assertion ::
  "('k, 'v, 'r, 'n) gcdns_env \<Rightarrow> 'k GoogleCloudDnsProvider \<Rightarrow> (('n, 'z) gcdns_world_scheme, string) io" where
  "signed_assertion E self w =
     (and_then (ok_or (Other ''system clock is before the unix epoch'') (system_time E (net w))) (\<lambda>iat.
      let header = \<lparr>jwt_alg = ''RS256'', jwt_typ = ''JWT'', jwt_kid = private_key_id self\<rparr>;
          claims = \<lparr>jwt_iss = client_email self, jwt_scope = GCDNS_SCOPE, jwt_aud = token_uri self, jwt_iat = iat,
            jwt_exp = iat + as_secs JWT_LIFETIME\<rparr> in
      and_then (map_err json_err (jwt_header_json E header)) (\<lambda>h.
      and_then (map_err json_err (jwt_claims_json E claims)) (\<lambda>c.
      let signing_input = base64url E h @ ''.'' @ base64url E c in
      and_then (ok_or (Other (GCDNS_PROVIDER @ '' failed to sign the JWT'')) (rsa_sign E (gc_key self) signing_input (net w)))
        (\<lambda>signature. Inr (signing_input @ ''.'' @ base64url E signature))))), w)"

definition token_request :: "'k GoogleCloudDnsProvider \<Rightarrow> string \<Rightarrow> 'v GcdnsBody request" where
  "token_request self assertion =
     \<lparr>rq_method = POST, rq_url = token_uri self, rq_query = [], rq_headers = [],
      rq_body = Some (Form [(''grant_type'', JWT_GRANT_TYPE), (''assertion'', assertion)])\<rparr>"

definition exchange_assertion ::
  "('k, 'v, 'r, 'n) gcdns_env \<Rightarrow> 'k GoogleCloudDnsProvider \<Rightarrow> (('n, 'z) gcdns_world_scheme, string) io" where
  "exchange_assertion E self =
     attempt (signed_assertion E self) (\<lambda>assertion.
     attempt (send E (token_request self assertion)) (\<lambda>response.
     let status = rs_status response in
     if \<not> is_success status
     then fail_with (into_auth (api_error E GCDNS_PROVIDER ''POST'' ''token'' status response))
     else
       attempt (read_json (token_json E) response) (\<lambda>body.
       let lifetime = from_secs (case tr_expires_in body of Some secs \<Rightarrow> secs | None \<Rightarrow> 3600) in
       attempt (get_state (instant_now E)) (\<lambda>now.
       let fresh = \<lparr>token_value = tr_access_token body, refresh_at = now + (lifetime - TOKEN_REFRESH_MARGIN)\<rparr> in
       attempt (modify_state (\<lambda>w. w\<lparr>gc_token := Some fresh\<rparr>)) (\<lambda>_.
       done_ok (token_value fresh))))))"

definition access_token ::
  "('k, 'v, 'r, 'n) gcdns_env \<Rightarrow> 'k GoogleCloudDnsProvider \<Rightarrow> (('n, 'z) gcdns_world_scheme, string) io" where
  "access_token E self w =
     (case gc_token w of
        Some cached \<Rightarrow>
          if instant_now E w < refresh_at cached then (Inr (token_value cached), w) else exchange_assertion E self w
      | None \<Rightarrow> exchange_assertion E self w)"

definition forget_token_on_unauthorized :: "nat \<Rightarrow> (('n, 'z) gcdns_world_scheme, unit) io" where
  "forget_token_on_unauthorized status = modify_state (\<lambda>w. if status = 401 then w\<lparr>gc_token := None\<rparr> else w)"

section \<open>The API calls\<close>

definition gc_zones_path :: "('k, 'v, 'r, 'n) gcdns_env \<Rightarrow> 'k GoogleCloudDnsProvider \<Rightarrow> string" where
  "gc_zones_path E self = ''/projects/'' @ encode_path E (project self) @ ''/managedZones''"

definition gc_zone_path :: "('k, 'v, 'r, 'n) gcdns_env \<Rightarrow> 'k GoogleCloudDnsProvider \<Rightarrow> string \<Rightarrow> string" where
  "gc_zone_path E self zone = gc_zones_path E self @ ''/'' @ encode_path E zone"

definition gc_check_error ::
  "('k, 'v, 'r, 'n) gcdns_env \<Rightarrow> string \<Rightarrow> string \<Rightarrow> nat \<Rightarrow> 'r response \<Rightarrow> DnsError" where
  "gc_check_error E meth path status response =
     (if status = 401 \<or> status = 403 then into_auth (api_error E GCDNS_PROVIDER meth path status response)
      else if status = 429
      then
        (let hint = (case rs_header response ''retry-after'' of
               Some delay \<Rightarrow> ''retry after '' @ delay @ ''s'' | None \<Rightarrow> ''retry later'') in
         Api (GCDNS_PROVIDER @ '' '' @ meth @ '' '' @ path @ '' was rate limited (429), '' @ hint))
      else if status = 409 \<or> status = 412
      then Api (GCDNS_PROVIDER @ '' '' @ meth @ '' '' @ path @ '' returned '' @ status_display E status @
        '': the record set was modified concurrently, retry the operation'')
      else api_error E GCDNS_PROVIDER meth path status response)"

definition gc_get_request ::
  "'k GoogleCloudDnsProvider \<Rightarrow> string \<Rightarrow> string \<Rightarrow> (string \<times> string) list \<Rightarrow> 'v GcdnsBody request" where
  "gc_get_request self secret path query =
     \<lparr>rq_method = GET, rq_url = api_base self @ path, rq_query = query, rq_headers = [bearer secret], rq_body = None\<rparr>"

definition gc_get ::
  "('k, 'v, 'r, 'n) gcdns_env \<Rightarrow> 'k GoogleCloudDnsProvider \<Rightarrow> string \<Rightarrow> (string \<times> string) list \<Rightarrow>
   (('n, 'z) gcdns_world_scheme, 'r response) io" where
  "gc_get E self path query =
     attempt (access_token E self) (\<lambda>secret.
     attempt (send E (gc_get_request self secret path query)) (\<lambda>response.
     let status = rs_status response in
     if \<not> is_success status
     then attempt (forget_token_on_unauthorized status) (\<lambda>_. fail_with (gc_check_error E ''GET'' path status response))
     else done_ok response))"

definition absolute :: "string \<Rightarrow> string" where
  "absolute fqdn = to_ascii_lowercase (trim_end_matches DOT fqdn) @ ''.''"

definition better_zone :: "string \<Rightarrow> ManagedZone \<Rightarrow> (nat \<times> string) option \<Rightarrow> (nat \<times> string) option" where
  "better_zone name zone best =
     (if mz_visibility zone = Some ''private'' then best
      else
        let dns_name = to_ascii_lowercase (mz_dns_name zone);
            matches = (name = dns_name \<or> strip_suffix (DOT # dns_name) name \<noteq> None) in
        if matches \<and> (case best of None \<Rightarrow> True | Some (len, _) \<Rightarrow> length dns_name > len)
        then Some (length dns_name, mz_name zone) else best)"

text \<open>The loop over the pages, with \<open>pages\<close> of them left.\<close>

definition page_query :: "string option \<Rightarrow> (string \<times> string) list" where
  "page_query page_token = (case page_token of Some t \<Rightarrow> [(''pageToken'', t)] | None \<Rightarrow> [])"

fun zone_pages ::
  "('k, 'v, 'r, 'n) gcdns_env \<Rightarrow> 'k GoogleCloudDnsProvider \<Rightarrow> string \<Rightarrow> string \<Rightarrow> nat \<Rightarrow> (nat \<times> string) option \<Rightarrow>
   string option \<Rightarrow> (('n, 'z) gcdns_world_scheme, string) io" where
  "zone_pages E self fqdn name 0 best page_token =
     fail_with (Api (GCDNS_PROVIDER @ '' zone listing exceeded '' @ show_nat GCDNS_MAX_PAGES @ '' pages''))"
| "zone_pages E self fqdn name (Suc pages) best page_token =
     attempt (gc_get E self (gc_zones_path E self) (page_query page_token)) (\<lambda>response.
     attempt (read_json (zones_json E) response) (\<lambda>body.
     let best = fold (better_zone name) (managed_zones body) best in
     case next_page_token body of
       Some t \<Rightarrow>
         if t \<noteq> [] then zone_pages E self fqdn name pages best (Some t)
         else from_result (ok_or (ZoneNotFound fqdn) (map_option snd best))
     | None \<Rightarrow> from_result (ok_or (ZoneNotFound fqdn) (map_option snd best))))"

definition gc_resolve_zone ::
  "('k, 'v, 'r, 'n) gcdns_env \<Rightarrow> 'k GoogleCloudDnsProvider \<Rightarrow> string \<Rightarrow> (('n, 'z) gcdns_world_scheme, string) io" where
  "gc_resolve_zone E self fqdn =
     (case zone_override self of
        Some zone \<Rightarrow> done_ok zone
      | None \<Rightarrow> zone_pages E self fqdn (absolute fqdn) GCDNS_MAX_PAGES None None)"

definition is_txt_at :: "('k, 'v, 'r, 'n) gcdns_env \<Rightarrow> string \<Rightarrow> 'v \<Rightarrow> bool" where
  "is_txt_at E name r \<longleftrightarrow> json_str E (json_index E r ''type'') = Some ''TXT'' \<and>
     (case json_str E (json_index E r ''name'') of Some n \<Rightarrow> eq_ignore_ascii_case n name | None \<Rightarrow> False)"

definition gc_fetch_rrset ::
  "('k, 'v, 'r, 'n) gcdns_env \<Rightarrow> 'k GoogleCloudDnsProvider \<Rightarrow> string \<Rightarrow> string \<Rightarrow>
   (('n, 'z) gcdns_world_scheme, 'v option) io" where
  "gc_fetch_rrset E self zone name =
     (let path = gc_zone_path E self zone @ ''/rrsets'' in
      attempt (gc_get E self path [(''name'', name), (''type'', ''TXT'')]) (\<lambda>response.
      attempt (read_json (rrsets_json E) response) (\<lambda>rrsets.
      done_ok (find (is_txt_at E name) rrsets))))"

definition change_judge :: "Change \<Rightarrow> unit result option" where
  "change_judge c = (if change_status c = ''done'' then Some (Inr ()) else None)"

definition gc_still :: "Change \<Rightarrow> DnsError" where
  "gc_still c = Api (GCDNS_PROVIDER @ '' change '' @ change_id c @ '' still '' @ change_status c @ '' after '' @
     show_nat (as_secs GCDNS_CHANGE_TIMEOUT) @ ''s'')"

definition gc_fetch_change ::
  "('k, 'v, 'r, 'n) gcdns_env \<Rightarrow> 'k GoogleCloudDnsProvider \<Rightarrow> string \<Rightarrow> Change \<Rightarrow> (('n, 'z) gcdns_world_scheme, Change) io" where
  "gc_fetch_change E self zone c =
     (let path = gc_zone_path E self zone @ ''/changes/'' @ encode_path E (change_id c) in
      attempt (gc_get E self path []) (read_json (change_json E)))"

definition gc_wait_for_change ::
  "('k, 'v, 'r, 'n) gcdns_env \<Rightarrow> 'k GoogleCloudDnsProvider \<Rightarrow> string \<Rightarrow> Change \<Rightarrow> (('n, 'z) gcdns_world_scheme, unit) io" where
  "gc_wait_for_change E self zone =
     wait_settled E change_judge gc_still GCDNS_CHANGE_TIMEOUT GCDNS_CHANGE_POLL_INTERVAL (gc_fetch_change E self zone)"

lemma gc_wait_for_change_now [code]:
  "gc_wait_for_change E self zone c w =
     (case change_judge c of
        Some r \<Rightarrow> (r, w)
      | None \<Rightarrow> wait_settled E change_judge gc_still GCDNS_CHANGE_TIMEOUT GCDNS_CHANGE_POLL_INTERVAL (gc_fetch_change E self zone) c w)"
  unfolding gc_wait_for_change_def by (simp add: wait_settled_now split: option.split)

definition change_request ::
  "('k, 'v, 'r, 'n) gcdns_env \<Rightarrow> 'k GoogleCloudDnsProvider \<Rightarrow> string \<Rightarrow> string \<Rightarrow> 'v option \<Rightarrow> Rrset option \<Rightarrow>
   'v GcdnsBody request" where
  "change_request E self secret zone deletion addition =
     \<lparr>rq_method = POST, rq_url = api_base self @ gc_zone_path E self zone @ ''/changes'', rq_query = [],
      rq_headers = [bearer secret],
      rq_body = Some (ChangeJson \<lparr>additions = (case addition of None \<Rightarrow> [] | Some a \<Rightarrow> [a]),
        deletions = (case deletion of None \<Rightarrow> [] | Some d \<Rightarrow> [d])\<rparr>)\<rparr>"

definition apply_change ::
  "('k, 'v, 'r, 'n) gcdns_env \<Rightarrow> 'k GoogleCloudDnsProvider \<Rightarrow> string \<Rightarrow> 'v option \<Rightarrow> Rrset option \<Rightarrow>
   (('n, 'z) gcdns_world_scheme, unit) io" where
  "apply_change E self zone deletion addition =
     (let path = gc_zone_path E self zone @ ''/changes'' in
      attempt (access_token E self) (\<lambda>secret.
      attempt (send E (change_request E self secret zone deletion addition)) (\<lambda>response.
      let status = rs_status response in
      if \<not> is_success status
      then attempt (forget_token_on_unauthorized status) (\<lambda>_. fail_with (gc_check_error E ''POST'' path status response))
      else
        attempt (read_json (change_json E) response) (\<lambda>c.
        gc_wait_for_change E self zone c))))"

section \<open>The provider\<close>

definition gc_rrdatas :: "('k, 'v, 'r, 'n) gcdns_env \<Rightarrow> 'v \<Rightarrow> string list" where
  "gc_rrdatas E rrset =
     (case json_array E (json_index E rrset ''rrdatas'') of
        Some vs \<Rightarrow> List.map_filter (json_str E) vs | None \<Rightarrow> [])"

definition gc_ttl_of :: "('k, 'v, 'r, 'n) gcdns_env \<Rightarrow> 'k GoogleCloudDnsProvider \<Rightarrow> 'v \<Rightarrow> nat" where
  "gc_ttl_of E self rrset = (case json_u64 E (json_index E rrset ''ttl'') of Some t \<Rightarrow> t | None \<Rightarrow> ttl self)"

definition gc_present ::
  "('k, 'v, 'r, 'n) gcdns_env \<Rightarrow> 'k GoogleCloudDnsProvider \<Rightarrow> string \<Rightarrow> string \<Rightarrow> (('n, 'z) gcdns_world_scheme, unit) io" where
  "gc_present E self fqdn v =
     attempt (from_result (validate_fqdn fqdn)) (\<lambda>_.
     attempt (from_result (validate_acme_value v)) (\<lambda>_.
     attempt (gc_resolve_zone E self fqdn) (\<lambda>zone.
     let name = absolute fqdn in
     with_lock GCDNS_PROVIDER (zone @ ''|'' @ name) (
     attempt (gc_fetch_rrset E self zone name) (\<lambda>existing.
     let (vs, t) = (case existing of
           Some rrset \<Rightarrow> (gc_rrdatas E rrset, gc_ttl_of E self rrset) | None \<Rightarrow> ([], ttl self)) in
     if list_ex (\<lambda>x. unquote x = v) vs then done_ok ()
     else
       let addition = \<lparr>rrset_name = name, rrset_kind = ''TXT'', rrset_ttl = t, rrset_datas = vs @ [quote_txt v]\<rparr> in
       apply_change E self zone existing (Some addition))))))"

definition gc_cleanup ::
  "('k, 'v, 'r, 'n) gcdns_env \<Rightarrow> 'k GoogleCloudDnsProvider \<Rightarrow> string \<Rightarrow> string \<Rightarrow> (('n, 'z) gcdns_world_scheme, unit) io" where
  "gc_cleanup E self fqdn v =
     attempt (from_result (validate_fqdn fqdn)) (\<lambda>_.
     attempt (gc_resolve_zone E self fqdn) (\<lambda>zone.
     let name = absolute fqdn in
     with_lock GCDNS_PROVIDER (zone @ ''|'' @ name) (
     attempt (gc_fetch_rrset E self zone name) (\<lambda>found.
     case found of
       None \<Rightarrow> done_ok ()
     | Some existing \<Rightarrow>
         (let vs = gc_rrdatas E existing; remaining = filter (\<lambda>x. unquote x \<noteq> v) vs in
          if length remaining = length vs then done_ok ()
          else
            let addition = (if remaining \<noteq> []
                  then Some \<lparr>rrset_name = name, rrset_kind = ''TXT'', rrset_ttl = gc_ttl_of E self existing,
                    rrset_datas = remaining\<rparr>
                  else None) in
            apply_change E self zone (Some existing) addition)))))"

definition gc_provider ::
  "('k, 'v, 'r, 'n) gcdns_env \<Rightarrow> 'k GoogleCloudDnsProvider \<Rightarrow> ('n, 'z) gcdns_world_scheme DnsProvider" where
  "gc_provider E self =
     \<lparr>present = gc_present E self, cleanup = gc_cleanup E self, provider_timing = PropagationTiming_default\<rparr>"

lemma gc_provider_simps [simp]:
  "present (gc_provider E self) = gc_present E self" "cleanup (gc_provider E self) = gc_cleanup E self"
  by (simp_all add: gc_provider_def)

section \<open>The documented API\<close>



fun all_zones :: "nat \<Rightarrow> (string option \<Rightarrow> ManagedZone list \<times> string option) \<Rightarrow> string option \<Rightarrow> ManagedZone list option" where
  "all_zones 0 pg t = None"
| "all_zones (Suc pages) pg t =
     (case pg t of
        (zs, Some u) \<Rightarrow> if u \<noteq> [] then map_option ((@) zs) (all_zones pages pg (Some u)) else Some zs
      | (zs, None) \<Rightarrow> Some zs)"

definition gc_zone_for ::
  "'k GoogleCloudDnsProvider \<Rightarrow> (string option \<Rightarrow> ManagedZone list \<times> string option) \<Rightarrow> string \<Rightarrow> string option" where
  "gc_zone_for self pg f =
     (case zone_override self of Some z \<Rightarrow> Some z
      | None \<Rightarrow> Option.bind (all_zones GCDNS_MAX_PAGES pg None) (\<lambda>zs. map_option snd (fold (better_zone (absolute f)) zs None)))"

definition gc_owner ::
  "'k GoogleCloudDnsProvider \<Rightarrow> (string option \<Rightarrow> ManagedZone list \<times> string option) \<Rightarrow> string \<Rightarrow> (string \<times> string) option" where
  "gc_owner self pg f = map_option (\<lambda>z. (z, absolute f)) (gc_zone_for self pg f)"

section \<open>What the calls do\<close>













section \<open>A server\<close>






definition gc_pages :: "string option \<Rightarrow> ManagedZone list \<times> string option" where
  "gc_pages t =
     (case t of
        None \<Rightarrow> ([\<lparr>mz_name = ''org'', mz_dns_name = ''org.'', mz_visibility = None\<rparr>], Some ''2'')
      | Some _ \<Rightarrow> ([\<lparr>mz_name = ''a-org'', mz_dns_name = ''A.org.'', mz_visibility = Some ''public''\<rparr>,
          \<lparr>mz_name = ''private'', mz_dns_name = ''_acme-challenge.a.org.'', mz_visibility = Some ''private''\<rparr>], None))"




definition demo_gc_provider :: "unit GoogleCloudDnsProvider" where
  "demo_gc_provider = \<lparr>api_base = ''api'', zone_override = None, ttl = 2, cfg_timeout = 1, client_email = ''e'', private_key = ''k'',
     private_key_id = None, token_uri = ''token'', project = ''p'', gc_key = ()\<rparr>"



lemma demo_gc_owner: "gc_owner demo_gc_provider gc_pages ''_acme-challenge.A.org'' = Some (''a-org'', ''_acme-challenge.a.org.'')"
  by code_simp






end
