(* ===== verification/Route53.thy ===== *)
theory Route53
  imports Change_Wait Zone_Walk Record_Kit "HOL-Library.Char_ord" "HOL-Library.List_Lexorder" "HOL-Library.Product_Lexorder"
    "HOL-Library.Multiset"
begin

text \<open>
  The AWS Route 53 provider (\<open>providers/route53.rs\<close>): requests with a version 4 signature and a retry of its own
  when they are throttled, hosted zones found by name and cached, record sets that a change replaces as a whole,
  and changes that are polled until they are in sync. The hash functions, hexadecimal encoding, the XML library,
  the URL parser and the clock are parameters.
\<close>

section \<open>Configuration\<close>

definition ROUTE53_API_BASE :: string where
  "ROUTE53_API_BASE = ''https://route53.amazonaws.com/2013-04-01''"

definition ENV_ACCESS_KEY_ID :: string where
  "ENV_ACCESS_KEY_ID = ''AWS_ACCESS_KEY_ID''"

definition ENV_SECRET_ACCESS_KEY :: string where
  "ENV_SECRET_ACCESS_KEY = ''AWS_SECRET_ACCESS_KEY''"

definition ENV_SESSION_TOKEN :: string where
  "ENV_SESSION_TOKEN = ''AWS_SESSION_TOKEN''"

definition SIGNING_REGION :: string where
  "SIGNING_REGION = ''us-east-1''"

definition SIGNING_SERVICE :: string where
  "SIGNING_SERVICE = ''route53''"

definition XML_NAMESPACE :: string where
  "XML_NAMESPACE = ''https://route53.amazonaws.com/doc/2013-04-01/''"

definition R53_DEFAULT_TTL :: nat where
  "R53_DEFAULT_TTL = 60"

definition ZONE_LOOKUP_MAX_ITEMS :: string where
  "ZONE_LOOKUP_MAX_ITEMS = ''100''"

definition R53_CHANGE_POLL_INTERVAL :: duration where
  "R53_CHANGE_POLL_INTERVAL = from_secs 2"

definition R53_CHANGE_TIMEOUT :: duration where
  "R53_CHANGE_TIMEOUT = from_secs 120"

definition R53_PROVIDER :: string where
  "R53_PROVIDER = ''route53''"

definition R53_AUTH_CODES :: "string list" where
  "R53_AUTH_CODES =
     [''AccessDenied'', ''AccessDeniedException'', ''ExpiredToken'', ''IncompleteSignature'', ''InvalidClientTokenId'',
      ''MissingAuthenticationToken'', ''SignatureDoesNotMatch'', ''UnrecognizedClientException'']"

definition THROTTLING_CODES :: "string list" where
  "THROTTLING_CODES = [''Throttling'', ''PriorRequestNotComplete'']"

definition SIGV4_ENCODE :: "char \<Rightarrow> bool" where
  "SIGV4_ENCODE c \<longleftrightarrow> \<not> is_ascii_alphanumeric c \<and> c \<notin> set ''-_.~''"

record HostedZone =
  hz_id :: string
  hz_name :: string
  hz_private :: "bool option"

record ResourceRecordSet =
  rs_name :: string
  rs_record_type :: string
  rs_ttl :: "nat option"
  rs_set_identifier :: "string option"
  rs_resource_records :: "string list option"

record ChangeInfo =
  ci_id :: string
  ci_status :: string

record AwsError =
  aws_code :: string
  aws_message :: "string option"

record TxtSet =
  set_ttl_of :: nat
  set_values :: "string list"

text \<open>A parsed URL: how it is sent, its path, query, host and explicit port.\<close>

record parsed_url =
  pu_text :: string
  pu_path :: string
  pu_query :: "string option"
  pu_host :: "string option"
  pu_port :: "nat option"

record utc_time =
  utc_year :: int
  utc_month :: nat
  utc_day :: nat
  utc_hour :: nat
  utc_minute :: nat
  utc_second :: nat

text \<open>
  \<open>sha256\<close>, \<open>hmac\<close> and \<open>hex\<close> are the hash functions and the hexadecimal encoding, \<open>xml_escape\<close> and the \<open>xml_\<close> fields
  the XML library on the documents the provider sends and reads, and \<open>now_utc\<close> is the calendar time.
\<close>

record ('r, 'n) r53_env = "(string, 'r, 'n) api_env" +
  sha256 :: "string \<Rightarrow> string"
  hmac :: "string \<Rightarrow> string \<Rightarrow> string"
  hex :: "string \<Rightarrow> string"
  full_url :: "string \<Rightarrow> string + parsed_url"
  now_utc :: "'n \<Rightarrow> utc_time"
  xml_escape :: "string \<Rightarrow> string"
  xml_zones :: "string \<Rightarrow> string + HostedZone list"
  xml_rrsets :: "string \<Rightarrow> string + ResourceRecordSet list"
  xml_change :: "string \<Rightarrow> string + ChangeInfo"
  xml_error :: "string \<Rightarrow> AwsError option"
  xml_invalid_batch :: "string \<Rightarrow> string list option"

text \<open>The field \<open>zone_override\<close> of the common fields is \<open>hosted_zone_id\<close> here.\<close>

record Route53Config = api_config +
  access_key_id :: string
  secret_access_key :: string
  session_token :: "string option"

type_synonym Route53Provider = Route53Config

definition Route53Config_new :: "string \<Rightarrow> string \<Rightarrow> Route53Config" where
  "Route53Config_new key_id secret =
     \<lparr>api_base = ROUTE53_API_BASE, zone_override = None, ttl = R53_DEFAULT_TTL, cfg_timeout = HTTP_TIMEOUT,
      access_key_id = key_id, secret_access_key = secret, session_token = None\<rparr>"

definition with_session_token :: "string \<Rightarrow> Route53Config \<Rightarrow> Route53Config" where
  "with_session_token t config = config\<lparr>session_token := Some t\<rparr>"

definition r53_with_api_base :: "('r, 'n) r53_env \<Rightarrow> string \<Rightarrow> Route53Config \<Rightarrow> Route53Config result" where
  "r53_with_api_base E base config = set_api_base E R53_PROVIDER base config"

definition normalize_id :: "string \<Rightarrow> string \<Rightarrow> string option" where
  "normalize_id i prefix =
     (let i = (case strip_prefix prefix i of Some r \<Rightarrow> r | None \<Rightarrow> i);
          valid = i \<noteq> [] \<and> length i \<le> 64 \<and> list_all is_ascii_alphanumeric i in
      if valid then Some i else None)"

definition with_hosted_zone_id :: "string \<Rightarrow> Route53Config \<Rightarrow> Route53Config result" where
  "with_hosted_zone_id i config =
     and_then (ok_or (Other (''invalid '' @ R53_PROVIDER @ '' hosted zone id: '' @ i)) (normalize_id i ''/hostedzone/''))
       (\<lambda>i. Inr (config\<lparr>zone_override := Some i\<rparr>))"

definition r53_with_ttl :: "nat \<Rightarrow> Route53Config \<Rightarrow> Route53Config result" where
  "r53_with_ttl t config = and_then (validate_ttl t) (\<lambda>t. Inr (config\<lparr>ttl := t\<rparr>))"

definition r53_with_timeout :: "duration \<Rightarrow> Route53Config \<Rightarrow> Route53Config" where
  "r53_with_timeout t config = config\<lparr>cfg_timeout := t\<rparr>"

definition Route53Provider_new :: "('r, 'n) r53_env \<Rightarrow> Route53Config \<Rightarrow> Route53Provider result" where
  "Route53Provider_new E config =
     and_then (build_client E (cfg_timeout config) CONNECT_TIMEOUT) (\<lambda>_. Inr config)"

definition r53_from_env :: "('r, 'n) r53_env \<Rightarrow> Route53Provider result" where
  "r53_from_env E =
     and_then (required_var E ENV_ACCESS_KEY_ID) (\<lambda>key_id.
     and_then (required_var E ENV_SECRET_ACCESS_KEY) (\<lambda>secret.
     let config = Route53Config_new key_id secret;
         config = (case env_var E ENV_SESSION_TOKEN of
           Some t \<Rightarrow> if t \<noteq> [] then with_session_token t config else config
         | None \<Rightarrow> config) in
     Route53Provider_new E config))"

section \<open>Signatures\<close>

record SigningCredentials =
  cred_access_key_id :: string
  cred_secret_access_key :: string
  cred_session_token :: "string option"

record SigningScope =
  scope_region :: string
  scope_service :: string

definition zero_padded :: "nat \<Rightarrow> string \<Rightarrow> string" where
  "zero_padded width s = replicate (width - length s) (CHR ''0'') @ s"

definition zero_padded_int :: "nat \<Rightarrow> int \<Rightarrow> string" where
  "zero_padded_int width i =
     (if i < 0 then CHR ''-'' # zero_padded (width - 1) (show_nat (nat (- i))) else zero_padded width (show_nat (nat i)))"

definition amz_date_now :: "('r, 'n) r53_env \<Rightarrow> 'n \<Rightarrow> string" where
  "amz_date_now E n =
     (let now = now_utc E n in
      zero_padded_int 4 (utc_year now) @ zero_padded 2 (show_nat (utc_month now)) @ zero_padded 2 (show_nat (utc_day now)) @
      ''T'' @ zero_padded 2 (show_nat (utc_hour now)) @ zero_padded 2 (show_nat (utc_minute now)) @
      zero_padded 2 (show_nat (utc_second now)) @ ''Z'')"

definition canonical_query :: "('r, 'n) r53_env \<Rightarrow> (string \<times> string) list \<Rightarrow> string" where
  "canonical_query E params =
     (let encoded = map (\<lambda>(k, v). (pct_encode E SIGV4_ENCODE k, pct_encode E SIGV4_ENCODE v)) params in
      join ''&'' (map (\<lambda>(k, v). k @ ''='' @ v) (sort encoded)))"

definition canonical_uri :: "('r, 'n) r53_env \<Rightarrow> parsed_url \<Rightarrow> string" where
  "canonical_uri E url =
     (if pu_path url = [] then ''/''
      else join ''/'' (map (pct_encode E SIGV4_ENCODE) (split_char SLASH (pu_path url))))"

definition host_header :: "parsed_url \<Rightarrow> string" where
  "host_header url =
     (let host = (case pu_host url of Some h \<Rightarrow> h | None \<Rightarrow> []) in
      case pu_port url of Some port \<Rightarrow> host @ '':'' @ show_nat port | None \<Rightarrow> host)"

definition NL :: string where
  "NL = [CHR 0x0A]"

definition canonical_request ::
  "('r, 'n) r53_env \<Rightarrow> (string \<times> string) list \<Rightarrow> string \<Rightarrow> parsed_url \<Rightarrow> string \<Rightarrow> string" where
  "canonical_request E canonical_headers meth url payload =
     (let signed_headers = join '';'' (map fst canonical_headers);
          header_block = concat (map (\<lambda>(name, x). name @ '':'' @ trim x @ NL) canonical_headers) in
      meth @ NL @ canonical_uri E url @ NL @ (case pu_query url of Some q \<Rightarrow> q | None \<Rightarrow> []) @ NL @ header_block @ NL @
      signed_headers @ NL @ hex E (sha256 E payload))"

definition sign_v4 ::
  "('r, 'n) r53_env \<Rightarrow> SigningCredentials \<Rightarrow> SigningScope \<Rightarrow> string \<Rightarrow> parsed_url \<Rightarrow> string \<Rightarrow> string \<Rightarrow> (string \<times> string) list" where
  "sign_v4 E credentials scope meth url payload amz_date =
     (let date = take 8 amz_date;
          secret_header = (case cred_session_token credentials of
            Some t \<Rightarrow> [(''x-amz-security-token'', t)] | None \<Rightarrow> []);
          canonical_headers = [(''host'', host_header url), (''x-amz-date'', amz_date)] @ secret_header;
          signed_headers = join '';'' (map fst canonical_headers);
          credential_scope = date @ ''/'' @ scope_region scope @ ''/'' @ scope_service scope @ ''/aws4_request'';
          string_to_sign = ''AWS4-HMAC-SHA256'' @ NL @ amz_date @ NL @ credential_scope @ NL @
            hex E (sha256 E (canonical_request E canonical_headers meth url payload));
          k_date = hmac E (''AWS4'' @ cred_secret_access_key credentials) date;
          k_region = hmac E k_date (scope_region scope);
          k_service = hmac E k_region (scope_service scope);
          k_signing = hmac E k_service ''aws4_request'';
          signature = hex E (hmac E k_signing string_to_sign) in
      [(''x-amz-date'', amz_date)] @ secret_header @
      [(''authorization'', ''AWS4-HMAC-SHA256 Credential='' @ cred_access_key_id credentials @ ''/'' @ credential_scope @
         '', SignedHeaders='' @ signed_headers @ '', Signature='' @ signature)])"

text \<open>The order in which the parameters are given does not matter for the query.\<close>

lemma canonical_query_order: "mset params = mset params' \<Longrightarrow> canonical_query E params = canonical_query E params'"
proof -
  let ?enc = "\<lambda>(k, v). (pct_encode E SIGV4_ENCODE k, pct_encode E SIGV4_ENCODE v)"
  assume "mset params = mset params'"
  then have "sort (map ?enc params) = sort (map ?enc params')" by (intro properties_for_sort) simp_all
  then show ?thesis by (simp add: canonical_query_def Let_def)
qed






section \<open>The API calls\<close>

definition is_throttled :: "('r, 'n) r53_env \<Rightarrow> string \<Rightarrow> bool" where
  "is_throttled E text = (case xml_error E text of Some err \<Rightarrow> aws_code err \<in> set THROTTLING_CODES | None \<Rightarrow> False)"

definition map_error :: "('r, 'n) r53_env \<Rightarrow> string \<Rightarrow> string \<Rightarrow> nat \<Rightarrow> string \<Rightarrow> DnsError" where
  "map_error E meth path status text =
     (let call = R53_PROVIDER @ '' '' @ meth @ '' '' @ path;
          document = (case xml_error E text of
              Some err \<Rightarrow> Some (aws_code err, case aws_message err of Some m \<Rightarrow> m | None \<Rightarrow> [])
            | None \<Rightarrow> map_option (\<lambda>messages. (''InvalidChangeBatch'', join ''; '' messages)) (xml_invalid_batch E text)) in
      case document of
        None \<Rightarrow>
          (let text = truncate_error_body text in
           if status = 403 then Auth (call @ '' returned '' @ status_display E status @ '': '' @ text)
           else if status = 429 then Api (call @ '' was rate limited ('' @ status_display E status @ ''), retry later'')
           else Api (call @ '' returned '' @ status_display E status @ '': '' @ text))
      | Some (code, raw_message) \<Rightarrow>
          (let message = truncate_error_body raw_message in
           if code \<in> set R53_AUTH_CODES then Auth (call @ '' refused credentials: '' @ code @ '': '' @ message)
           else if code \<in> set THROTTLING_CODES \<or> status = 429
           then Api (call @ '' was rate limited ('' @ code @ ''), retry later: '' @ message)
           else if code = ''NoSuchHostedZone'' then ZoneNotFound (R53_PROVIDER @ '' hosted zone ('' @ message @ '')'')
           else Api (call @ '' returned '' @ status_display E status @ '': '' @ code @ '': '' @ message)))"

definition r53_signed ::
  "('r, 'n) r53_env \<Rightarrow> Route53Provider \<Rightarrow> http_method \<Rightarrow> parsed_url \<Rightarrow> string \<Rightarrow> ('n, 'z) world_scheme \<Rightarrow> string request" where
  "r53_signed E self meth url payload w =
     (let credentials = \<lparr>cred_access_key_id = access_key_id self, cred_secret_access_key = secret_access_key self,
            cred_session_token = session_token self\<rparr>;
          headers = sign_v4 E credentials \<lparr>scope_region = SIGNING_REGION, scope_service = SIGNING_SERVICE\<rparr>
            (method_str meth) url payload (amz_date_now E (net w)) in
      \<lparr>rq_method = meth, rq_url = pu_text url, rq_query = [],
       rq_headers = (if payload \<noteq> [] then headers @ [(''content-type'', ''application/xml'')] else headers),
       rq_body = (if payload \<noteq> [] then Some payload else None)\<rparr>)"

definition r53_send_signed ::
  "('r, 'n) r53_env \<Rightarrow> Route53Provider \<Rightarrow> http_method \<Rightarrow> parsed_url \<Rightarrow> string \<Rightarrow> (('n, 'z) world_scheme, nat \<times> string) io" where
  "r53_send_signed E self meth url payload =
     attempt (get_state (r53_signed E self meth url payload)) (\<lambda>request.
     attempt (send E request) (\<lambda>response.
     attempt (read_json (http_text E) response) (\<lambda>text.
     done_ok (rs_status response, text))))"

function r53_send_loop ::
  "('r, 'n) r53_env \<Rightarrow> Route53Provider \<Rightarrow> http_method \<Rightarrow> parsed_url \<Rightarrow> string \<Rightarrow> string \<Rightarrow> nat \<Rightarrow> (('n, 'z) world_scheme, string) io" where
  "r53_send_loop E self meth url payload path att =
     attempt (r53_send_signed E self meth url payload) (\<lambda>(status, text).
     if is_success status then done_ok text
     else if att < MAX_ATTEMPTS \<and> is_throttled E text
     then attempt (sleep_for E (retry_backoff att)) (\<lambda>_. r53_send_loop E self meth url payload path (att + 1))
     else fail_with (map_error E (method_str meth) path status text))"
  by pat_completeness auto
termination
  by (relation "measure (\<lambda>(E, self, meth, url, payload, path, att). MAX_ATTEMPTS - att)") auto

declare r53_send_loop.simps [simp del]

definition r53_url :: "('r, 'n) r53_env \<Rightarrow> Route53Provider \<Rightarrow> string \<Rightarrow> (string \<times> string) list \<Rightarrow> string" where
  "r53_url E self path query =
     (let raw_url = api_base self @ path; q = canonical_query E query in
      if q \<noteq> [] then raw_url @ ''?'' @ q else raw_url)"

definition r53_send ::
  "('r, 'n) r53_env \<Rightarrow> Route53Provider \<Rightarrow> http_method \<Rightarrow> string \<Rightarrow> (string \<times> string) list \<Rightarrow> string option \<Rightarrow>
   (('n, 'z) world_scheme, string) io" where
  "r53_send E self meth path query body =
     attempt (from_result (map_err (\<lambda>e. Other (R53_PROVIDER @ '' invalid request URL: '' @ e))
       (full_url E (r53_url E self path query)))) (\<lambda>url.
     let payload = (case body of Some b \<Rightarrow> b | None \<Rightarrow> []) in
     r53_send_loop E self meth url payload path 1)"

definition parse_xml :: "(string \<Rightarrow> string + 'a) \<Rightarrow> string \<Rightarrow> string \<Rightarrow> string \<Rightarrow> 'a result" where
  "parse_xml from_str meth path text =
     map_err (\<lambda>e. Api (R53_PROVIDER @ '' '' @ meth @ '' '' @ path @ '' returned an unexpected body: '' @ e)) (from_str text)"

definition normalize_name :: "string \<Rightarrow> string" where
  "normalize_name name = to_ascii_lowercase (trim_end_matches DOT name)"

definition is_public_at :: "string \<Rightarrow> HostedZone \<Rightarrow> bool" where
  "is_public_at candidate z \<longleftrightarrow> normalize_name (hz_name z) = candidate \<and> hz_private z \<noteq> Some True"

definition find_public_zone ::
  "('r, 'n) r53_env \<Rightarrow> Route53Provider \<Rightarrow> string \<Rightarrow> (('n, 'z) world_scheme, string option) io" where
  "find_public_zone E self candidate =
     (let path = ''/hostedzonesbyname'' in
      attempt (r53_send E self GET path [(''dnsname'', candidate), (''maxitems'', ZONE_LOOKUP_MAX_ITEMS)] None) (\<lambda>text.
      attempt (from_result (parse_xml (xml_zones E) ''GET'' path text)) (\<lambda>zones.
      case filter (is_public_at candidate) zones of
        [] \<Rightarrow> done_ok None
      | [zone] \<Rightarrow>
          from_result (ok_or (Api (R53_PROVIDER @ '' GET '' @ path @ '' returned an invalid hosted zone id''))
            (map_option Some (normalize_id (hz_id zone) ''/hostedzone/'')))
      | _ \<Rightarrow> fail_with (Api (R53_PROVIDER @ '': several public hosted zones are named '' @ candidate @
          ''; pick one with with_hosted_zone_id'')))))"

fun r53_candidates ::
  "('r, 'n) r53_env \<Rightarrow> Route53Provider \<Rightarrow> string \<Rightarrow> string \<Rightarrow> string list \<Rightarrow> (('n, 'z) zone_world_scheme, string) io" where
  "r53_candidates E self fqdn name [] = fail_with (ZoneNotFound fqdn)"
| "r53_candidates E self fqdn name (candidate # candidates) =
     attempt (find_public_zone E self candidate) (\<lambda>found.
     case found of
       Some i \<Rightarrow> attempt (modify_state (\<lambda>w. w\<lparr>zone_cache := (zone_cache w)(name \<mapsto> i)\<rparr>)) (\<lambda>_. done_ok i)
     | None \<Rightarrow> r53_candidates E self fqdn name candidates)"

definition r53_resolve_zone ::
  "('r, 'n) r53_env \<Rightarrow> Route53Provider \<Rightarrow> string \<Rightarrow> (('n, 'z) zone_world_scheme, string) io" where
  "r53_resolve_zone E self fqdn =
     (case zone_override self of
        Some i \<Rightarrow> done_ok i
      | None \<Rightarrow>
          (let name = normalize_name fqdn in
           attempt (get_state (\<lambda>w. zone_cache w name)) (\<lambda>cached.
           case cached of
             Some i \<Rightarrow> done_ok i
           | None \<Rightarrow>
               (let labels = split_char DOT name in
                r53_candidates E self fqdn name
                  (map (\<lambda>start. join [DOT] (drop start labels)) [0..<length labels - 1])))))"

definition r53_rrset_query :: "string \<Rightarrow> (string \<times> string) list" where
  "r53_rrset_query name = [(''name'', name), (''type'', ''TXT''), (''maxitems'', ''1'')]"

definition r53_fetch_rrset ::
  "('r, 'n) r53_env \<Rightarrow> Route53Provider \<Rightarrow> string \<Rightarrow> string \<Rightarrow> (('n, 'z) world_scheme, TxtSet option) io" where
  "r53_fetch_rrset E self zone_id name =
     (let path = ''/hostedzone/'' @ zone_id @ ''/rrset'' in
      attempt (r53_send E self GET path (r53_rrset_query name) None) (\<lambda>text.
      attempt (from_result (parse_xml (xml_rrsets E) ''GET'' path text)) (\<lambda>items.
      case items of
        [] \<Rightarrow> done_ok None
      | found # _ \<Rightarrow>
          if normalize_name (rs_name found) \<noteq> normalize_name name \<or> rs_record_type found \<noteq> ''TXT'' then done_ok None
          else if rs_set_identifier found \<noteq> None
          then fail_with (Api (R53_PROVIDER @ '': TXT record set '' @ name @ '' uses a routing policy, which is not supported''))
          else done_ok (Some
            \<lparr>set_ttl_of = (case rs_ttl found of Some t \<Rightarrow> t | None \<Rightarrow> ttl self),
             set_values = (case rs_resource_records found of Some vs \<Rightarrow> vs | None \<Rightarrow> [])\<rparr>))))"

definition change_batch_xml :: "('r, 'n) r53_env \<Rightarrow> string \<Rightarrow> string \<Rightarrow> TxtSet \<Rightarrow> string" where
  "change_batch_xml E action name txt_set =
     (let records = concat (map (\<lambda>v.
            ''<ResourceRecord><Value>'' @ xml_escape E v @ ''</Value></ResourceRecord>'') (set_values txt_set)) in
      ''<?xml version='' @ [QUOTE] @ ''1.0'' @ [QUOTE] @ '' encoding='' @ [QUOTE] @ ''UTF-8'' @ [QUOTE] @ ''?>'' @
      ''<ChangeResourceRecordSetsRequest xmlns='' @ [QUOTE] @ XML_NAMESPACE @ [QUOTE] @ ''>'' @
      ''<ChangeBatch><Changes><Change>'' @
      ''<Action>'' @ action @ ''</Action>'' @
      ''<ResourceRecordSet>'' @
      ''<Name>'' @ xml_escape E name @ ''</Name><Type>TXT</Type><TTL>'' @ show_nat (set_ttl_of txt_set) @ ''</TTL>'' @
      ''<ResourceRecords>'' @ records @ ''</ResourceRecords>'' @
      ''</ResourceRecordSet>'' @
      ''</Change></Changes></ChangeBatch>'' @
      ''</ChangeResourceRecordSetsRequest>'')"

definition r53_fetch_change ::
  "('r, 'n) r53_env \<Rightarrow> Route53Provider \<Rightarrow> ChangeInfo \<Rightarrow> (('n, 'z) world_scheme, ChangeInfo) io" where
  "r53_fetch_change E self c =
     attempt (from_result (ok_or (Api (R53_PROVIDER @ '' returned an invalid change id'')) (normalize_id (ci_id c) ''/change/''))) (\<lambda>i.
     let path = ''/change/'' @ i in
     attempt (r53_send E self GET path [] None) (\<lambda>text.
     from_result (parse_xml (xml_change E) ''GET'' path text)))"

definition r53_judge :: "ChangeInfo \<Rightarrow> unit result option" where
  "r53_judge c = (if ci_status c = ''INSYNC'' then Some (Inr ()) else None)"

definition r53_still :: "ChangeInfo \<Rightarrow> DnsError" where
  "r53_still c = Api (R53_PROVIDER @ '' change '' @ ci_id c @ '' still '' @ ci_status c @ '' after '' @
     show_nat (as_secs R53_CHANGE_TIMEOUT) @ ''s'')"

definition r53_wait_for_change ::
  "('r, 'n) r53_env \<Rightarrow> Route53Provider \<Rightarrow> ChangeInfo \<Rightarrow> (('n, 'z) world_scheme, unit) io" where
  "r53_wait_for_change E self =
     wait_settled E r53_judge r53_still R53_CHANGE_TIMEOUT R53_CHANGE_POLL_INTERVAL (r53_fetch_change E self)"

lemma r53_wait_for_change_now [code]:
  "r53_wait_for_change E self c w =
     (case r53_judge c of
        Some r \<Rightarrow> (r, w)
      | None \<Rightarrow> wait_settled E r53_judge r53_still R53_CHANGE_TIMEOUT R53_CHANGE_POLL_INTERVAL (r53_fetch_change E self) c w)"
  unfolding r53_wait_for_change_def by (simp add: wait_settled_now split: option.split)

definition r53_change_path :: "string \<Rightarrow> string" where
  "r53_change_path zone_id = ''/hostedzone/'' @ zone_id @ ''/rrset/''"

definition change_rrset ::
  "('r, 'n) r53_env \<Rightarrow> Route53Provider \<Rightarrow> string \<Rightarrow> string \<Rightarrow> string \<Rightarrow> TxtSet \<Rightarrow> (('n, 'z) world_scheme, unit) io" where
  "change_rrset E self zone_id action name txt_set =
     (let path = r53_change_path zone_id; body = change_batch_xml E action name txt_set in
      attempt (r53_send E self POST path [] (Some body)) (\<lambda>text.
      attempt (from_result (parse_xml (xml_change E) ''POST'' path text)) (\<lambda>c.
      r53_wait_for_change E self c)))"

section \<open>The provider\<close>

definition txt_contains :: "TxtSet \<Rightarrow> string \<Rightarrow> bool" where
  "txt_contains txt_set v = list_ex (\<lambda>x. unquote x = v) (set_values txt_set)"

definition r53_present ::
  "('r, 'n) r53_env \<Rightarrow> Route53Provider \<Rightarrow> string \<Rightarrow> string \<Rightarrow> (('n, 'z) zone_world_scheme, unit) io" where
  "r53_present E self fqdn v =
     attempt (from_result (validate_fqdn fqdn)) (\<lambda>_.
     attempt (from_result (validate_acme_value v)) (\<lambda>_.
     attempt (r53_resolve_zone E self fqdn) (\<lambda>zone_id.
     let name = normalize_name fqdn @ ''.'' in
     with_lock R53_PROVIDER (zone_id @ ''|'' @ name) (
     attempt (r53_fetch_rrset E self zone_id name) (\<lambda>found.
     let new = (case found of
           Some txt_set \<Rightarrow> if txt_contains txt_set v then None
             else Some (txt_set\<lparr>set_values := set_values txt_set @ [quote_txt v]\<rparr>)
         | None \<Rightarrow> Some \<lparr>set_ttl_of = ttl self, set_values = [quote_txt v]\<rparr>) in
     case new of
       None \<Rightarrow> done_ok ()
     | Some txt_set \<Rightarrow> change_rrset E self zone_id ''UPSERT'' name txt_set)))))"

definition r53_cleanup ::
  "('r, 'n) r53_env \<Rightarrow> Route53Provider \<Rightarrow> string \<Rightarrow> string \<Rightarrow> (('n, 'z) zone_world_scheme, unit) io" where
  "r53_cleanup E self fqdn v =
     attempt (from_result (validate_fqdn fqdn)) (\<lambda>_.
     attempt (r53_resolve_zone E self fqdn) (\<lambda>zone_id.
     let name = normalize_name fqdn @ ''.'' in
     with_lock R53_PROVIDER (zone_id @ ''|'' @ name) (
     attempt (r53_fetch_rrset E self zone_id name) (\<lambda>found.
     case found of
       None \<Rightarrow> done_ok ()
     | Some txt_set \<Rightarrow>
         if \<not> txt_contains txt_set v then done_ok ()
         else
           let remaining = filter (\<lambda>x. unquote x \<noteq> v) (set_values txt_set) in
           if remaining = [] then change_rrset E self zone_id ''DELETE'' name txt_set
           else change_rrset E self zone_id ''UPSERT'' name \<lparr>set_ttl_of = set_ttl_of txt_set, set_values = remaining\<rparr>))))"

definition r53_provider :: "('r, 'n) r53_env \<Rightarrow> Route53Provider \<Rightarrow> ('n, 'z) zone_world_scheme DnsProvider" where
  "r53_provider E self =
     \<lparr>present = r53_present E self, cleanup = r53_cleanup E self, provider_timing = PropagationTiming_default\<rparr>"

lemma r53_provider_simps [simp]:
  "present (r53_provider E self) = r53_present E self" "cleanup (r53_provider E self) = r53_cleanup E self"
  by (simp_all add: r53_provider_def)

section \<open>The documented API\<close>










section \<open>What the calls do\<close>











lemma normalize_absolute [simp]: "normalize_name (normalize_name f @ ''.'') = normalize_name f"
  by (simp add: normalize_name_def ascii_lower_def trim_end_matches_DOT_lower trim_end_matches_snoc [of _ _ DOT, simplified])









section \<open>A server\<close>
































end
