(* ===== verification/Hetzner.thy ===== *)
theory Hetzner
  imports Change_Wait Provider_Config
begin

text \<open>
  The Hetzner provider (\<open>providers/hetzner.rs\<close>): record sets are changed by actions that the server accepts and
  applies later, and the provider polls an action until it is settled. Unlike with the other providers the state of
  the server changes while the provider waits, and an action may outlast the call that started it.
\<close>

section \<open>Configuration\<close>

definition HETZNER_API_BASE :: string where
  "HETZNER_API_BASE = ''https://api.hetzner.cloud/v1''"

definition HETZNER_ENV_TOKEN :: string where
  "HETZNER_ENV_TOKEN = ''HETZNER_API_TOKEN''"

definition HETZNER_DEFAULT_TTL :: nat where
  "HETZNER_DEFAULT_TTL = 60"

definition ACTION_POLL_INTERVAL :: duration where
  "ACTION_POLL_INTERVAL = from_secs 1"

definition ACTION_TIMEOUT :: duration where
  "ACTION_TIMEOUT = from_secs 60"

definition HETZNER_PROVIDER :: string where
  "HETZNER_PROVIDER = ''hetzner''"

record HetznerRecordsWrite =
  hw_ttl :: "nat option"
  hw_records :: "string list"

record HetznerActionError =
  he_code :: string
  he_message :: string

record HetznerAction =
  ha_id :: nat
  ha_command :: string
  ha_status :: string
  ha_error :: "HetznerActionError option"

text \<open>The decoders give the names of zones, the values of the records of a record set, and an action.\<close>

record ('r, 'n) hz_env = "(HetznerRecordsWrite, 'r, 'n) api_env" +
  hz_zones_json :: "'r \<Rightarrow> reqwest_error + string list"
  hz_rrset_json :: "'r \<Rightarrow> reqwest_error + string list"
  hz_action_json :: "'r \<Rightarrow> reqwest_error + HetznerAction"

record HetznerConfig = api_config +
  hz_token :: string

type_synonym HetznerProvider = HetznerConfig

definition HetznerConfig_new :: "string \<Rightarrow> HetznerConfig" where
  "HetznerConfig_new t =
     \<lparr>api_base = HETZNER_API_BASE, zone_override = None, ttl = HETZNER_DEFAULT_TTL, cfg_timeout = HTTP_TIMEOUT, hz_token = t\<rparr>"

definition hz_with_api_base :: "('r, 'n) hz_env \<Rightarrow> string \<Rightarrow> HetznerConfig \<Rightarrow> HetznerConfig result" where
  "hz_with_api_base E base config = set_api_base E HETZNER_PROVIDER base config"

definition hz_with_zone :: "string \<Rightarrow> HetznerConfig \<Rightarrow> HetznerConfig result" where
  "hz_with_zone zone config = set_zone zone config"

definition hz_with_ttl :: "nat \<Rightarrow> HetznerConfig \<Rightarrow> HetznerConfig result" where
  "hz_with_ttl t config = set_ttl 60 (2 ^ 31 - 1) t config"

definition hz_with_timeout :: "duration \<Rightarrow> HetznerConfig \<Rightarrow> HetznerConfig" where
  "hz_with_timeout t config = config\<lparr>cfg_timeout := t\<rparr>"

interpretation hz_config: config_builder "url_parse E" HETZNER_PROVIDER "60" "(2 ^ 31 - 1)" "HetznerConfig_new t" "hz_with_api_base E"
  hz_with_zone hz_with_ttl hz_with_timeout for E :: "('r, 'n) hz_env" and t
  by unfold_locales
    (auto simp: hz_with_api_base_def hz_with_zone_def hz_with_ttl_def hz_with_timeout_def HetznerConfig_new_def HETZNER_DEFAULT_TTL_def builder_simps)

definition HetznerProvider_new :: "('r, 'n) hz_env \<Rightarrow> HetznerConfig \<Rightarrow> HetznerProvider result" where
  "HetznerProvider_new E config =
     and_then (build_client E (cfg_timeout config) CONNECT_TIMEOUT) (\<lambda>_. Inr config)"

definition hz_from_env :: "('r, 'n) hz_env \<Rightarrow> HetznerProvider result" where
  "hz_from_env E =
     and_then (required_var E HETZNER_ENV_TOKEN) (\<lambda>t. HetznerProvider_new E (HetznerConfig_new t))"

section \<open>The API calls\<close>

definition hz_auth_header :: "HetznerProvider \<Rightarrow> string \<times> string" where
  "hz_auth_header self = (''authorization'', ''Bearer '' @ hz_token self)"

definition hz_rrset_path :: "('r, 'n) hz_env \<Rightarrow> string \<Rightarrow> string \<Rightarrow> string" where
  "hz_rrset_path E zone rname = ''/zones/'' @ encode_path E zone @ ''/rrsets/'' @ encode_path E rname @ ''/TXT''"

definition hz_rrset_url :: "('r, 'n) hz_env \<Rightarrow> HetznerProvider \<Rightarrow> string \<Rightarrow> string \<Rightarrow> string" where
  "hz_rrset_url E self zone rname = api_base self @ hz_rrset_path E zone rname"

definition hz_check_error :: "('r, 'n) hz_env \<Rightarrow> string \<Rightarrow> string \<Rightarrow> nat \<Rightarrow> 'r response \<Rightarrow> DnsError" where
  "hz_check_error E meth path status response =
     (if status = 429
      then
        (let hint = (case rs_header response ''ratelimit-reset'' of
               Some ts \<Rightarrow> ''limit resets at unix time '' @ ts | None \<Rightarrow> ''retry later'') in
         Api (HETZNER_PROVIDER @ '' '' @ meth @ '' '' @ path @ '' was rate limited (429), '' @ hint))
      else api_error E HETZNER_PROVIDER meth path status response)"

definition hz_get :: "HetznerProvider \<Rightarrow> string \<Rightarrow> (string \<times> string) list \<Rightarrow> HetznerRecordsWrite request" where
  "hz_get self url query =
     \<lparr>rq_method = GET, rq_url = url, rq_query = query, rq_headers = [hz_auth_header self], rq_body = None\<rparr>"

definition zone_exists :: "('r, 'n) hz_env \<Rightarrow> HetznerProvider \<Rightarrow> string \<Rightarrow> (('n, 'z) world_scheme, bool) io" where
  "zone_exists E self name =
     attempt (send E (hz_get self (api_base self @ ''/zones'') [(''name'', name)])) (\<lambda>response.
     let status = rs_status response in
     if \<not> is_success status then fail_with (hz_check_error E ''GET'' ''/zones'' status response)
     else attempt (read_json (hz_zones_json E) response) (\<lambda>zones. done_ok (list_ex (\<lambda>z. z = name) zones)))"

fun hz_candidates ::
  "('r, 'n) hz_env \<Rightarrow> HetznerProvider \<Rightarrow> string \<Rightarrow> string list \<Rightarrow> (('n, 'z) world_scheme, string) io" where
  "hz_candidates E self fqdn [] = fail_with (ZoneNotFound fqdn)"
| "hz_candidates E self fqdn (candidate # candidates) =
     attempt (zone_exists E self candidate) (\<lambda>found.
     if found then done_ok candidate else hz_candidates E self fqdn candidates)"

definition hz_resolve_zone :: "('r, 'n) hz_env \<Rightarrow> HetznerProvider \<Rightarrow> string \<Rightarrow> (('n, 'z) world_scheme, string) io" where
  "hz_resolve_zone E self fqdn =
     (case zone_override self of
        Some zone \<Rightarrow> done_ok zone
      | None \<Rightarrow>
          (let name = to_ascii_lowercase (trim_end_matches DOT fqdn); labels = split_char DOT name in
           hz_candidates E self fqdn (map (\<lambda>start. join [DOT] (drop start labels)) (rev [0..<length labels - 1]))))"

definition hz_fetch_existing ::
  "('r, 'n) hz_env \<Rightarrow> HetznerProvider \<Rightarrow> string \<Rightarrow> string \<Rightarrow> (('n, 'z) world_scheme, string list option) io" where
  "hz_fetch_existing E self zone rname =
     attempt (send E (hz_get self (hz_rrset_url E self zone rname) [])) (\<lambda>response.
     let status = rs_status response in
     if status = 404 then done_ok None
     else if \<not> is_success status then fail_with (hz_check_error E ''GET'' (hz_rrset_path E zone rname) status response)
     else attempt (read_json (hz_rrset_json E) response) (\<lambda>records. done_ok (Some (map unquote records))))"

definition fetch_action :: "('r, 'n) hz_env \<Rightarrow> HetznerProvider \<Rightarrow> nat \<Rightarrow> (('n, 'z) world_scheme, HetznerAction) io" where
  "fetch_action E self i =
     (let path = ''/zones/actions/'' @ show_nat i in
      attempt (send E (hz_get self (api_base self @ path) [])) (\<lambda>response.
      let status = rs_status response in
      if \<not> is_success status then fail_with (hz_check_error E ''GET'' path status response)
      else read_json (hz_action_json E) response))"

definition action_judge :: "HetznerAction \<Rightarrow> unit result option" where
  "action_judge a =
     (if ha_status a = ''success'' then Some (Inr ())
      else if ha_status a = ''error''
      then
        (let detail = (case ha_error a of Some e \<Rightarrow> he_code e @ '': '' @ he_message e | None \<Rightarrow> ''unknown error'') in
         Some (Inl (Api (HETZNER_PROVIDER @ '' action '' @ show_nat (ha_id a) @ '' ('' @ ha_command a @ '') failed: '' @ detail))))
      else None)"

definition action_still :: "HetznerAction \<Rightarrow> DnsError" where
  "action_still a = Api (HETZNER_PROVIDER @ '' action '' @ show_nat (ha_id a) @ '' ('' @ ha_command a @ '') still '' @ ha_status a @
     '' after '' @ show_nat (as_secs ACTION_TIMEOUT) @ ''s'')"

definition wait_for_action :: "('r, 'n) hz_env \<Rightarrow> HetznerProvider \<Rightarrow> HetznerAction \<Rightarrow> (('n, 'z) world_scheme, unit) io" where
  "wait_for_action E self =
     wait_settled E action_judge action_still ACTION_TIMEOUT ACTION_POLL_INTERVAL (\<lambda>a. fetch_action E self (ha_id a))"

lemma wait_for_action_now [code]:
  "wait_for_action E self a w =
     (case action_judge a of
        Some r \<Rightarrow> (r, w)
      | None \<Rightarrow> wait_settled E action_judge action_still ACTION_TIMEOUT ACTION_POLL_INTERVAL (\<lambda>a. fetch_action E self (ha_id a)) a w)"
  unfolding wait_for_action_def by (simp add: wait_settled_now split: option.split)

definition hz_action_path :: "('r, 'n) hz_env \<Rightarrow> string \<Rightarrow> string \<Rightarrow> string \<Rightarrow> string" where
  "hz_action_path E zone rname action = hz_rrset_path E zone rname @ ''/actions/'' @ action"

definition hz_post ::
  "('r, 'n) hz_env \<Rightarrow> HetznerProvider \<Rightarrow> string \<Rightarrow> string \<Rightarrow> string \<Rightarrow> string \<Rightarrow> nat option \<Rightarrow> HetznerRecordsWrite request" where
  "hz_post E self zone rname action v t =
     \<lparr>rq_method = POST, rq_url = api_base self @ hz_action_path E zone rname action, rq_query = [],
      rq_headers = [hz_auth_header self], rq_body = Some \<lparr>hw_ttl = t, hw_records = [quote_txt v]\<rparr>\<rparr>"

definition run_records_action ::
  "('r, 'n) hz_env \<Rightarrow> HetznerProvider \<Rightarrow> string \<Rightarrow> string \<Rightarrow> string \<Rightarrow> string \<Rightarrow> nat option \<Rightarrow> (('n, 'z) world_scheme, unit) io" where
  "run_records_action E self zone rname action v t =
     attempt (send E (hz_post E self zone rname action v t)) (\<lambda>response.
     let status = rs_status response in
     if \<not> is_success status
     then fail_with (hz_check_error E ''POST'' (hz_action_path E zone rname action) status response)
     else attempt (read_json (hz_action_json E) response) (\<lambda>a. wait_for_action E self a))"

section \<open>The provider\<close>

definition hz_present ::
  "('r, 'n) hz_env \<Rightarrow> HetznerProvider \<Rightarrow> string \<Rightarrow> string \<Rightarrow> (('n, 'z) world_scheme, unit) io" where
  "hz_present E self fqdn v =
     attempt (from_result (validate_fqdn fqdn)) (\<lambda>_.
     attempt (from_result (validate_acme_value v)) (\<lambda>_.
     attempt (hz_resolve_zone E self fqdn) (\<lambda>zone.
     attempt (from_result (relative_name (to_ascii_lowercase fqdn) zone)) (\<lambda>rname.
     with_lock HETZNER_PROVIDER (zone @ ''|'' @ rname) (
     attempt (hz_fetch_existing E self zone rname) (\<lambda>existing.
     case existing of
       Some vs \<Rightarrow>
         if list_ex (\<lambda>u. u = v) vs then done_ok () else run_records_action E self zone rname ''add_records'' v None
     | None \<Rightarrow> run_records_action E self zone rname ''add_records'' v (Some (ttl self))))))))"

definition hz_cleanup ::
  "('r, 'n) hz_env \<Rightarrow> HetznerProvider \<Rightarrow> string \<Rightarrow> string \<Rightarrow> (('n, 'z) world_scheme, unit) io" where
  "hz_cleanup E self fqdn v =
     attempt (from_result (validate_fqdn fqdn)) (\<lambda>_.
     attempt (hz_resolve_zone E self fqdn) (\<lambda>zone.
     attempt (from_result (relative_name (to_ascii_lowercase fqdn) zone)) (\<lambda>rname.
     with_lock HETZNER_PROVIDER (zone @ ''|'' @ rname) (
     attempt (hz_fetch_existing E self zone rname) (\<lambda>existing.
     let found = (case existing of Some vs \<Rightarrow> list_ex (\<lambda>u. u = v) vs | None \<Rightarrow> False) in
     if \<not> found then done_ok () else run_records_action E self zone rname ''remove_records'' v None)))))"

definition hz_provider :: "('r, 'n) hz_env \<Rightarrow> HetznerProvider \<Rightarrow> ('n, 'z) world_scheme DnsProvider" where
  "hz_provider E self =
     \<lparr>present = hz_present E self, cleanup = hz_cleanup E self, provider_timing = PropagationTiming_default\<rparr>"

section \<open>The documented behaviour\<close>

text \<open>
  The server holds the values of the record sets, at most one running action, and the outcome of the actions that
  have ended. Values are exchanged in presentation format, \<open>hs_values\<close> are the values without their quotes.
  At any time the running action may end: it is applied, or it fails and changes nothing.
\<close>

datatype hz_edit = AddValue "string \<times> string" string | RemoveValue "string \<times> string" string

record hz_state =
  hs_values :: "string \<times> string \<Rightarrow> string list"
  hs_running :: "(nat \<times> hz_edit) option"
  hs_outcome :: "nat \<Rightarrow> bool option"

fun apply_edit :: "hz_edit \<Rightarrow> (string \<times> string \<Rightarrow> string list) \<Rightarrow> string \<times> string \<Rightarrow> string list" where
  "apply_edit (AddValue k v) s = s(k := s k @ [v])"
| "apply_edit (RemoveValue k v) s = s(k := filter (\<lambda>x. x \<noteq> v) (s k))"

inductive hz_moves :: "hz_state \<Rightarrow> hz_state \<Rightarrow> bool" where
  hz_stay: "hz_moves s s"
| hz_applied: "hs_running s = Some (i, e) \<Longrightarrow>
    hz_moves s (s\<lparr>hs_values := apply_edit e (hs_values s), hs_running := None, hs_outcome := (hs_outcome s)(i \<mapsto> True)\<rparr>)"
| hz_failed: "hs_running s = Some (i, e) \<Longrightarrow> hz_moves s (s\<lparr>hs_running := None, hs_outcome := (hs_outcome s)(i \<mapsto> False)\<rparr>)"

text \<open>A request for an action: refused, or accepted under a new number when no other action runs.\<close>

inductive hz_starts :: "hz_edit \<Rightarrow> nat \<Rightarrow> hz_state \<Rightarrow> hz_state \<Rightarrow> bool" where
  hz_accepted: "hz_moves s s1 \<Longrightarrow> hs_running s1 = None \<Longrightarrow> hs_outcome s1 i = None \<Longrightarrow>
    hz_moves (s1\<lparr>hs_running := Some (i, e)\<rparr>) s' \<Longrightarrow> hz_starts e i s s'"

inductive_simps hz_moves_iff: "hz_moves s s'"

definition hz_idle :: "hz_state \<Rightarrow> bool" where
  "hz_idle s \<longleftrightarrow> hs_running s = None"

definition hz_edit_of :: "string \<Rightarrow> string \<times> string \<Rightarrow> string \<Rightarrow> hz_edit" where
  "hz_edit_of action k v = (if action = ''add_records'' then AddValue k v else RemoveValue k v)"

definition hz_values :: "hz_state \<Rightarrow> (string \<times> string) option \<Rightarrow> string set" where
  "hz_values s k = (case k of Some k \<Rightarrow> set (hs_values s k) | None \<Rightarrow> {})"

definition hz_api ::
  "('r, 'n) hz_env \<Rightarrow> HetznerProvider \<Rightarrow> (string \<Rightarrow> bool) \<Rightarrow> ('n \<Rightarrow> bool) \<Rightarrow> ('n \<Rightarrow> hz_state) \<Rightarrow> bool" where
  "hz_api E self has up st \<longleftrightarrow> (\<forall>z. zone_override self = Some z \<longrightarrow> has z) \<and>
     (\<forall>d n. up n \<longrightarrow> up (http_sleep E d n) \<and> hz_moves (st n) (st (http_sleep E d n))) \<and>
     (\<forall>c n x n'. up n \<longrightarrow> http_send E (hz_get self (api_base self @ ''/zones'') [(''name'', c)]) n = (x, n') \<longrightarrow>
        up n' \<and> hz_moves (st n) (st n') \<and> (\<forall>resp zs. x = Inr resp \<longrightarrow> is_success (rs_status resp) \<longrightarrow>
          hz_zones_json E (rs_body resp) = Inr zs \<longrightarrow> (c \<in> set zs) = has c)) \<and>
     (\<forall>z r n x n'. has z \<longrightarrow> up n \<longrightarrow> http_send E (hz_get self (hz_rrset_url E self z r) []) n = (x, n') \<longrightarrow>
        up n' \<and> hz_moves (st n) (st n') \<and> (\<forall>resp. x = Inr resp \<longrightarrow> (rs_status resp = 404 \<longrightarrow> hs_values (st n') (z, r) = []) \<and>
          (is_success (rs_status resp) \<longrightarrow> (\<forall>rs. hz_rrset_json E (rs_body resp) = Inr rs \<longrightarrow> hs_values (st n') (z, r) = map unquote rs)))) \<and>
     (\<forall>i n x n'. up n \<longrightarrow> http_send E (hz_get self (api_base self @ ''/zones/actions/'' @ show_nat i) []) n = (x, n') \<longrightarrow>
        up n' \<and> hz_moves (st n) (st n') \<and> (\<forall>resp a. x = Inr resp \<longrightarrow> is_success (rs_status resp) \<longrightarrow>
          hz_action_json E (rs_body resp) = Inr a \<longrightarrow> ha_id a = i \<and> (ha_status a = ''success'' \<longrightarrow> hs_outcome (st n') i = Some True))) \<and>
     (\<forall>z r action v t n x n'. has z \<longrightarrow> action \<in> {''add_records'', ''remove_records''} \<longrightarrow> up n \<longrightarrow>
        http_send E (hz_post E self z r action v t) n = (x, n') \<longrightarrow>
        up n' \<and> (hz_moves (st n) (st n') \<or> (\<exists>i. hz_starts (hz_edit_of action (z, r) v) i (st n) (st n'))) \<and>
        (\<forall>resp a. x = Inr resp \<longrightarrow> is_success (rs_status resp) \<longrightarrow> hz_action_json E (rs_body resp) = Inr a \<longrightarrow>
          hz_starts (hz_edit_of action (z, r) v) (ha_id a) (st n) (st n') \<and>
          (ha_status a = ''success'' \<longrightarrow> hs_outcome (st n') (ha_id a) = Some True)))"

text \<open>The zone of a name: the shortest suffix with two labels or more that is a zone of the project.\<close>

definition hz_zone_for :: "HetznerProvider \<Rightarrow> (string \<Rightarrow> bool) \<Rightarrow> string \<Rightarrow> string option" where
  "hz_zone_for self has f =
     (case zone_override self of
        Some z \<Rightarrow> Some z
      | None \<Rightarrow>
          (let labels = split_char DOT (to_ascii_lowercase (trim_end_matches DOT f)) in
           find has (map (\<lambda>start. join [DOT] (drop start labels)) (rev [0..<length labels - 1]))))"

definition hz_owner :: "HetznerProvider \<Rightarrow> (string \<Rightarrow> bool) \<Rightarrow> string \<Rightarrow> (string \<times> string) option" where
  "hz_owner self has f = owner Pair (hz_zone_for self has f) (to_ascii_lowercase f)"

lemma hz_zone_for_has: "hz_api E self has up st \<Longrightarrow> hz_zone_for self has f = Some z \<Longrightarrow> has z"
  unfolding hz_api_def hz_zone_for_def Let_def
  by (drule conjunct1) (auto simp: find_Some_iff split: option.splits)

section \<open>Reading while nothing runs\<close>

definition hz_quiet :: "('n \<Rightarrow> bool) \<Rightarrow> ('n \<Rightarrow> hz_state) \<Rightarrow> 'n \<Rightarrow> bool" where
  "hz_quiet up st n \<longleftrightarrow> up n \<and> hz_idle (st n)"

lemma hz_moves_idle: "hz_idle s \<Longrightarrow> hz_moves s s' \<longleftrightarrow> s' = s"
  by (auto simp: hz_idle_def hz_moves_iff)

lemma hz_api_idle:
  assumes "hz_api E self has up st"
  shows "idles E (hz_quiet up st) st"
    "reads E (hz_quiet up st) st (hz_get self (api_base self @ ''/zones'') [(''name'', c)]) (\<lambda>_ resp.
       is_success (rs_status resp) \<longrightarrow> (\<forall>zs. hz_zones_json E (rs_body resp) = Inr zs \<longrightarrow> (c \<in> set zs) = has c))"
    "has z \<Longrightarrow> reads E (hz_quiet up st) st (hz_get self (hz_rrset_url E self z r) []) (\<lambda>s resp.
       (rs_status resp = 404 \<longrightarrow> hs_values s (z, r) = []) \<and>
       (is_success (rs_status resp) \<longrightarrow> (\<forall>rs. hz_rrset_json E (rs_body resp) = Inr rs \<longrightarrow> hs_values s (z, r) = map unquote rs)))"
proof -
  note api = assms [unfolded hz_api_def, THEN conjunct2]
  show "idles E (hz_quiet up st) st"
    using api [THEN conjunct1] unfolding idles_def hz_quiet_def by (metis hz_moves_idle)
  show "reads E (hz_quiet up st) st (hz_get self (api_base self @ ''/zones'') [(''name'', c)]) (\<lambda>_ resp.
       is_success (rs_status resp) \<longrightarrow> (\<forall>zs. hz_zones_json E (rs_body resp) = Inr zs \<longrightarrow> (c \<in> set zs) = has c))"
    unfolding reads_def hz_quiet_def
  proof (intro allI impI)
    fix n x n'
    assume n: "up n \<and> hz_idle (st n)" and s: "http_send E (hz_get self (api_base self @ ''/zones'') [(''name'', c)]) n = (x, n')"
    from api [THEN conjunct2, THEN conjunct1, rule_format, OF n [THEN conjunct1] s] n hz_moves_idle [of "st n" "st n'"]
    show "(up n' \<and> hz_idle (st n')) \<and> st n' = st n \<and> (\<forall>resp. x = Inr resp \<longrightarrow>
        is_success (rs_status resp) \<longrightarrow> (\<forall>zs. hz_zones_json E (rs_body resp) = Inr zs \<longrightarrow> (c \<in> set zs) = has c))"
      by simp
  qed
  show "reads E (hz_quiet up st) st (hz_get self (hz_rrset_url E self z r) []) (\<lambda>s resp.
       (rs_status resp = 404 \<longrightarrow> hs_values s (z, r) = []) \<and>
       (is_success (rs_status resp) \<longrightarrow> (\<forall>rs. hz_rrset_json E (rs_body resp) = Inr rs \<longrightarrow> hs_values s (z, r) = map unquote rs)))"
    if "has z"
    unfolding reads_def hz_quiet_def
  proof (intro allI impI)
    fix n x n'
    assume n: "up n \<and> hz_idle (st n)" and s: "http_send E (hz_get self (hz_rrset_url E self z r) []) n = (x, n')"
    from api [THEN conjunct2, THEN conjunct2, THEN conjunct1, rule_format, OF that n [THEN conjunct1] s] n hz_moves_idle [of "st n" "st n'"]
    show "(up n' \<and> hz_idle (st n')) \<and> st n' = st n \<and> (\<forall>resp. x = Inr resp \<longrightarrow>
       (rs_status resp = 404 \<longrightarrow> hs_values (st n) (z, r) = []) \<and>
       (is_success (rs_status resp) \<longrightarrow> (\<forall>rs. hz_rrset_json E (rs_body resp) = Inr rs \<longrightarrow> hs_values (st n) (z, r) = map unquote rs)))"
      by auto
  qed
qed

lemma hz_candidates_observes:
  fixes E :: "('r, 'n) hz_env"
  assumes "hz_api E self has up st"
  shows "observes (online (hz_quiet up st) (\<lambda>_. True)) (\<lambda>w :: ('n, 'z) world_scheme. st (net w)) S (hz_candidates E self f cs)
    (\<lambda>_ z. find has cs = Some z)"
proof (induction cs arbitrary: S)
  case (Cons c cs)
  have "observes (online (hz_quiet up st) (\<lambda>_. True)) (\<lambda>w :: ('n, 'z) world_scheme. st (net w)) S (zone_exists E self c) (\<lambda>_ b. b = has c)"
    unfolding zone_exists_def Let_def
    by (rule observes_attempt [OF observes_send [OF hz_api_idle(1,2) [OF assms]]]) (auto simp: list_ex_iff intro!: editing)
  then show ?case
    unfolding hz_candidates.simps
    by (rule observes_attempt) (auto intro!: editing observes_weaken [OF Cons])
qed (simp add: observes_pure)

lemma hz_resolve:
  fixes E :: "('r, 'n) hz_env"
  assumes "hz_api E self has up st"
  shows "observes (online (hz_quiet up st) (\<lambda>_. True)) (\<lambda>w :: ('n, 'z) world_scheme. st (net w)) S (hz_resolve_zone E self f)
    (\<lambda>_ z. hz_zone_for self has f = Some z)"
proof (cases "zone_override self")
  case None
  show ?thesis
    unfolding hz_resolve_zone_def hz_zone_for_def None option.case Let_def by (rule hz_candidates_observes [OF assms])
qed (simp add: hz_resolve_zone_def hz_zone_for_def observes_pure)

lemma hz_fetch:
  assumes "hz_api E self has up st" "has z"
  shows "observes (online (hz_quiet up st) (\<lambda>_. True)) (\<lambda>w. st (net w)) S (hz_fetch_existing E self z r)
    (\<lambda>s x. hs_values s (z, r) = (case x of None \<Rightarrow> [] | Some vs \<Rightarrow> vs))"
  unfolding hz_fetch_existing_def Let_def
  by (rule observes_attempt [OF observes_send [OF hz_api_idle(1) [OF assms(1)] hz_api_idle(3) [OF assms]]]) (auto intro!: editing)

section \<open>An action and its end\<close>

text \<open>A state in which nothing but the value \<open>v\<close> at \<open>k\<close> differs, and in which no other change is under way.\<close>

definition hz_change :: "string \<times> string \<Rightarrow> string \<Rightarrow> bool \<Rightarrow> hz_edit" where
  "hz_change k v b = (if b then AddValue k v else RemoveValue k v)"

definition hz_editing :: "string \<times> string \<Rightarrow> string \<Rightarrow> bool \<Rightarrow> hz_state \<Rightarrow> hz_state \<Rightarrow> bool" where
  "hz_editing k v b s0 s \<longleftrightarrow> same_except {(Some k, v)} (hz_values s0) (hz_values s) \<and>
     (\<forall>i e. hs_running s = Some (i, e) \<longrightarrow> e = hz_change k v b)"

text \<open>The action \<open>i\<close> is the last one that was accepted; once its outcome is a success it is applied.\<close>

definition hz_follows :: "string \<times> string \<Rightarrow> string \<Rightarrow> bool \<Rightarrow> hz_state \<Rightarrow> nat \<Rightarrow> hz_state \<Rightarrow> bool" where
  "hz_follows k v b s0 i s \<longleftrightarrow> hz_editing k v b s0 s \<and>
     (hs_running s = None \<or> hs_running s = Some (i, hz_change k v b)) \<and>
     (hs_outcome s i = Some True \<longrightarrow> hs_running s = None \<and> (v \<in> hz_values s (Some k)) = b)"

lemma hz_values_apply:
  "hz_values (s\<lparr>hs_values := apply_edit (hz_change k v b) (hs_values s)\<rparr>) k' =
     (if k' = Some k then if b then insert v (hz_values s k') else hz_values s k' - {v} else hz_values s k')"
  by (auto simp: hz_values_def hz_change_def split: option.split)

lemma hz_values_other [simp]:
  "hz_values (s\<lparr>hs_running := x\<rparr>) = hz_values s" "hz_values (s\<lparr>hs_running := x, hs_outcome := y\<rparr>) = hz_values s"
  by (simp_all add: fun_eq_iff hz_values_def split: option.split)

lemma hz_editing_moves:
  assumes "hz_editing k v b s0 s" "hz_moves s s'"
  shows "hz_editing k v b s0 s'"
  using assms(2)
proof cases
  case (hz_applied i e)
  with assms(1) have e: "e = hz_change k v b" by (simp add: hz_editing_def)
  with assms(1) show ?thesis unfolding hz_applied(1) by (auto simp: hz_editing_def same_except_def hz_values_apply)
qed (use assms(1) in \<open>auto simp: hz_editing_def\<close>)

lemma hz_follows_moves:
  assumes "hz_follows k v b s0 i s" "hz_moves s s'"
  shows "hz_follows k v b s0 i s'"
proof -
  note edits = hz_editing_moves [of k v b s0, OF _ assms(2)]
  from assms(2) show ?thesis
  proof cases
    case (hz_applied j e)
    with assms(1) have e: "e = hz_change k v b" "j = i" by (auto simp: hz_follows_def)
    from assms(1) edits have "hz_editing k v b s0 s'" by (simp add: hz_follows_def)
    moreover have "(v \<in> hz_values s' (Some k)) = b" unfolding hz_applied(1) e(1) hz_values_other hz_values_apply by simp
    ultimately show ?thesis by (simp add: hz_follows_def hz_applied(1) e)
  next
    case (hz_failed j e)
    with assms edits show ?thesis by (auto simp: hz_follows_def)
  qed (use assms(1) in simp)
qed

lemma hz_starts_follows:
  assumes "hz_editing k v b s0 s" "hz_starts (hz_change k v b) i s s'"
  shows "hz_follows k v b s0 i s'"
  using assms(2)
proof cases
  case (hz_accepted s1)
  from hz_editing_moves [OF assms(1) hz_accepted(1)]
  have "hz_editing k v b s0 (s1\<lparr>hs_running := Some (i, hz_change k v b)\<rparr>)" by (simp add: hz_editing_def)
  then have "hz_follows k v b s0 i (s1\<lparr>hs_running := Some (i, hz_change k v b)\<rparr>)"
    using hz_accepted(3) by (simp add: hz_follows_def)
  then show ?thesis by (rule hz_follows_moves [OF _ hz_accepted(4)])
qed

lemma hz_follows_editing: "hz_follows k v b s0 i s \<Longrightarrow> hz_editing k v b s0 s"
  by (simp add: hz_follows_def)

text \<open>What a call that changes \<open>v\<close> at \<open>k\<close> leaves behind: nothing else differs, and when it ends well the value is there, or
  gone, and nothing runs.\<close>

definition hz_done ::
  "('n \<Rightarrow> bool) \<Rightarrow> ('n \<Rightarrow> hz_state) \<Rightarrow> (string \<times> string) option \<Rightarrow> string \<Rightarrow> bool \<Rightarrow> hz_state \<Rightarrow> unit result \<Rightarrow>
   ('n, 'z) world_scheme \<Rightarrow> bool" where
  "hz_done up st k v b s0 r w \<longleftrightarrow> up (net w) \<and> same_except {(k, v)} (hz_values s0) (hz_values (st (net w))) \<and>
     (r = Inr () \<longrightarrow> hz_idle (st (net w)) \<and> (v \<in> hz_values (st (net w)) k) = b)"

lemma hz_done_fail: "up (net w) \<Longrightarrow> hz_editing k v b s0 (st (net w)) \<Longrightarrow> hz_done up st (Some k) v b s0 (Inl e) w"
  by (simp add: hz_done_def hz_editing_def)

lemma hz_fetch_action:
  fixes E :: "('r, 'n) hz_env" and w :: "('n, 'z) world_scheme"
  assumes "hz_api E self has up st" "up (net w)" "hz_follows k v b s0 i (st (net w))"
  shows "after (attempt (sleep_for E pause) (\<lambda>_. fetch_action E self i)) w (\<lambda>r w'. up (net w') \<and> hz_follows k v b s0 i (st (net w')) \<and>
    (\<forall>a. r = Inr a \<longrightarrow> ha_id a = i \<and> (ha_status a = ''success'' \<longrightarrow> hs_outcome (st (net w')) i = Some True)))"
proof -
  let ?I = "\<lambda>w. up (net w) \<and> hz_follows k v b s0 i (st (net w))"
  let ?A = "\<lambda>a w. ha_id a = i \<and> (ha_status a = ''success'' \<longrightarrow> hs_outcome (st (net w)) i = Some True)"
  let ?R = "\<lambda>resp w. is_success (rs_status resp) \<longrightarrow> (\<forall>a. hz_action_json E (rs_body resp) = Inr a \<longrightarrow> ?A a w)"
  let ?rq = "hz_get self (api_base self @ ''/zones/actions/'' @ show_nat i) []"
  note api = assms(1) [unfolded hz_api_def, THEN conjunct2]
  have sleep: "?I (w\<lparr>net := http_sleep E d (net w)\<rparr>)" if "?I w" for d and w :: "('n, 'z) world_scheme"
    using that api [THEN conjunct1] hz_follows_moves [of k v b s0 i "st (net w)" "st (http_sleep E d (net w))"] by simp
  have ask: "after (send E ?rq) w1 (\<lambda>r w'. ?I w' \<and> (\<forall>resp. r = Inr resp \<longrightarrow> ?R resp w'))" if "?I w1" for w1 :: "('n, 'z) world_scheme"
  proof (rule after_send [where I = ?I and Q = ?R, OF that])
    fix w :: "('n, 'z) world_scheme" and x n'
    assume w: "?I w" and s: "http_send E ?rq (net w) = (x, n')"
    from api [THEN conjunct2, THEN conjunct2, THEN conjunct2, THEN conjunct1, rule_format, OF conjunct1 [OF w] s]
      hz_follows_moves [OF conjunct2 [OF w], of "st n'"]
    show "?I (w\<lparr>net := n'\<rparr>) \<and> (\<forall>resp. x = Inr resp \<longrightarrow> ?R resp (w\<lparr>net := n'\<rparr>))" by simp
  qed (rule sleep)
  show ?thesis
    unfolding fetch_action_def Let_def sleep_for_def modify_state_def
    using ask [OF sleep, of w pause] assms(2,3)
    by (auto simp: after_def attempt_def read_json_def fail_with_def from_result_def map_err_def split: sum.splits prod.splits)
qed

lemma hz_wait:
  fixes E :: "('r, 'n) hz_env" and w :: "('n, 'z) world_scheme"
  assumes "hz_api E self has up st" "up (net w)" "hz_follows k v b s0 (ha_id a) (st (net w))"
    "ha_status a = ''success'' \<longrightarrow> hs_outcome (st (net w)) (ha_id a) = Some True"
  shows "after (wait_for_action E self a) w (hz_done up st (Some k) v b s0)"
proof -
  let ?I = "\<lambda>a w. up (net w) \<and> hz_follows k v b s0 (ha_id a) (st (net w)) \<and>
    (ha_status a = ''success'' \<longrightarrow> hs_outcome (st (net w)) (ha_id a) = Some True)"
  have "after (settle (ACTION_TIMEOUT div ACTION_POLL_INTERVAL) E action_judge action_still ACTION_POLL_INTERVAL
      (\<lambda>a. fetch_action E self (ha_id a)) (instant_now E w + ACTION_TIMEOUT) a) w (hz_done up st (Some k) v b s0)"
  proof (rule after_settle [where I = ?I])
    fix c :: HetznerAction and w :: "('n, 'z) world_scheme" and r
    assume w: "?I c w"
    note quits = hz_done_fail [of up w k v b s0 st, OF conjunct1 [OF w] hz_follows_editing [OF conjunct1 [OF conjunct2 [OF w]]]]
    show "hz_done up st (Some k) v b s0 (Inl (action_still c)) w" by (rule quits)
    show "hz_done up st (Some k) v b s0 r w" if "action_judge c = Some r"
    proof (cases "ha_status c = ''success''")
      case True
      with w show ?thesis by (simp add: hz_done_def hz_follows_def hz_editing_def hz_idle_def)
    next
      case False
      with that obtain e where "r = Inl e" by (auto simp: action_judge_def Let_def split: if_splits)
      with quits show ?thesis by simp
    qed
    show "after (attempt (sleep_for E ACTION_POLL_INTERVAL) (\<lambda>_. fetch_action E self (ha_id c))) w
        (\<lambda>r w'. case r of Inl e \<Rightarrow> hz_done up st (Some k) v b s0 (Inl e) w' | Inr c' \<Rightarrow> ?I c' w')"
    proof (rule after_mono [OF hz_fetch_action [OF assms(1) conjunct1 [OF w] conjunct1 [OF conjunct2 [OF w]]]])
      fix x :: "HetznerAction result" and w' :: "('n, 'z) world_scheme"
      assume *: "up (net w') \<and> hz_follows k v b s0 (ha_id c) (st (net w')) \<and>
        (\<forall>a. x = Inr a \<longrightarrow> ha_id a = ha_id c \<and> (ha_status a = ''success'' \<longrightarrow> hs_outcome (st (net w')) (ha_id c) = Some True))"
      note quits = hz_done_fail [of up w' k v b s0 st, OF conjunct1 [OF *] hz_follows_editing [OF conjunct1 [OF conjunct2 [OF *]]]]
      show "case x of Inl e \<Rightarrow> hz_done up st (Some k) v b s0 (Inl e) w' | Inr c' \<Rightarrow> ?I c' w'"
        by (cases x) (use * quits in simp_all)
    qed
  qed (use assms(2-4) in simp)
  then show ?thesis by (simp add: wait_for_action_def wait_settled_def after_def)
qed

lemma hz_action:
  fixes E :: "('r, 'n) hz_env" and w :: "('n, 'z) world_scheme"
  assumes "hz_api E self has up st" "has z" "hz_quiet up st (net w)" "hz_edit_of action (z, r) v = hz_change (z, r) v b"
    "action \<in> {''add_records'', ''remove_records''}"
  shows "after (run_records_action E self z r action v t) w (hz_done up st (Some (z, r)) v b (st (net w)))"
proof -
  let ?s0 = "st (net w)" and ?rq = "hz_post E self z r action v t"
  let ?I = "\<lambda>w. up (net w) \<and> hz_editing (z, r) v b ?s0 (st (net w))"
  let ?R = "\<lambda>resp w. is_success (rs_status resp) \<longrightarrow> (\<forall>a. hz_action_json E (rs_body resp) = Inr a \<longrightarrow>
    hz_follows (z, r) v b ?s0 (ha_id a) (st (net w)) \<and> (ha_status a = ''success'' \<longrightarrow> hs_outcome (st (net w)) (ha_id a) = Some True))"
  note api = assms(1) [unfolded hz_api_def, THEN conjunct2]
  have "?I w" using assms(3) by (simp add: hz_quiet_def hz_idle_def hz_editing_def)
  then have "after (send E ?rq) w (\<lambda>r w'. ?I w' \<and> (\<forall>resp. r = Inr resp \<longrightarrow> ?R resp w'))"
  proof (rule after_send [where I = ?I and Q = ?R])
    fix w :: "('n, 'z) world_scheme" and x n' d
    assume w: "?I w"
    show "?I (w\<lparr>net := http_sleep E d (net w)\<rparr>)"
      using w api [THEN conjunct1] hz_editing_moves [OF conjunct2 [OF w], of "st (http_sleep E d (net w))"] by simp
    assume s: "http_send E ?rq (net w) = (x, n')"
    from api [THEN conjunct2, THEN conjunct2, THEN conjunct2, THEN conjunct2, rule_format, OF assms(2,5) conjunct1 [OF w] s]
      hz_editing_moves [OF conjunct2 [OF w], of "st n'"] hz_starts_follows [OF conjunct2 [OF w], of _ "st n'"]
      hz_follows_editing [of "(z, r)" v b ?s0 _ "st n'"]
    show "?I (w\<lparr>net := n'\<rparr>) \<and> (\<forall>resp. x = Inr resp \<longrightarrow> ?R resp (w\<lparr>net := n'\<rparr>))"
      unfolding assms(4) by auto
  qed
  then show ?thesis
    unfolding run_records_action_def Let_def after_simps
  proof (rule after_mono)
    fix x :: "'r response result" and w' :: "('n, 'z) world_scheme"
    assume *: "?I w' \<and> (\<forall>resp. x = Inr resp \<longrightarrow> ?R resp w')"
    note quits = hz_done_fail [of up w' "(z, r)" v b ?s0 st, OF conjunct1 [OF conjunct1 [OF *]] conjunct2 [OF conjunct1 [OF *]]]
    show "case x of Inl e \<Rightarrow> hz_done up st (Some (z, r)) v b ?s0 (Inl e) w'
      | Inr resp \<Rightarrow> if \<not> is_success (rs_status resp)
          then hz_done up st (Some (z, r)) v b ?s0 (Inl (hz_check_error E ''POST'' (hz_action_path E z r action) (rs_status resp) resp)) w'
          else (case map_err Http (hz_action_json E (rs_body resp)) of
              Inl e \<Rightarrow> hz_done up st (Some (z, r)) v b ?s0 (Inl e) w'
            | Inr a \<Rightarrow> after (wait_for_action E self a) w' (hz_done up st (Some (z, r)) v b ?s0))"
    proof (cases x)
      case (Inr resp)
      show ?thesis
      proof (cases "is_success (rs_status resp) \<and> (\<exists>a. hz_action_json E (rs_body resp) = Inr a)")
        case True
        then obtain a where a: "is_success (rs_status resp)" "hz_action_json E (rs_body resp) = Inr a" by blast
        with * Inr have "after (wait_for_action E self a) w' (hz_done up st (Some (z, r)) v b ?s0)"
          by (intro hz_wait [OF assms(1)]) simp_all
        with a Inr show ?thesis by (simp add: map_err_def)
      qed (use Inr quits in \<open>auto simp: map_err_def split: sum.splits\<close>)
    qed (use quits in simp)
  qed
qed

section \<open>The operations\<close>

lemma after_observes:
  assumes "observes good st S m post" "good w" "S (st w)" "\<And>e w'. good w' \<Longrightarrow> st w' = st w \<Longrightarrow> Q (Inl e) w'"
    and "\<And>x w'. good w' \<Longrightarrow> st w' = st w \<Longrightarrow> post (st w) x \<Longrightarrow> after (f x) w' Q"
  shows "after (attempt m f) w Q"
proof -
  have "after m w (\<lambda>r w'. good w' \<and> st w' = st w \<and> (\<forall>x. r = Inr x \<longrightarrow> post (st w) x))"
    using assms(1-3) unfolding observes_def by blast
  then show ?thesis
    unfolding after_attempt by (rule after_mono) (use assms(4,5) in \<open>auto split: sum.splits\<close>)
qed

lemma hz_in_zone:
  fixes E :: "('r, 'n) hz_env" and w :: "('n, 'z) world_scheme"
  assumes "hz_api E self has up st" "hz_quiet up st (net w)"
    and "\<And>z r w'. hz_owner self has f = Some (z, r) \<Longrightarrow> has z \<Longrightarrow> hz_quiet up st (net w') \<Longrightarrow> st (net w') = st (net w) \<Longrightarrow>
      after (body z r) w' (hz_done up st (hz_owner self has f) v b (st (net w)))"
  shows "after (attempt (hz_resolve_zone E self f) (\<lambda>z. attempt (from_result (relative_name (to_ascii_lowercase f) z)) (body z))) w
    (hz_done up st (hz_owner self has f) v b (st (net w)))"
proof (rule after_observes [OF hz_resolve [OF assms(1)], where S = "\<lambda>_. True"])
  fix z and w' :: "('n, 'z) world_scheme"
  assume w': "online (hz_quiet up st) (\<lambda>_. True) w'" "st (net w') = st (net w)" and z: "hz_zone_for self has f = Some z"
  show "after (attempt (from_result (relative_name (to_ascii_lowercase f) z)) (body z)) w' (hz_done up st (hz_owner self has f) v b (st (net w)))"
  proof (cases "relative_name (to_ascii_lowercase f) z")
    case (Inl e)
    with w' show ?thesis by (simp add: after_simps hz_done_def online_def hz_quiet_def)
  next
    case (Inr r)
    with z have "hz_owner self has f = Some (z, r)" by (simp add: hz_owner_def owner_def)
    from assms(3) [OF this hz_zone_for_has [OF assms(1) z]] w' Inr show ?thesis by (simp add: after_simps online_def)
  qed
qed (use assms(2) in \<open>simp_all add: online_def hz_done_def hz_quiet_def\<close>)

lemma hz_done_unchanged:
  "hz_quiet up st (net w) \<Longrightarrow> st (net w) = s0 \<Longrightarrow> (r = Inr () \<Longrightarrow> (v \<in> hz_values s0 k) = b) \<Longrightarrow> hz_done up st k v b s0 r w"
  by (simp add: hz_done_def hz_quiet_def)

lemma hz_present_done:
  fixes E :: "('r, 'n) hz_env" and w :: "('n, 'z) world_scheme"
  assumes "hz_api E self has up st" "hz_quiet up st (net w)"
  shows "after (hz_present E self f v) w (hz_done up st (hz_owner self has f) v True (st (net w)))"
proof (cases "validate_fqdn f = Inr () \<and> validate_acme_value v = Inr ()")
  case True
  have "after (attempt (hz_resolve_zone E self f) (\<lambda>z. attempt (from_result (relative_name (to_ascii_lowercase f) z)) (\<lambda>r.
      with_lock HETZNER_PROVIDER (z @ ''|'' @ r) (attempt (hz_fetch_existing E self z r) (\<lambda>existing.
      case existing of
        Some vs \<Rightarrow> if list_ex (\<lambda>u. u = v) vs then done_ok () else run_records_action E self z r ''add_records'' v None
      | None \<Rightarrow> run_records_action E self z r ''add_records'' v (Some (ttl self))))))) w
      (hz_done up st (hz_owner self has f) v True (st (net w)))"
  proof (rule hz_in_zone [OF assms], unfold after_with_lock)
    fix z r and w' :: "('n, 'z) world_scheme"
    assume o: "hz_owner self has f = Some (z, r)" "has z" and w': "hz_quiet up st (net w')" "st (net w') = st (net w)"
    show "after (attempt (hz_fetch_existing E self z r) (\<lambda>existing.
      case existing of
        Some vs \<Rightarrow> if list_ex (\<lambda>u. u = v) vs then done_ok () else run_records_action E self z r ''add_records'' v None
      | None \<Rightarrow> run_records_action E self z r ''add_records'' v (Some (ttl self)))) w'
      (hz_done up st (hz_owner self has f) v True (st (net w)))"
    proof (rule after_observes [OF hz_fetch [OF assms(1) o(2)], where S = "\<lambda>_. True"])
      fix x and w2 :: "('n, 'z) world_scheme"
      assume w2: "online (hz_quiet up st) (\<lambda>_. True) w2" "st (net w2) = st (net w')"
        and x: "hs_values (st (net w')) (z, r) = (case x of None \<Rightarrow> [] | Some vs \<Rightarrow> vs)"
      have "after (run_records_action E self z r ''add_records'' v t) w2 (hz_done up st (Some (z, r)) v True (st (net w2)))" for t
        by (rule hz_action [OF assms(1) o(2)]) (use w2 in \<open>simp_all add: online_def hz_edit_of_def hz_change_def\<close>)
      with w' w2 x show "after (case x of
          Some vs \<Rightarrow> if list_ex (\<lambda>u. u = v) vs then done_ok () else run_records_action E self z r ''add_records'' v None
        | None \<Rightarrow> run_records_action E self z r ''add_records'' v (Some (ttl self))) w2
        (hz_done up st (hz_owner self has f) v True (st (net w)))"
        by (cases x) (auto simp: o(1) after_simps online_def list_ex_iff hz_values_def intro!: hz_done_unchanged)
    qed (use w' in \<open>auto simp: online_def intro!: hz_done_unchanged\<close>)
  qed
  with True show ?thesis by (simp add: hz_present_def after_simps Let_def)
qed (use assms(2) in \<open>auto simp: hz_present_def after_simps intro!: hz_done_unchanged split: sum.splits\<close>)

lemma hz_cleanup_done:
  fixes E :: "('r, 'n) hz_env" and w :: "('n, 'z) world_scheme"
  assumes "hz_api E self has up st" "hz_quiet up st (net w)"
  shows "after (hz_cleanup E self f v) w (hz_done up st (hz_owner self has f) v False (st (net w)))"
proof (cases "validate_fqdn f = Inr ()")
  case True
  have "after (attempt (hz_resolve_zone E self f) (\<lambda>z. attempt (from_result (relative_name (to_ascii_lowercase f) z)) (\<lambda>r.
      with_lock HETZNER_PROVIDER (z @ ''|'' @ r) (attempt (hz_fetch_existing E self z r) (\<lambda>existing.
      if \<not> (case existing of Some vs \<Rightarrow> list_ex (\<lambda>u. u = v) vs | None \<Rightarrow> False) then done_ok ()
      else run_records_action E self z r ''remove_records'' v None))))) w
      (hz_done up st (hz_owner self has f) v False (st (net w)))"
  proof (rule hz_in_zone [OF assms], unfold after_with_lock)
    fix z r and w' :: "('n, 'z) world_scheme"
    assume o: "hz_owner self has f = Some (z, r)" "has z" and w': "hz_quiet up st (net w')" "st (net w') = st (net w)"
    show "after (attempt (hz_fetch_existing E self z r) (\<lambda>existing.
      if \<not> (case existing of Some vs \<Rightarrow> list_ex (\<lambda>u. u = v) vs | None \<Rightarrow> False) then done_ok ()
      else run_records_action E self z r ''remove_records'' v None)) w'
      (hz_done up st (hz_owner self has f) v False (st (net w)))"
    proof (rule after_observes [OF hz_fetch [OF assms(1) o(2)], where S = "\<lambda>_. True"])
      fix x and w2 :: "('n, 'z) world_scheme"
      assume w2: "online (hz_quiet up st) (\<lambda>_. True) w2" "st (net w2) = st (net w')"
        and x: "hs_values (st (net w')) (z, r) = (case x of None \<Rightarrow> [] | Some vs \<Rightarrow> vs)"
      have "after (run_records_action E self z r ''remove_records'' v None) w2 (hz_done up st (Some (z, r)) v False (st (net w2)))"
        by (rule hz_action [OF assms(1) o(2)]) (use w2 in \<open>simp_all add: online_def hz_edit_of_def hz_change_def\<close>)
      with w' w2 x show "after (if \<not> (case x of Some vs \<Rightarrow> list_ex (\<lambda>u. u = v) vs | None \<Rightarrow> False) then done_ok ()
          else run_records_action E self z r ''remove_records'' v None) w2 (hz_done up st (hz_owner self has f) v False (st (net w)))"
        by (cases x) (auto simp: o(1) after_simps online_def list_ex_iff hz_values_def intro!: hz_done_unchanged)
    qed (use w' in \<open>auto simp: online_def intro!: hz_done_unchanged\<close>)
  qed
  with True show ?thesis by (simp add: hz_cleanup_def after_simps Let_def)
qed (use assms(2) in \<open>auto simp: hz_cleanup_def after_simps intro!: hz_done_unchanged split: sum.splits\<close>)

text \<open>C23: started while no action runs, the Hetzner provider changes no other value than the one it was asked for,
  whatever the server does with its actions and whenever it does it; and when \<open>present\<close> or \<open>cleanup\<close> succeeds, the
  value is there or gone and no action runs any more.\<close>

theorem hz_contract:
  assumes "hz_api E self has up st" "up (net w)" "hz_idle (st (net w))"
  shows "after (hz_present E self f v) w (\<lambda>r w'. up (net w') \<and>
      same_except {(hz_owner self has f, v)} (hz_values (st (net w))) (hz_values (st (net w'))) \<and>
      (r = Inr () \<longrightarrow> hz_idle (st (net w')) \<and> v \<in> hz_values (st (net w')) (hz_owner self has f))) \<and>
    after (hz_cleanup E self f v) w (\<lambda>r w'. up (net w') \<and>
      same_except {(hz_owner self has f, v)} (hz_values (st (net w))) (hz_values (st (net w'))) \<and>
      (r = Inr () \<longrightarrow> hz_idle (st (net w')) \<and> v \<notin> hz_values (st (net w')) (hz_owner self has f)))"
proof -
  have "hz_quiet up st (net w)" using assms(2,3) by (simp add: hz_quiet_def)
  from hz_present_done [OF assms(1) this, of f v] hz_cleanup_done [OF assms(1) this, of f v] show ?thesis
    by (simp add: after_def hz_done_def)
qed

section \<open>A server\<close>

text \<open>
  A project with the zone \<open>a.org\<close>. A prompt server applies an action before it answers, a slow one leaves it running
  and does not know about actions when it is asked.
\<close>

record hz_db =
  db_values :: "(string \<times> string) list"
  db_running :: "hz_edit option"
  db_next :: nat
  db_slow :: bool

record hz_answer =
  za_zones :: "string list"
  za_records :: "string list"
  za_action :: HetznerAction

definition hz_db_state :: "hz_db \<Rightarrow> hz_state" where
  "hz_db_state n = \<lparr>hs_values = (\<lambda>(z, r). if z = ''a.org'' then map snd (filter (\<lambda>p. fst p = r) (db_values n)) else []),
     hs_running = map_option (Pair (db_next n)) (db_running n), hs_outcome = (\<lambda>i. if i < db_next n then Some True else None)\<rparr>"

fun db_apply :: "hz_edit \<Rightarrow> (string \<times> string) list \<Rightarrow> (string \<times> string) list" where
  "db_apply (AddValue k v) d = d @ [(snd k, v)]"
| "db_apply (RemoveValue k v) d = filter (\<lambda>p. p \<noteq> (snd k, v)) d"

definition hz_server :: "HetznerRecordsWrite request \<Rightarrow> hz_db \<Rightarrow> (reqwest_error + hz_answer response) \<times> hz_db" where
  "hz_server rq n =
     (let records = map (\<lambda>p. quote_txt (snd p)) (filter (\<lambda>p. fst p = between ''api/zones/a.org/rrsets/'' ''/TXT'' (rq_url rq)) (db_values n));
          reply = (\<lambda>status. \<lparr>za_zones = [''a.org''], za_records = records,
            za_action = \<lparr>ha_id = db_next n, ha_command = ''change'', ha_status = status, ha_error = None\<rparr>\<rparr>) in
      case rq_body rq of
        None \<Rightarrow>
          (answer (if strip_prefix ''api/zones/actions/'' (rq_url rq) \<noteq> None then 404 else 200) (reply ''running''), n)
      | Some b \<Rightarrow>
          (let adds = strip_suffix ''add_records'' (rq_url rq) \<noteq> None;
               r = between ''api/zones/a.org/rrsets/'' (if adds then ''/TXT/actions/add_records'' else ''/TXT/actions/remove_records'') (rq_url rq);
               e = hz_change (''a.org'', r) (unquote (concat (hw_records b))) adds in
           if db_running n \<noteq> None then (answer 423 (reply ''running''), n)
           else if db_slow n then (answer 201 (reply ''running''), n\<lparr>db_running := Some e\<rparr>)
           else (answer 201 (reply ''success''), n\<lparr>db_values := db_apply e (db_values n), db_next := db_next n + 1\<rparr>)))"

definition demo_hz :: "(hz_answer, hz_db) hz_env" where
  "demo_hz = api_around hz_server (\<lambda>_. False) (hz_env.fields (\<lambda>a. Inr (za_zones a)) (\<lambda>a. Inr (za_records a)) (\<lambda>a. Inr (za_action a)))"

definition demo_hz_provider :: HetznerProvider where
  "demo_hz_provider = \<lparr>api_base = ''api'', zone_override = None, ttl = 2, cfg_timeout = 1, hz_token = ''t''\<rparr>"

definition demo_hz_world :: "bool \<Rightarrow> hz_db world" where
  "demo_hz_world slow = \<lparr>RESOLVER = None, net = \<lparr>db_values = [(''_acme-challenge'', ''other'')], db_running = None, db_next = 1, db_slow = slow\<rparr>\<rparr>"

lemma demo_hz_run:
  "fst (hz_present demo_hz demo_hz_provider ''_acme-challenge.A.org'' ''v'' (demo_hz_world False)) = Inr ()"
  "fst (hz_cleanup demo_hz demo_hz_provider ''_acme-challenge.A.org'' ''v''
     (snd (hz_present demo_hz demo_hz_provider ''_acme-challenge.A.org'' ''v'' (demo_hz_world False)))) = Inr ()"
  by code_simp+

lemma demo_hz_owner: "hz_owner demo_hz_provider (\<lambda>c. c = ''a.org'') ''_acme-challenge.A.org'' = Some (''a.org'', ''_acme-challenge'')"
  by code_simp

lemma demo_hz_sel:
  "http_send demo_hz = hz_server" "http_sleep demo_hz d n = n" "encode_path demo_hz s = s" "api_base demo_hz_provider = ''api''"
  "zone_override demo_hz_provider = None"
  "hz_zones_json demo_hz = (\<lambda>a. Inr (za_zones a))" "hz_rrset_json demo_hz = (\<lambda>a. Inr (za_records a))"
  "hz_action_json demo_hz = (\<lambda>a. Inr (za_action a))"
  by (simp_all add: demo_hz_def api_around_def hz_env.defs encode_path_def demo_hz_provider_def)

lemma hz_server_reads:
  assumes "rq_body rq = None"
  shows "snd (hz_server rq n) = n"
  using assms by (simp add: hz_server_def Let_def)

lemma demo_hz_rrset:
  assumes "hz_server (hz_get demo_hz_provider (hz_rrset_url demo_hz demo_hz_provider ''a.org'' r) []) n = (x, n')"
  shows "n' = n \<and> (\<forall>resp. x = Inr resp \<longrightarrow> rs_status resp = 200 \<and> map unquote (za_records (rs_body resp)) = hs_values (hz_db_state n) (''a.org'', r))"
proof -
  have "between ''api/zones/a.org/rrsets/'' ''/TXT'' (hz_rrset_url demo_hz demo_hz_provider ''a.org'' r) = r"
    by (rule between_eq) (simp add: hz_rrset_url_def hz_rrset_path_def demo_hz_sel)
  moreover have "strip_prefix ''api/zones/actions/'' (hz_rrset_url demo_hz demo_hz_provider ''a.org'' r) = None"
    by (simp add: hz_rrset_url_def hz_rrset_path_def demo_hz_sel strip_prefix_def)
  ultimately show ?thesis
    using assms by (auto simp: hz_server_def hz_get_def answer_def Let_def hz_db_state_def comp_def)
qed

lemma hz_db_apply:
  "hz_db_state (n\<lparr>db_values := db_apply (hz_change (''a.org'', r) v b) (db_values n), db_next := db_next n + 1\<rparr>) =
   (hz_db_state n)\<lparr>hs_values := apply_edit (hz_change (''a.org'', r) v b) (hs_values (hz_db_state n)),
     hs_outcome := (hs_outcome (hz_db_state n))(db_next n \<mapsto> True)\<rparr>" if "db_running n = None"
proof -
  have "map snd (filter (\<lambda>p. fst p = s) (db_apply (hz_change (''a.org'', r) v b) d)) =
      (if s = r then if b then map snd (filter (\<lambda>p. fst p = s) d) @ [v] else filter (\<lambda>x. x \<noteq> v) (map snd (filter (\<lambda>p. fst p = s) d))
       else map snd (filter (\<lambda>p. fst p = s) d))" for s d
    by (cases b; induction d) (auto simp: hz_change_def)
  with that show ?thesis by (auto simp: hz_db_state_def hz_change_def fun_eq_iff)
qed

lemma hz_db_starts:
  assumes "db_running n = None"
  shows "hz_starts (hz_change (''a.org'', r) v b) (db_next n) (hz_db_state n) (hz_db_state (n\<lparr>db_running := Some (hz_change (''a.org'', r) v b)\<rparr>))"
    "hz_starts (hz_change (''a.org'', r) v b) (db_next n) (hz_db_state n)
       (hz_db_state (n\<lparr>db_values := db_apply (hz_change (''a.org'', r) v b) (db_values n), db_next := db_next n + 1\<rparr>))"
proof -
  let ?e = "hz_change (''a.org'', r) v b" and ?s = "hz_db_state n"
  have idle: "hs_running ?s = None" "hs_outcome ?s (db_next n) = None" using assms by (simp_all add: hz_db_state_def)
  note starts = hz_accepted [OF hz_stay idle, of ?e]
  have "hz_db_state (n\<lparr>db_running := Some ?e\<rparr>) = ?s\<lparr>hs_running := Some (db_next n, ?e)\<rparr>" by (simp add: hz_db_state_def cong: if_cong)
  then show "hz_starts ?e (db_next n) ?s (hz_db_state (n\<lparr>db_running := Some ?e\<rparr>))" using starts [OF hz_stay] by simp
  have "hz_moves (?s\<lparr>hs_running := Some (db_next n, ?e)\<rparr>)
      (?s\<lparr>hs_values := apply_edit ?e (hs_values ?s), hs_running := None, hs_outcome := (hs_outcome ?s)(db_next n \<mapsto> True)\<rparr>)"
    using hz_applied [of "?s\<lparr>hs_running := Some (db_next n, ?e)\<rparr>" "db_next n" ?e] by simp
  moreover have "?s\<lparr>hs_values := apply_edit ?e (hs_values ?s), hs_running := None, hs_outcome := (hs_outcome ?s)(db_next n \<mapsto> True)\<rparr> =
      ?s\<lparr>hs_values := apply_edit ?e (hs_values ?s), hs_outcome := (hs_outcome ?s)(db_next n \<mapsto> True)\<rparr>"
    by (rule hz_state.equality) (use idle in simp_all)
  ultimately show "hz_starts ?e (db_next n) ?s (hz_db_state (n\<lparr>db_values := db_apply ?e (db_values n), db_next := db_next n + 1\<rparr>))"
    unfolding hz_db_apply [OF assms] by (intro starts) simp
qed

lemma demo_hz_post:
  assumes "hz_server (hz_post demo_hz demo_hz_provider ''a.org'' r action v t) n = (x, n')" "action \<in> {''add_records'', ''remove_records''}"
  shows "(hz_moves (hz_db_state n) (hz_db_state n') \<or> (\<exists>i. hz_starts (hz_edit_of action (''a.org'', r) v) i (hz_db_state n) (hz_db_state n'))) \<and>
    (\<forall>resp. x = Inr resp \<longrightarrow> is_success (rs_status resp) \<longrightarrow>
      hz_starts (hz_edit_of action (''a.org'', r) v) (ha_id (za_action (rs_body resp))) (hz_db_state n) (hz_db_state n') \<and>
      (ha_status (za_action (rs_body resp)) = ''success'' \<longrightarrow> hs_outcome (hz_db_state n') (ha_id (za_action (rs_body resp))) = Some True))"
proof -
  let ?u = "api_base demo_hz_provider @ hz_action_path demo_hz ''a.org'' r action"
  let ?adds = "strip_suffix ''add_records'' ?u \<noteq> None"
  have u: "?u = ''api/zones/a.org/rrsets/'' @ r @ ''/TXT/actions/'' @ action"
    by (simp add: hz_action_path_def hz_rrset_path_def demo_hz_sel)
  have adds: "?adds = (action = ''add_records'')" using assms(2) unfolding u by (auto simp: strip_suffix_def)
  have "between ''api/zones/a.org/rrsets/'' (if ?adds then ''/TXT/actions/add_records'' else ''/TXT/actions/remove_records'') ?u = r"
    by (rule between_eq) (use assms(2) u adds in auto)
  moreover have "hz_edit_of action (''a.org'', r) v = hz_change (''a.org'', r) v ?adds"
    using assms(2) unfolding adds hz_edit_of_def hz_change_def by auto
  moreover have outcome: "hs_outcome (hz_db_state m) i = (if i < db_next m then Some True else None)" for m i
    by (simp add: hz_db_state_def)
  ultimately show ?thesis
    using assms(1) hz_db_starts [of n r v ?adds]
    by (auto simp: hz_server_def hz_post_def answer_def Let_def is_success_def hz_stay outcome split: if_splits)
qed

lemma demo_hz_api: "hz_api demo_hz demo_hz_provider (\<lambda>c. c = ''a.org'') (\<lambda>_. True) hz_db_state"
  unfolding hz_api_def demo_hz_sel
proof (intro conjI allI impI)
  fix i c and n n' :: hz_db and x :: "reqwest_error + hz_answer response" and resp
  let ?zones = "hz_get demo_hz_provider (''api'' @ ''/zones'') [(''name'', c)]"
  let ?action = "hz_get demo_hz_provider (''api'' @ ''/zones/actions/'' @ show_nat i) []"
  show "hz_moves (hz_db_state n) (hz_db_state n')" if "hz_server ?zones n = (x, n')"
    using hz_server_reads [of ?zones n] that by (simp add: hz_get_def hz_stay)
  show "(c \<in> set zs) = (c = ''a.org'')" if "hz_server ?zones n = (x, n')" "x = Inr resp" "Inr (za_zones (rs_body resp)) = Inr zs" for zs
    using that by (auto simp: hz_server_def hz_get_def answer_def Let_def)
  show "hz_moves (hz_db_state n) (hz_db_state n')" if "hz_server ?action n = (x, n')"
    using hz_server_reads [of ?action n] that by (simp add: hz_get_def hz_stay)
  have unknown: "rs_status resp = 404" if "hz_server ?action n = (x, n')" "x = Inr resp"
    using that by (auto simp: hz_server_def hz_get_def answer_def Let_def strip_prefix_def)
  show "ha_id a = i" if "hz_server ?action n = (x, n')" "x = Inr resp" "is_success (rs_status resp)" for a
    using unknown [OF that(1,2)] that(3) by (simp add: is_success_def)
  show "hs_outcome (hz_db_state n') i = Some True" if "hz_server ?action n = (x, n')" "x = Inr resp" "is_success (rs_status resp)"
    using unknown [OF that(1,2)] that(3) by (simp add: is_success_def)
qed (use demo_hz_rrset demo_hz_post hz_stay in \<open>simp; fail | fastforce simp: is_success_def\<close>)+

theorem hz_contract_witness:
  "\<exists>w1 w2. hz_present demo_hz demo_hz_provider ''_acme-challenge.A.org'' ''v'' (demo_hz_world False) = (Inr (), w1)
     \<and> ''v'' \<in> hz_values (hz_db_state (net w1)) (Some (''a.org'', ''_acme-challenge''))
     \<and> hz_cleanup demo_hz demo_hz_provider ''_acme-challenge.A.org'' ''v'' w1 = (Inr (), w2)
     \<and> ''v'' \<notin> hz_values (hz_db_state (net w2)) (Some (''a.org'', ''_acme-challenge''))
     \<and> hz_idle (hz_db_state (net w2))"
proof -
  let ?p = "hz_present demo_hz demo_hz_provider ''_acme-challenge.A.org'' ''v''"
  let ?c = "hz_cleanup demo_hz demo_hz_provider ''_acme-challenge.A.org'' ''v''"
  obtain w1 where p: "?p (demo_hz_world False) = (Inr (), w1)" using demo_hz_run(1) by (metis prod.collapse)
  obtain w2 where c: "?c w1 = (Inr (), w2)" using demo_hz_run(2) p by (metis prod.collapse snd_conv)
  have "hz_idle (hz_db_state (net (demo_hz_world False)))"
    by (simp add: hz_idle_def hz_db_state_def demo_hz_world_def)
  note contract = hz_contract [OF demo_hz_api _ this, of "''_acme-challenge.A.org''" "''v''", unfolded demo_hz_owner after_def p, simplified]
  have "hz_idle (hz_db_state (net w1))" using contract by simp
  note later = hz_contract [OF demo_hz_api _ this, of "''_acme-challenge.A.org''" "''v''", unfolded demo_hz_owner after_def c, simplified]
  show ?thesis using p c contract later by simp
qed

section \<open>An action that outlasts its call\<close>

text \<open>Asking fails the first time: the call ends with that error, and the action still runs.\<close>

lemma wait_for_action_fails:
  assumes "action_judge a = None" "attempt (sleep_for E ACTION_POLL_INTERVAL) (\<lambda>_. fetch_action E self (ha_id a)) w = (Inl e, w')"
  shows "wait_for_action E self a w = (Inl e, w')"
proof -
  have "\<not> instant_now E w + ACTION_POLL_INTERVAL > instant_now E w + ACTION_TIMEOUT" "ACTION_TIMEOUT div ACTION_POLL_INTERVAL = Suc 59"
    by (simp_all add: ACTION_POLL_INTERVAL_def ACTION_TIMEOUT_def from_secs_def)
  moreover have "attempt (sleep_for E ACTION_POLL_INTERVAL) (\<lambda>_. attempt (fetch_action E self (ha_id a)) rest) w = (Inl e, w')" for rest
    unfolding attempt_assoc [symmetric] using assms(2) by (simp add: attempt_def [of "attempt _ _"])
  ultimately show ?thesis
    unfolding wait_for_action_def wait_settled_def by (subst settle.simps) (simp add: assms(1))
qed

definition demo_hz_stuck :: "hz_db world" where
  "demo_hz_stuck = (demo_hz_world True)\<lparr>net := (net (demo_hz_world True))\<lparr>db_running := Some (AddValue (''a.org'', ''_acme-challenge'') ''v'')\<rparr>\<rparr>"

definition demo_hz_action :: HetznerAction where
  "demo_hz_action = \<lparr>ha_id = 1, ha_command = ''change'', ha_status = ''running'', ha_error = None\<rparr>"

lemma demo_hz_steps:
  "validate_fqdn ''_acme-challenge.A.org'' = Inr ()" "validate_acme_value ''v'' = Inr ()"
  "hz_resolve_zone demo_hz demo_hz_provider ''_acme-challenge.A.org'' (demo_hz_world True) = (Inr ''a.org'', demo_hz_world True)"
  "relative_name (to_ascii_lowercase ''_acme-challenge.A.org'') ''a.org'' = Inr ''_acme-challenge''"
  "hz_fetch_existing demo_hz demo_hz_provider ''a.org'' ''_acme-challenge'' (demo_hz_world True) = (Inr (Some [''other'']), demo_hz_world True)"
  "fst (hz_cleanup demo_hz demo_hz_provider ''_acme-challenge.A.org'' ''v'' demo_hz_stuck) = Inr ()"
  "snd (hz_cleanup demo_hz demo_hz_provider ''_acme-challenge.A.org'' ''v'' demo_hz_stuck) = demo_hz_stuck"
  by code_simp+

lemma demo_hz_accepted:
  "case send demo_hz (hz_post demo_hz demo_hz_provider ''a.org'' ''_acme-challenge'' ''add_records'' ''v'' None) (demo_hz_world True) of
     (Inl _, _) \<Rightarrow> False
   | (Inr resp, w) \<Rightarrow> is_success (rs_status resp) \<and> hz_action_json demo_hz (rs_body resp) = Inr demo_hz_action \<and> w = demo_hz_stuck"
  "case fetch_action demo_hz demo_hz_provider 1 demo_hz_stuck of (Inl _, w) \<Rightarrow> w = demo_hz_stuck | (Inr _, _) \<Rightarrow> False"
  by code_simp+

lemma demo_hz_present_fails:
  "\<exists>e. hz_present demo_hz demo_hz_provider ''_acme-challenge.A.org'' ''v'' (demo_hz_world True) = (Inl e, demo_hz_stuck)"
proof -
  let ?rq = "hz_post demo_hz demo_hz_provider ''a.org'' ''_acme-challenge'' ''add_records'' ''v'' None"
  obtain resp where resp: "send demo_hz ?rq (demo_hz_world True) = (Inr resp, demo_hz_stuck)" "is_success (rs_status resp)"
    "hz_action_json demo_hz (rs_body resp) = Inr demo_hz_action"
    using demo_hz_accepted(1) by (auto split: prod.splits sum.splits)
  obtain e where "fetch_action demo_hz demo_hz_provider 1 demo_hz_stuck = (Inl e, demo_hz_stuck)"
    using demo_hz_accepted(2) by (auto split: prod.splits sum.splits)
  then have "wait_for_action demo_hz demo_hz_provider demo_hz_action demo_hz_stuck = (Inl e, demo_hz_stuck)"
    by (intro wait_for_action_fails)
      (simp_all add: action_judge_def demo_hz_action_def attempt_def sleep_for_def modify_state_def demo_hz_sel)
  with resp have "run_records_action demo_hz demo_hz_provider ''a.org'' ''_acme-challenge'' ''add_records'' ''v'' None (demo_hz_world True) =
      (Inl e, demo_hz_stuck)"
    by (simp add: run_records_action_def attempt_def read_json_def from_result_def map_err_def)
  moreover define f where "f = ''_acme-challenge.A.org''"
  note demo_hz_steps(1-5) [folded f_def]
  ultimately show ?thesis
    unfolding f_def [symmetric] by (simp add: hz_present_def attempt_def from_result_def with_lock_def)
qed

text \<open>C40: an action may outlast the call that started it. \<open>present\<close> fails because asking for its action fails, \<open>cleanup\<close>
  then finds no value and reports success, and when the server applies the action later the value stays behind.\<close>

theorem hz_late_add:
  "\<exists>e w1 w2 s. hz_present demo_hz demo_hz_provider ''_acme-challenge.A.org'' ''v'' (demo_hz_world True) = (Inl e, w1)
     \<and> hz_cleanup demo_hz demo_hz_provider ''_acme-challenge.A.org'' ''v'' w1 = (Inr (), w2)
     \<and> hz_moves (hz_db_state (net w2)) s \<and> ''v'' \<in> hz_values s (Some (''a.org'', ''_acme-challenge''))"
proof -
  let ?s = "hz_db_state (net demo_hz_stuck)" and ?e = "hz_change (''a.org'', ''_acme-challenge'') ''v'' True"
  let ?s' = "?s\<lparr>hs_values := apply_edit ?e (hs_values ?s), hs_running := None, hs_outcome := (hs_outcome ?s)(1 \<mapsto> True)\<rparr>"
  obtain e where "hz_present demo_hz demo_hz_provider ''_acme-challenge.A.org'' ''v'' (demo_hz_world True) = (Inl e, demo_hz_stuck)"
    using demo_hz_present_fails by blast
  moreover have "hz_cleanup demo_hz demo_hz_provider ''_acme-challenge.A.org'' ''v'' demo_hz_stuck = (Inr (), demo_hz_stuck)"
    using demo_hz_steps(6,7) by (metis prod.collapse)
  moreover have "hs_running ?s = Some (1, ?e)"
    by (simp add: hz_db_state_def demo_hz_stuck_def demo_hz_world_def hz_change_def)
  then have "hz_moves ?s ?s'" by (rule hz_applied)
  moreover have "''v'' \<in> hz_values ?s' (Some (''a.org'', ''_acme-challenge''))" by (simp add: hz_values_apply)
  ultimately show ?thesis by blast
qed

end
