(* ===== verification/Rfc2136.thy ===== *)
theory Rfc2136
  imports Provider_Kit
begin

text \<open>
  The RFC 2136 provider (\<open>providers/rfc2136.rs\<close>): signed dynamic updates over TCP. DNS names and messages and their
  signatures belong to the DNS library and are parameters, as are the socket and the parsers of addresses; what the
  provider decides about a response, and how it frames messages, is modelled.
\<close>

section \<open>Algorithms\<close>

definition ENV_NAMESERVER :: string where
  "ENV_NAMESERVER = ''RFC2136_NAMESERVER''"

definition ENV_TSIG_KEY :: string where
  "ENV_TSIG_KEY = ''RFC2136_TSIG_KEY''"

definition ENV_TSIG_SECRET :: string where
  "ENV_TSIG_SECRET = ''RFC2136_TSIG_SECRET''"

definition ENV_TSIG_ALGORITHM :: string where
  "ENV_TSIG_ALGORITHM = ''RFC2136_TSIG_ALGORITHM''"

definition DEFAULT_PORT :: nat where
  "DEFAULT_PORT = 53"

definition RFC2136_DEFAULT_TTL :: nat where
  "RFC2136_DEFAULT_TTL = 60"

definition RFC2136_DEFAULT_TIMEOUT :: duration where
  "RFC2136_DEFAULT_TIMEOUT = from_secs 10"

definition TSIG_FUDGE :: nat where
  "TSIG_FUDGE = 300"

definition RFC2136_PROVIDER :: string where
  "RFC2136_PROVIDER = ''rfc2136''"

datatype TsigAlgorithm = HmacSha256 | HmacSha384 | HmacSha512

fun tsig_as_str :: "TsigAlgorithm \<Rightarrow> string" where
  "tsig_as_str HmacSha256 = ''hmac-sha256''"
| "tsig_as_str HmacSha384 = ''hmac-sha384''"
| "tsig_as_str HmacSha512 = ''hmac-sha512''"

definition tsig_from_str :: "string \<Rightarrow> TsigAlgorithm result" where
  "tsig_from_str s =
     (let name = to_ascii_lowercase (trim_end_matches DOT (trim s)) in
      if name = ''hmac-sha256'' then Inr HmacSha256
      else if name = ''hmac-sha384'' then Inr HmacSha384
      else if name = ''hmac-sha512'' then Inr HmacSha512
      else if name \<in> set [''hmac-md5'', ''hmac-md5.sig-alg.reg.int'', ''hmac-sha1'', ''hmac-sha224'']
      then Inl (Other (''unsupported TSIG algorithm '' @ s @ '': use hmac-sha256, hmac-sha384 or hmac-sha512''))
      else Inl (Other (''unknown TSIG algorithm '' @ s)))"

lemma tsig_from_as_str: "tsig_from_str (tsig_as_str a) = Inr a"
proof -
  have "tsig_from_str ''hmac-sha256'' = Inr HmacSha256" "tsig_from_str ''hmac-sha384'' = Inr HmacSha384"
    "tsig_from_str ''hmac-sha512'' = Inr HmacSha512"
    by code_simp+
  then show ?thesis by (cases a) simp_all
qed

section \<open>Environment and configuration\<close>

text \<open>
  The library's response codes and signature errors, as far as they are told apart; a received message; a record
  set with the values of its TXT records.
\<close>

datatype ResponseCode = NoError | NotAuth | Refused | OtherCode nat

datatype TsigError = BadSig | BadKey | BadTime | OtherTsig nat

record Rfc2136Message =
  rm_id :: nat
  rm_is_response :: bool
  rm_is_update :: bool
  rm_code :: ResponseCode
  rm_signature :: "TsigError option option"

record 'nm TxtRrset =
  tx_name :: 'nm
  tx_ttl :: nat
  tx_values :: "string list"

text \<open>A socket operation fails, or is given up at the deadline.\<close>

datatype tcp_stop = Elapsed | IoError string

text \<open>
  Addresses are parsed to their canonical text. Creating a message draws its id from the outside world. The socket
  operations know the deadline of the timeout they run under.
\<close>

record ('nm, 'msg, 'sg, 'ver, 'c, 'n) rfc_env =
  rfc_dns :: "'n dns_env"
  rfc_env_var :: "string \<Rightarrow> string option"
  socket_addr_parse :: "string \<Rightarrow> (string \<times> nat) option"
  ip_parse :: "string \<Rightarrow> string option"
  rfc_debug_str :: "string \<Rightarrow> string"
  rfc_debug_duration :: "duration \<Rightarrow> string"
  name_from_ascii :: "string \<Rightarrow> string + 'nm"
  name_set_fqdn :: "'nm \<Rightarrow> 'nm"
  name_zone_of :: "'nm \<Rightarrow> 'nm \<Rightarrow> bool"
  name_display :: "'nm \<Rightarrow> string"
  base64_decode :: "string \<Rightarrow> string option"
  update_append :: "'nm TxtRrset \<Rightarrow> 'nm \<Rightarrow> bool \<Rightarrow> bool \<Rightarrow> 'n \<Rightarrow> 'msg"
  update_delete_by_rdata :: "'nm TxtRrset \<Rightarrow> 'nm \<Rightarrow> bool \<Rightarrow> 'n \<Rightarrow> 'msg"
  message_id :: "'msg \<Rightarrow> nat"
  tsigner_new :: "string \<Rightarrow> TsigAlgorithm \<Rightarrow> 'nm \<Rightarrow> nat \<Rightarrow> string + 'sg"
  message_finalize :: "'msg \<Rightarrow> 'sg \<Rightarrow> nat \<Rightarrow> string + 'msg \<times> 'ver option"
  message_to_vec :: "'msg \<Rightarrow> string + string"
  message_from_vec :: "string \<Rightarrow> string + Rfc2136Message"
  tsig_verify :: "'ver \<Rightarrow> string \<Rightarrow> string + unit"
  rcode_display :: "ResponseCode \<Rightarrow> string"
  rfc_unix_time :: "'n \<Rightarrow> nat option"
  tcp_connect :: "nat \<Rightarrow> string \<Rightarrow> nat \<Rightarrow> 'n \<Rightarrow> (tcp_stop + 'c) \<times> 'n"
  tcp_write_all :: "nat \<Rightarrow> 'c \<Rightarrow> string \<Rightarrow> 'n \<Rightarrow> (tcp_stop + unit) \<times> 'n"
  tcp_read_exact :: "nat \<Rightarrow> 'c \<Rightarrow> nat \<Rightarrow> 'n \<Rightarrow> (tcp_stop + string) \<times> 'n"

record Rfc2136Config =
  rfc_nameserver :: string
  rfc_key_name :: string
  rfc_secret :: string
  rfc_algorithm :: TsigAlgorithm
  rfc_zone_override :: "string option"
  rfc_ttl :: nat
  rfc_timeout :: duration

definition Rfc2136Config_new :: "string \<Rightarrow> string \<Rightarrow> string \<Rightarrow> Rfc2136Config" where
  "Rfc2136Config_new nameserver key secret =
     \<lparr>rfc_nameserver = nameserver, rfc_key_name = key, rfc_secret = secret, rfc_algorithm = HmacSha256, rfc_zone_override = None,
      rfc_ttl = RFC2136_DEFAULT_TTL, rfc_timeout = RFC2136_DEFAULT_TIMEOUT\<rparr>"

definition rfc_with_algorithm :: "TsigAlgorithm \<Rightarrow> Rfc2136Config \<Rightarrow> Rfc2136Config" where
  "rfc_with_algorithm a config = config\<lparr>rfc_algorithm := a\<rparr>"

definition rfc_with_zone :: "string \<Rightarrow> Rfc2136Config \<Rightarrow> Rfc2136Config result" where
  "rfc_with_zone zone config = and_then (validate_zone zone) (\<lambda>_. Inr (config\<lparr>rfc_zone_override := Some zone\<rparr>))"

definition rfc_with_ttl :: "nat \<Rightarrow> Rfc2136Config \<Rightarrow> Rfc2136Config result" where
  "rfc_with_ttl t config = and_then (validate_ttl t) (\<lambda>t. Inr (config\<lparr>rfc_ttl := t\<rparr>))"

definition rfc_with_timeout :: "duration \<Rightarrow> Rfc2136Config \<Rightarrow> Rfc2136Config" where
  "rfc_with_timeout t config = config\<lparr>rfc_timeout := t\<rparr>"

section \<open>Names and addresses\<close>

record Nameserver =
  ns_host :: string
  ns_port :: nat

definition COLON :: char where
  "COLON = CHR '':''"

definition nameserver_display :: "Nameserver \<Rightarrow> string" where
  "nameserver_display ns =
     (if COLON \<in> set (ns_host ns) then ''['' @ ns_host ns @ '']:'' @ show_nat (ns_port ns)
      else ns_host ns @ '':'' @ show_nat (ns_port ns))"

definition rsplit_once :: "char \<Rightarrow> string \<Rightarrow> (string \<times> string) option" where
  "rsplit_once d s = map_option (\<lambda>(a, b). (rev b, rev a)) (split_once d (rev s))"

definition parse_nameserver :: "('nm, 'msg, 'sg, 'ver, 'c, 'n) rfc_env \<Rightarrow> string \<Rightarrow> Nameserver result" where
  "parse_nameserver E raw =
     (let raw = trim raw; invalid = Other (''invalid '' @ RFC2136_PROVIDER @ '' nameserver: '' @ rfc_debug_str E raw) in
      case socket_addr_parse E raw of
        Some (ip, port) \<Rightarrow> if port = 0 then Inl invalid else Inr \<lparr>ns_host = ip, ns_port = port\<rparr>
      | None \<Rightarrow>
          (let unbracketed = (case Option.bind (strip_prefix ''['' raw) (strip_suffix '']'') of Some s \<Rightarrow> s | None \<Rightarrow> raw) in
           case ip_parse E unbracketed of
             Some ip \<Rightarrow> Inr \<lparr>ns_host = ip, ns_port = DEFAULT_PORT\<rparr>
           | None \<Rightarrow>
               and_then
                 (case rsplit_once COLON raw of
                    Some (host, port) \<Rightarrow> map_sum (\<lambda>_. invalid) (\<lambda>port. (host, port)) (ok_or () (parse_unsigned 16 port))
                  | None \<Rightarrow> Inr (raw, DEFAULT_PORT))
                 (\<lambda>(host, port).
                  if port = 0 \<or> COLON \<in> set host \<or> validate_fqdn host \<noteq> Inr () then Inl invalid
                  else Inr \<lparr>ns_host = trim_end_matches DOT host, ns_port = port\<rparr>)))"

definition parse_name :: "('nm, 'msg, 'sg, 'ver, 'c, 'n) rfc_env \<Rightarrow> string \<Rightarrow> string \<Rightarrow> 'nm result" where
  "parse_name E raw what =
     and_then (validate_fqdn raw) (\<lambda>_.
     and_then (map_err (\<lambda>e. Other (''invalid '' @ what @ '' '' @ rfc_debug_str E raw @ '': '' @ e)) (name_from_ascii E raw)) (\<lambda>name.
     Inr (name_set_fqdn E name)))"

definition decode_secret :: "('nm, 'msg, 'sg, 'ver, 'c, 'n) rfc_env \<Rightarrow> string \<Rightarrow> string result" where
  "decode_secret E secret =
     and_then (ok_or (Other (RFC2136_PROVIDER @ '' TSIG secret is not valid base64'')) (base64_decode E (trim secret))) (\<lambda>key.
     if key = [] then Inl (Other (RFC2136_PROVIDER @ '' TSIG secret is empty'')) else Inr key)"

section \<open>Messages\<close>

definition txt_rrset :: "'nm \<Rightarrow> string \<Rightarrow> nat \<Rightarrow> 'nm TxtRrset" where
  "txt_rrset fqdn v t = \<lparr>tx_name = fqdn, tx_ttl = t, tx_values = [v]\<rparr>"

definition build_present_message :: "('nm, 'msg, 'sg, 'ver, 'c, 'n) rfc_env \<Rightarrow> 'nm \<Rightarrow> 'nm \<Rightarrow> string \<Rightarrow> nat \<Rightarrow> 'n \<Rightarrow> 'msg" where
  "build_present_message E zone fqdn v t = update_append E (txt_rrset fqdn v t) zone False False"

definition build_cleanup_message :: "('nm, 'msg, 'sg, 'ver, 'c, 'n) rfc_env \<Rightarrow> 'nm \<Rightarrow> 'nm \<Rightarrow> string \<Rightarrow> 'n \<Rightarrow> 'msg" where
  "build_cleanup_message E zone fqdn v = update_delete_by_rdata E (txt_rrset fqdn v 0) zone False"

definition rcode_error ::
  "('nm, 'msg, 'sg, 'ver, 'c, 'n) rfc_env \<Rightarrow> ResponseCode \<Rightarrow> TsigError option \<Rightarrow> string option \<Rightarrow> Nameserver \<Rightarrow> DnsError" where
  "rcode_error E rcode tsig_error unverified nameserver =
     (let detail = (case tsig_error of
            Some BadSig \<Rightarrow> '' (TSIG: bad signature, check the secret and algorithm)''
          | Some BadKey \<Rightarrow> '' (TSIG: unknown key, check the key name and algorithm)''
          | Some BadTime \<Rightarrow> '' (TSIG: clock skew too large between client and server)''
          | Some (OtherTsig _) \<Rightarrow> '' (TSIG error)''
          | None \<Rightarrow> []);
          flag = (case unverified of Some reason \<Rightarrow> '' ('' @ reason @ '', not authenticated)'' | None \<Rightarrow> []);
          message = RFC2136_PROVIDER @ '' update rejected by '' @ nameserver_display nameserver @ '': '' @ rcode_display E rcode @ detail @ flag in
      if rcode \<in> {NotAuth, Refused} then Auth message else Api message)"

definition check_response ::
  "('nm, 'msg, 'sg, 'ver, 'c, 'n) rfc_env \<Rightarrow> nat \<Rightarrow> string \<Rightarrow> 'ver \<Rightarrow> Nameserver \<Rightarrow> unit result" where
  "check_response E request_id bytes verifier nameserver =
     and_then (map_err (\<lambda>e. Api (RFC2136_PROVIDER @ '' malformed response from '' @ nameserver_display nameserver @ '': '' @ e))
       (message_from_vec E bytes)) (\<lambda>response.
     if rm_id response \<noteq> request_id \<or> \<not> rm_is_response response \<or> \<not> rm_is_update response
     then Inl (Api (RFC2136_PROVIDER @ '' unexpected response from '' @ nameserver_display nameserver @ '': not an answer to our update''))
     else
       (let rcode = rm_code response in
        if rcode \<noteq> NoError
        then
          (let tsig_error = Option.bind (rm_signature response) (\<lambda>e. e);
               unverifiable_by_design = (rcode = NotAuth \<and> tsig_error \<in> {Some BadKey, Some BadSig, Some BadTime});
               unverified =
                 (if unverifiable_by_design \<or> tsig_verify E verifier bytes = Inr () then None
                  else if rm_signature response = None then Some ''unsigned response''
                  else Some ''TSIG verification failed'') in
           Inl (rcode_error E rcode tsig_error unverified nameserver))
        else
          map_err (\<lambda>e. Auth (RFC2136_PROVIDER @ '' response from '' @ nameserver_display nameserver @ '' failed TSIG verification: '' @ e))
            (tsig_verify E verifier bytes)))"

section \<open>The provider\<close>

record 'nm Rfc2136Provider =
  rfc_config :: Rfc2136Config
  rfc_server :: Nameserver
  rfc_key :: 'nm

definition Rfc2136Provider_new :: "('nm, 'msg, 'sg, 'ver, 'c, 'n) rfc_env \<Rightarrow> Rfc2136Config \<Rightarrow> 'nm Rfc2136Provider result" where
  "Rfc2136Provider_new E config =
     and_then (parse_nameserver E (rfc_nameserver config)) (\<lambda>nameserver.
     and_then (parse_name E (rfc_key_name config) ''TSIG key name'') (\<lambda>key_name.
     and_then (decode_secret E (rfc_secret config)) (\<lambda>_.
     Inr \<lparr>rfc_config = config, rfc_server = nameserver, rfc_key = key_name\<rparr>)))"

definition rfc_required_var :: "('nm, 'msg, 'sg, 'ver, 'c, 'n) rfc_env \<Rightarrow> string \<Rightarrow> string result" where
  "rfc_required_var E name = ok_or (MissingCredentials name) (rfc_env_var E name)"

definition rfc_from_env :: "('nm, 'msg, 'sg, 'ver, 'c, 'n) rfc_env \<Rightarrow> 'nm Rfc2136Provider result" where
  "rfc_from_env E =
     and_then (rfc_required_var E ENV_NAMESERVER) (\<lambda>nameserver.
     and_then (rfc_required_var E ENV_TSIG_KEY) (\<lambda>key_name.
     and_then (rfc_required_var E ENV_TSIG_SECRET) (\<lambda>secret.
     let config = Rfc2136Config_new nameserver key_name secret in
     and_then
       (case rfc_env_var E ENV_TSIG_ALGORITHM of
          Some algorithm \<Rightarrow> and_then (tsig_from_str algorithm) (\<lambda>a. Inr (rfc_with_algorithm a config))
        | None \<Rightarrow> Inr config)
       (Rfc2136Provider_new E))))"

definition signer :: "('nm, 'msg, 'sg, 'ver, 'c, 'n) rfc_env \<Rightarrow> 'nm Rfc2136Provider \<Rightarrow> 'sg result" where
  "signer E self =
     and_then (decode_secret E (rfc_secret (rfc_config self))) (\<lambda>key.
     map_err (\<lambda>e. Other (RFC2136_PROVIDER @ '' TSIG signer: '' @ e))
       (tsigner_new E key (rfc_algorithm (rfc_config self)) (rfc_key self) TSIG_FUDGE))"

definition rfc_unix_now :: "('nm, 'msg, 'sg, 'ver, 'c, 'n) rfc_env \<Rightarrow> (('n, 'z) world_scheme, nat) io" where
  "rfc_unix_now E w = (ok_or (Other ''system clock is before the Unix epoch'') (rfc_unix_time E (net w)), w)"

definition rfc_resolve_zone ::
  "('nm, 'msg, 'sg, 'ver, 'c, 'n) rfc_env \<Rightarrow> 'nm Rfc2136Provider \<Rightarrow> string \<Rightarrow> (('n, 'z) world_scheme, string) io" where
  "rfc_resolve_zone E self fqdn =
     (case rfc_zone_override (rfc_config self) of
        Some z \<Rightarrow> done_ok z
      | None \<Rightarrow> attempt (find_zone (rfc_dns E) fqdn) (\<lambda>zone. attempt (from_result (validate_fqdn zone)) (\<lambda>_. done_ok zone)))"

definition rfc_names ::
  "('nm, 'msg, 'sg, 'ver, 'c, 'n) rfc_env \<Rightarrow> 'nm Rfc2136Provider \<Rightarrow> string \<Rightarrow> (('n, 'z) world_scheme, 'nm \<times> 'nm) io" where
  "rfc_names E self fqdn =
     attempt (rfc_resolve_zone E self fqdn) (\<lambda>zone.
     attempt (from_result (parse_name E zone ''zone'')) (\<lambda>zone.
     attempt (from_result (parse_name E fqdn ''fqdn'')) (\<lambda>name.
     if \<not> name_zone_of E zone name
     then fail_with (Other (''fqdn '' @ fqdn @ '' is not within zone '' @ name_display E zone))
     else done_ok (zone, name))))"

text \<open>Two bytes, most significant first.\<close>

definition u16_to_be :: "nat \<Rightarrow> string" where
  "u16_to_be n = [char_of (n div 256), char_of (n mod 256)]"

definition u16_from_be :: "string \<Rightarrow> nat" where
  "u16_from_be bs = foldl (\<lambda>v c. 256 * v + byte c) 0 bs"

definition u16_try_from :: "nat \<Rightarrow> nat option" where
  "u16_try_from n = (if n < 2 ^ 16 then Some n else None)"

lemma u16_try_from_code [code]: "u16_try_from n = (if n div 256 < 256 then Some n else None)"
  by (simp add: u16_try_from_def div_less_iff_less_mult)

definition framed :: "string \<Rightarrow> string" where
  "framed request = u16_to_be (length request) @ request"

definition exchange ::
  "('nm, 'msg, 'sg, 'ver, 'c, 'n) rfc_env \<Rightarrow> 'nm Rfc2136Provider \<Rightarrow> nat \<Rightarrow> string \<Rightarrow>
   (('n, 'z) world_scheme, DnsError option, string) act" where
  "exchange E self deadline request =
     (let io_error = (\<lambda>stop. case stop of
            Elapsed \<Rightarrow> None
          | IoError e \<Rightarrow> Some (Api (RFC2136_PROVIDER @ '' exchange with '' @ nameserver_display (rfc_server self) @ '': '' @ e))) in
      if u16_try_from (length request) = None then fail_with (Some (Other (RFC2136_PROVIDER @ '' update message too large'')))
      else
        attempt (act_map_err io_error (on_net (tcp_connect E deadline (ns_host (rfc_server self)) (ns_port (rfc_server self))))) (\<lambda>stream.
        attempt (act_map_err io_error (on_net (tcp_write_all E deadline stream (framed request)))) (\<lambda>_.
        attempt (act_map_err io_error (on_net (tcp_read_exact E deadline stream 2))) (\<lambda>len.
        act_map_err io_error (on_net (tcp_read_exact E deadline stream (u16_from_be len)))))))"

definition rfc_timed_out :: "('nm, 'msg, 'sg, 'ver, 'c, 'n) rfc_env \<Rightarrow> 'nm Rfc2136Provider \<Rightarrow> DnsError" where
  "rfc_timed_out E self =
     Api (RFC2136_PROVIDER @ '' update to '' @ nameserver_display (rfc_server self) @ '' timed out after '' @
       rfc_debug_duration E (rfc_timeout (rfc_config self)))"

definition send_update ::
  "('nm, 'msg, 'sg, 'ver, 'c, 'n) rfc_env \<Rightarrow> 'nm Rfc2136Provider \<Rightarrow> 'msg \<Rightarrow> (('n, 'z) world_scheme, unit) io" where
  "send_update E self message =
     attempt (from_result (signer E self)) (\<lambda>sg.
     attempt (rfc_unix_now E) (\<lambda>now.
     attempt (from_result (map_err (\<lambda>e. Other (RFC2136_PROVIDER @ '' signing update: '' @ e)) (message_finalize E message sg now))) (\<lambda>signed.
     attempt (from_result (ok_or (Other (RFC2136_PROVIDER @ '' signing update: no verifier'')) (snd signed))) (\<lambda>verifier.
     attempt (from_result (map_err (\<lambda>e. Other (RFC2136_PROVIDER @ '' encoding update: '' @ e)) (message_to_vec E (fst signed)))) (\<lambda>request.
     attempt (get_state (\<lambda>w. dns_now (rfc_dns E) (net w) + rfc_timeout (rfc_config self))) (\<lambda>deadline.
     attempt (act_map_err (\<lambda>e. case e of Some e \<Rightarrow> e | None \<Rightarrow> rfc_timed_out E self) (exchange E self deadline request)) (\<lambda>response.
     from_result (check_response E (message_id E (fst signed)) response verifier (rfc_server self)))))))))"

definition rfc_present ::
  "('nm, 'msg, 'sg, 'ver, 'c, 'n) rfc_env \<Rightarrow> 'nm Rfc2136Provider \<Rightarrow> string \<Rightarrow> string \<Rightarrow> (('n, 'z) world_scheme, unit) io" where
  "rfc_present E self fqdn v =
     attempt (from_result (validate_fqdn fqdn)) (\<lambda>_.
     attempt (from_result (validate_acme_value v)) (\<lambda>_.
     attempt (rfc_names E self fqdn) (\<lambda>names.
     attempt (get_state (\<lambda>w. build_present_message E (fst names) (snd names) v (rfc_ttl (rfc_config self)) (net w))) (\<lambda>message.
     send_update E self message))))"

definition rfc_cleanup ::
  "('nm, 'msg, 'sg, 'ver, 'c, 'n) rfc_env \<Rightarrow> 'nm Rfc2136Provider \<Rightarrow> string \<Rightarrow> string \<Rightarrow> (('n, 'z) world_scheme, unit) io" where
  "rfc_cleanup E self fqdn v =
     attempt (from_result (validate_fqdn fqdn)) (\<lambda>_.
     attempt (rfc_names E self fqdn) (\<lambda>names.
     attempt (get_state (\<lambda>w. build_cleanup_message E (fst names) (snd names) v (net w))) (\<lambda>message.
     send_update E self message)))"

definition rfc_provider :: "('nm, 'msg, 'sg, 'ver, 'c, 'n) rfc_env \<Rightarrow> 'nm Rfc2136Provider \<Rightarrow> ('n, 'z) world_scheme DnsProvider" where
  "rfc_provider E self =
     \<lparr>present = rfc_present E self, cleanup = rfc_cleanup E self, provider_timing = PropagationTiming_default\<rparr>"

lemma rfc_provider_simps [simp]:
  "present (rfc_provider E self) = rfc_present E self" "cleanup (rfc_provider E self) = rfc_cleanup E self"
  by (simp_all add: rfc_provider_def)

section \<open>What a response proves\<close>


section \<open>The documented behaviour\<close>

text \<open>
  The server holds the values at each name, and a request stands for a change of them. On a connection on which one
  framed request was written the server may have applied it at any time; a response that is signed with the key of
  the request and carries no error says that it did. \<open>fresh\<close>, \<open>asked\<close> and \<open>sized\<close> are the states of a connection: nothing
  written, a request written, and the length of the response read.
\<close>

definition rfc_api ::
  "('nm, 'msg, 'sg, 'ver, 'c, 'n) rfc_env \<Rightarrow> ('nm \<Rightarrow> 'nm \<Rightarrow> 'k) \<Rightarrow> (string \<Rightarrow> ('k \<Rightarrow> string set) \<Rightarrow> 'k \<Rightarrow> string set) \<Rightarrow>
   ('c \<Rightarrow> 'n \<Rightarrow> bool) \<Rightarrow> ('c \<Rightarrow> string \<Rightarrow> ('k \<Rightarrow> string set) \<Rightarrow> 'n \<Rightarrow> bool) \<Rightarrow>
   ('c \<Rightarrow> string \<Rightarrow> ('k \<Rightarrow> string set) \<Rightarrow> nat \<Rightarrow> 'n \<Rightarrow> bool) \<Rightarrow> ('n \<Rightarrow> bool) \<Rightarrow> ('n \<Rightarrow> 'k \<Rightarrow> string set) \<Rightarrow> bool" where
  "rfc_api E at means fresh asked sized up rr \<longleftrightarrow>
     (\<forall>d h p n x n'. up n \<longrightarrow> tcp_connect E d h p n = (x, n') \<longrightarrow>
        up n' \<and> rr n' = rr n \<and> (\<forall>c. x = Inr c \<longrightarrow> fresh c n')) \<and>
     (\<forall>d c p n x n'. up n \<longrightarrow> fresh c n \<longrightarrow> length p < 2 ^ 16 \<longrightarrow> tcp_write_all E d c (framed p) n = (x, n') \<longrightarrow>
        up n' \<and> rr n' \<in> {rr n, means p (rr n)} \<and> (x = Inr () \<longrightarrow> asked c p (rr n) n')) \<and>
     (\<forall>d c p s n x n'. up n \<longrightarrow> asked c p s n \<longrightarrow> tcp_read_exact E d c 2 n = (x, n') \<longrightarrow>
        up n' \<and> rr n' \<in> {s, means p s} \<and> (\<forall>len. x = Inr len \<longrightarrow> sized c p s (u16_from_be len) n')) \<and>
     (\<forall>d c p s k n x n'. up n \<longrightarrow> sized c p s k n \<longrightarrow> tcp_read_exact E d c k n = (x, n') \<longrightarrow>
        up n' \<and> rr n' \<in> {s, means p s} \<and>
        (\<forall>bytes message sg now message' ver m. x = Inr bytes \<longrightarrow> message_finalize E message sg now = Inr (message', Some ver) \<longrightarrow>
           message_to_vec E message' = Inr p \<longrightarrow> tsig_verify E ver bytes = Inr () \<longrightarrow> message_from_vec E bytes = Inr m \<longrightarrow>
           rm_code m = NoError \<longrightarrow> rr n' = means p s)) \<and>
     (\<forall>z name v t n sg now message ver p s. message_finalize E (update_append E (txt_rrset name v t) z False False n) sg now = Inr (message, ver) \<longrightarrow>
        message_to_vec E message = Inr p \<longrightarrow> means p s = s(at z name := insert v (s (at z name)))) \<and>
     (\<forall>z name v t n sg now message ver p s. message_finalize E (update_delete_by_rdata E (txt_rrset name v t) z False n) sg now = Inr (message, ver) \<longrightarrow>
        message_to_vec E message = Inr p \<longrightarrow> means p s = s(at z name := s (at z name) - {v}))"

definition rfc_zone_for :: "'nm Rfc2136Provider \<Rightarrow> (string \<Rightarrow> bool) \<Rightarrow> string \<Rightarrow> string option" where
  "rfc_zone_for self soa f = (case rfc_zone_override (rfc_config self) of Some z \<Rightarrow> Some z | None \<Rightarrow> soa_zone soa f)"

definition rfc_owner ::
  "('nm, 'msg, 'sg, 'ver, 'c, 'n) rfc_env \<Rightarrow> ('nm \<Rightarrow> 'nm \<Rightarrow> 'k) \<Rightarrow> 'nm Rfc2136Provider \<Rightarrow> (string \<Rightarrow> bool) \<Rightarrow> string \<Rightarrow> 'k option" where
  "rfc_owner E at self soa f =
     (case rfc_zone_for self soa f of
        None \<Rightarrow> None
      | Some z \<Rightarrow>
          (case (parse_name E z ''zone'', parse_name E f ''fqdn'') of
             (Inr zone, Inr name) \<Rightarrow> if name_zone_of E zone name then Some (at zone name) else None
           | _ \<Rightarrow> None))"

definition rfc_values :: "('k \<Rightarrow> string set) \<Rightarrow> 'k option \<Rightarrow> string set" where
  "rfc_values s k = (case k of None \<Rightarrow> {} | Some k \<Rightarrow> s k)"

section \<open>One exchange\<close>

lemma u16_be_roundtrip: "n < 2 ^ 16 \<Longrightarrow> u16_from_be (u16_to_be n) = n"
  by (simp add: u16_from_be_def u16_to_be_def)

text \<open>The request may be applied, and a signed response without an error says that it is.\<close>

definition rfc_answered ::
  "('nm, 'msg, 'sg, 'ver, 'c, 'n) rfc_env \<Rightarrow> ('n \<Rightarrow> bool) \<Rightarrow> ('n \<Rightarrow> 's) \<Rightarrow> (string \<Rightarrow> 's \<Rightarrow> 's) \<Rightarrow> string \<Rightarrow> 's \<Rightarrow>
   DnsError option + string \<Rightarrow> ('n, 'z) world_scheme \<Rightarrow> bool" where
  "rfc_answered E up rr means p s r w \<longleftrightarrow> up (net w) \<and> rr (net w) \<in> {s, means p s} \<and>
     (\<forall>bytes message sg now message' ver m. r = Inr bytes \<longrightarrow> message_finalize E message sg now = Inr (message', Some ver) \<longrightarrow>
        message_to_vec E message' = Inr p \<longrightarrow> tsig_verify E ver bytes = Inr () \<longrightarrow> message_from_vec E bytes = Inr m \<longrightarrow>
        rm_code m = NoError \<longrightarrow> rr (net w) = means p s)"

lemma rfc_answered_fails: "up (net w) \<Longrightarrow> rr (net w) \<in> {s, means p s} \<Longrightarrow> rfc_answered E up rr means p s (Inl e) w"
  by (simp add: rfc_answered_def)

lemma after_tcp:
  assumes "\<And>e n'. f (net w) = (Inl e, n') \<Longrightarrow> Q (Inl (g e)) (w\<lparr>net := n'\<rparr>)"
    and "\<And>y n'. f (net w) = (Inr y, n') \<Longrightarrow> Q (Inr y) (w\<lparr>net := n'\<rparr>)"
  shows "after (act_map_err g (on_net f)) w Q"
  using assms by (cases "f (net w)") (auto simp: after_def act_map_err_def on_net_def split: sum.splits)

lemma after_tcp_then:
  assumes "\<And>e n'. f (net w) = (Inl e, n') \<Longrightarrow> Q (Inl (g e)) (w\<lparr>net := n'\<rparr>)"
    and "\<And>y n'. f (net w) = (Inr y, n') \<Longrightarrow> after (k y) (w\<lparr>net := n'\<rparr>) Q"
  shows "after (attempt (act_map_err g (on_net f)) k) w Q"
  unfolding after_attempt by (rule after_tcp) (use assms in simp_all)

lemma exchange_applies:
  fixes E :: "('nm, 'msg, 'sg, 'ver, 'c, 'n) rfc_env" and w :: "('n, 'z) world_scheme"
  assumes "rfc_api E at means fresh asked sized up rr" "up (net w)"
  shows "after (exchange E self deadline p) w (rfc_answered E up rr means p (rr (net w)))"
proof (cases "length p < 2 ^ 16")
  case True
  note api = assms(1) [unfolded rfc_api_def]
  note connect = api [THEN conjunct1, rule_format]
  note put = api [THEN conjunct2, THEN conjunct1, rule_format, OF _ _ True]
  note size = api [THEN conjunct2, THEN conjunct2, THEN conjunct1, rule_format]
  note body = api [THEN conjunct2, THEN conjunct2, THEN conjunct2, THEN conjunct1, rule_format]
  let ?Q = "rfc_answered E up rr means p (rr (net w))"
  have "after (attempt (act_map_err g (on_net (tcp_connect E deadline host port))) (\<lambda>stream.
      attempt (act_map_err g (on_net (tcp_write_all E deadline stream (framed p)))) (\<lambda>_.
      attempt (act_map_err g (on_net (tcp_read_exact E deadline stream 2))) (\<lambda>len.
      act_map_err g (on_net (tcp_read_exact E deadline stream (u16_from_be len))))))) w ?Q" for g host port
  proof (intro after_tcp_then)
    fix e n' assume "tcp_connect E deadline host port (net w) = (Inl e, n')"
    from connect [OF assms(2) this] show "?Q (Inl (g e)) (w\<lparr>net := n'\<rparr>)" by (simp add: rfc_answered_fails)
  next
    fix c n1 x n2 assume "tcp_connect E deadline host port (net w) = (Inr c, n1)"
    note c = connect [OF assms(2) this]
    {
      fix e assume "tcp_write_all E deadline c (framed p) (net (w\<lparr>net := n1\<rparr>)) = (Inl e, n2)"
      then show "?Q (Inl (g e)) (w\<lparr>net := n1, net := n2\<rparr>)" using put [of n1 c deadline _ n2] c by (simp add: rfc_answered_fails)
    next
      fix u e n3 assume "tcp_write_all E deadline c (framed p) (net (w\<lparr>net := n1\<rparr>)) = (Inr u, n2)"
        and e: "tcp_read_exact E deadline c 2 (net (w\<lparr>net := n1, net := n2\<rparr>)) = (Inl e, n3)"
      with put [of n1 c deadline _ n2] c have "up n2" "asked c p (rr (net w)) n2" by auto
      from size [OF this, of deadline] e show "?Q (Inl (g e)) (w\<lparr>net := n1, net := n2, net := n3\<rparr>)" by (simp add: rfc_answered_fails)
    next
      fix u len n3 assume "tcp_write_all E deadline c (framed p) (net (w\<lparr>net := n1\<rparr>)) = (Inr u, n2)"
        and r: "tcp_read_exact E deadline c 2 (net (w\<lparr>net := n1, net := n2\<rparr>)) = (Inr len, n3)"
      with put [of n1 c deadline _ n2] c have "up n2" "asked c p (rr (net w)) n2" by auto
      from size [OF this, of deadline] r have sized: "up n3" "sized c p (rr (net w)) (u16_from_be len) n3" by auto
      show "after (act_map_err g (on_net (tcp_read_exact E deadline c (u16_from_be len)))) (w\<lparr>net := n1, net := n2, net := n3\<rparr>) ?Q"
      proof (rule after_tcp)
        fix e n4 assume "tcp_read_exact E deadline c (u16_from_be len) (net (w\<lparr>net := n1, net := n2, net := n3\<rparr>)) = (Inl e, n4)"
        with body [OF sized, of deadline] show "?Q (Inl (g e)) (w\<lparr>net := n1, net := n2, net := n3, net := n4\<rparr>)"
          by (simp add: rfc_answered_fails)
      next
        fix y n4 assume "tcp_read_exact E deadline c (u16_from_be len) (net (w\<lparr>net := n1, net := n2, net := n3\<rparr>)) = (Inr y, n4)"
        with body [OF sized, of deadline] show "?Q (Inr y) (w\<lparr>net := n1, net := n2, net := n3, net := n4\<rparr>)"
          by (simp add: rfc_answered_def)
      qed
    }
  qed
  with True show ?thesis by (simp add: exchange_def u16_try_from_def Let_def)
qed (use assms(2) in \<open>simp add: exchange_def u16_try_from_def after_simps rfc_answered_def\<close>)

section \<open>The operations\<close>

lemma exchange_stores:
  fixes E :: "('nm, 'msg, 'sg, 'ver, 'c, 'n) rfc_env"
  assumes "rfc_api E at means fresh asked sized up rr"
    and "\<And>s. means p s = change s" "message_finalize E message sg now = Inr (message', Some ver)" "message_to_vec E message' = Inr p"
  shows "stores (online up (\<lambda>_. True)) (\<lambda>w :: ('n, 'z) world_scheme. rr (net w))
    (attempt (act_map_err h (exchange E self deadline p)) (\<lambda>response. from_result (check_response E i response ver ns))) (\<lambda>s s'. s' = change s)"
  unfolding stores_def
proof (intro allI impI)
  fix w :: "('n, 'z) world_scheme"
  assume w: "online up (\<lambda>_. True) w"
  let ?Q = "\<lambda>r w'. online up (\<lambda>_. True) w' \<and> (rr (net w') = rr (net w) \<and> r \<noteq> Inr () \<or> rr (net w') = change (rr (net w)))"
  show "after (attempt (act_map_err h (exchange E self deadline p)) (\<lambda>response. from_result (check_response E i response ver ns))) w ?Q"
  proof -
    note signed = assms(3,4) and means = assms(2)
    have "after (exchange E self deadline p) w (rfc_answered E up rr means p (rr (net w)))"
      by (rule exchange_applies [OF assms(1)]) (use w in \<open>simp add: online_def\<close>)
    moreover have "?Q (check_response E i bytes ver ns) w'" if a: "rfc_answered E up rr means p (rr (net w)) (Inr bytes) w'" for bytes and w' :: "('n, 'z) world_scheme"
    proof (cases "check_response E i bytes ver ns = Inr ()")
      case True
      then obtain m where "message_from_vec E bytes = Inr m" "rm_code m = NoError" "tsig_verify E ver bytes = Inr ()"
        by (auto simp: check_response_def map_err_def Let_def split: sum.splits if_splits)
      with a signed have "rr (net w') = means p (rr (net w))" unfolding rfc_answered_def by blast
      with a means show ?thesis by (simp add: rfc_answered_def online_def)
    qed (use a means in \<open>auto simp: rfc_answered_def online_def\<close>)
    moreover obtain r w' where x: "exchange E self deadline p w = (r, w')" by fastforce
    ultimately have ans: "rfc_answered E up rr means p (rr (net w)) r w'" and ok: "\<And>bytes. r = Inr bytes \<Longrightarrow> ?Q (check_response E i bytes ver ns) w'"
      by (simp_all add: after_def)
    show ?thesis
    proof (cases r)
      case (Inl e)
      with ans means x show ?thesis by (auto simp: after_def attempt_def act_map_err_def rfc_answered_def online_def)
    next
      case (Inr bytes)
      with x show ?thesis using ok [OF Inr] by (simp add: after_def attempt_def act_map_err_def from_result_def)
    qed
  qed
qed

lemma send_update_stores:
  fixes E :: "('nm, 'msg, 'sg, 'ver, 'c, 'n) rfc_env"
  assumes "rfc_api E at means fresh asked sized up rr"
    and "\<And>sg now message' ver p s. message_finalize E message sg now = Inr (message', ver) \<Longrightarrow> message_to_vec E message' = Inr p \<Longrightarrow>
      means p s = change s"
  shows "stores (online up (\<lambda>_. True)) (\<lambda>w :: ('n, 'z) world_scheme. rr (net w)) (send_update E self message) (\<lambda>s s'. s' = change s)"
proof -
  let ?good = "online up (\<lambda>_. True)" and ?st = "\<lambda>w :: ('n, 'z) world_scheme. rr (net w)"
  have pure: "observes ?good ?st (\<lambda>_. True) (from_result r) (\<lambda>_ x. r = Inr x)" for r
    by (simp add: observes_def after_simps)
  have clock: "observes ?good ?st (\<lambda>_. True) (rfc_unix_now E) (\<lambda>_ _. True)" "observes ?good ?st (\<lambda>_. True) (get_state f) (\<lambda>_ _. True)" for f
    by (simp_all add: observes_def after_def rfc_unix_now_def get_state_def)
  show ?thesis
    unfolding send_update_def
    by (rule stores_given [OF pure], rule stores_given [OF clock(1)], rule stores_given [OF pure], rule stores_given [OF pure],
        rule stores_given [OF pure], rule stores_given [OF clock(2)], rule exchange_stores [OF assms(1)])
      (auto simp: map_err_def ok_or_def assms(2) split: sum.splits option.splits prod.splits)
qed

lemma rfc_names_observes:
  fixes E :: "('nm, 'msg, 'sg, 'ver, 'c, 'n) rfc_env"
  assumes "quiet_dns (rfc_dns E) up rr soa" "validate_fqdn f = Inr ()"
  shows "observes (online up (\<lambda>_. True)) (\<lambda>w :: ('n, 'z) world_scheme. rr (net w)) S (rfc_names E self f)
    (\<lambda>_ names. rfc_owner E at self soa f = Some (at (fst names) (snd names)))"
proof -
  have "observes (online up (\<lambda>_. True)) (\<lambda>w :: ('n, 'z) world_scheme. rr (net w)) S (rfc_resolve_zone E self f)
      (\<lambda>_ z. rfc_zone_for self soa f = Some z)"
  proof (cases "rfc_zone_override (rfc_config self)")
    case None
    show ?thesis
      unfolding rfc_resolve_zone_def rfc_zone_for_def None option.case
      by (rule observes_attempt [OF observes_find_zone [OF assms]]) (simp, intro editing, simp)
  qed (simp add: rfc_resolve_zone_def rfc_zone_for_def observes_pure)
  then show ?thesis
    unfolding rfc_names_def by (rule observes_attempt) (auto simp: rfc_owner_def intro!: editing)
qed

lemma rfc_edits:
  fixes E :: "('nm, 'msg, 'sg, 'ver, 'c, 'n) rfc_env"
  assumes "rfc_api E at means fresh asked sized up rr" "quiet_dns (rfc_dns E) up rr soa" "validate_fqdn f = Inr ()"
    and "\<And>z name n sg now message ver p s. message_finalize E (build z name n) sg now = Inr (message, ver) \<Longrightarrow>
      message_to_vec E message = Inr p \<Longrightarrow> means p s = change (at z name) s"
    and "\<And>k s k'. change k s k' = (if k' = k then if b then insert v (s k) else s k - {v} else s k')"
  shows "edits (online up (\<lambda>_. True)) (\<lambda>w :: ('n, 'z) world_scheme. rr (net w)) rfc_values (\<lambda>_. True) (rfc_owner E at self soa f) v b
    (attempt (rfc_names E self f) (\<lambda>names. attempt (get_state (\<lambda>w. build (fst names) (snd names) (net w))) (send_update E self)))"
proof (rule edits_given [OF rfc_names_observes [OF assms(2,3), where at = at]])
  fix names
  assume own: "rfc_owner E at self soa f = Some (at (fst names) (snd names))"
  let ?k = "at (fst names) (snd names)"
  show "edits (online up (\<lambda>_. True)) (\<lambda>w :: ('n, 'z) world_scheme. rr (net w)) rfc_values (\<lambda>_. True) (rfc_owner E at self soa f) v b
      (attempt (get_state (\<lambda>w. build (fst names) (snd names) (net w))) (send_update E self))"
  proof (rule edits_given [where P = "\<lambda>m. \<exists>n. m = build (fst names) (snd names) n"])
    show "observes (online up (\<lambda>_. True)) (\<lambda>w :: ('n, 'z) world_scheme. rr (net w)) (\<lambda>_. True)
        (get_state (\<lambda>w. build (fst names) (snd names) (net w))) (\<lambda>_ m. \<exists>n. m = build (fst names) (snd names) n)"
      by (rule observes_get_state) blast
    fix m assume "\<exists>n. m = build (fst names) (snd names) n"
    then have "stores (online up (\<lambda>_. True)) (\<lambda>w :: ('n, 'z) world_scheme. rr (net w)) (send_update E self m) (\<lambda>s s'. s' = change ?k s)"
      by (intro send_update_stores [OF assms(1)]) (use assms(4) in blast)
    then show "edits (online up (\<lambda>_. True)) (\<lambda>w :: ('n, 'z) world_scheme. rr (net w)) rfc_values (\<lambda>_. True) (rfc_owner E at self soa f) v b
        (send_update E self m)"
      by (rule edits_store) (auto simp: own rfc_values_def same_except_def assms(5) split: option.splits if_splits)
  qed
qed

lemma rfc_api_messages:
  assumes "rfc_api E at means fresh asked sized up rr"
  shows "message_finalize E (build_present_message E z name v t n) sg now = Inr (message, ver) \<Longrightarrow> message_to_vec E message = Inr p \<Longrightarrow>
      means p s = s(at z name := insert v (s (at z name)))"
    "message_finalize E (build_cleanup_message E z name v n) sg now = Inr (message, ver) \<Longrightarrow> message_to_vec E message = Inr p \<Longrightarrow>
      means p s = s(at z name := s (at z name) - {v})"
proof -
  note api = assms [unfolded rfc_api_def, THEN conjunct2, THEN conjunct2, THEN conjunct2, THEN conjunct2]
  show "means p s = s(at z name := insert v (s (at z name)))"
    if "message_finalize E (build_present_message E z name v t n) sg now = Inr (message, ver)" "message_to_vec E message = Inr p"
    using that unfolding build_present_message_def by (rule api [THEN conjunct1, rule_format])
  show "means p s = s(at z name := s (at z name) - {v})"
    if "message_finalize E (build_cleanup_message E z name v n) sg now = Inr (message, ver)" "message_to_vec E message = Inr p"
    using that unfolding build_cleanup_message_def by (rule api [THEN conjunct2, rule_format])
qed

lemma rfc_present_edits:
  fixes E :: "('nm, 'msg, 'sg, 'ver, 'c, 'n) rfc_env"
  assumes "rfc_api E at means fresh asked sized up rr" "quiet_dns (rfc_dns E) up rr soa"
  shows "edits (online up (\<lambda>_. True)) (\<lambda>w :: ('n, 'z) world_scheme. rr (net w)) rfc_values (\<lambda>_. True) (rfc_owner E at self soa f) v True
    (rfc_present E self f v)"
  unfolding rfc_present_def
proof (intro edits_pure)
  fix u u' :: unit
  assume "validate_fqdn f = Inr u"
  then have f: "validate_fqdn f = Inr ()" by simp
  show "edits (online up (\<lambda>_. True)) (\<lambda>w :: ('n, 'z) world_scheme. rr (net w)) rfc_values (\<lambda>_. True) (rfc_owner E at self soa f) v True
      (attempt (rfc_names E self f) (\<lambda>names.
       attempt (get_state (\<lambda>w. build_present_message E (fst names) (snd names) v (rfc_ttl (rfc_config self)) (net w))) (\<lambda>message. send_update E self message)))"
    by (rule rfc_edits [OF assms f, where change = "\<lambda>k s. s(k := insert v (s k))"
          and build = "\<lambda>z name. build_present_message E z name v (rfc_ttl (rfc_config self))"])
      (simp_all add: rfc_api_messages(1) [OF assms(1)])
qed

lemma rfc_cleanup_edits:
  fixes E :: "('nm, 'msg, 'sg, 'ver, 'c, 'n) rfc_env"
  assumes "rfc_api E at means fresh asked sized up rr" "quiet_dns (rfc_dns E) up rr soa"
  shows "edits (online up (\<lambda>_. True)) (\<lambda>w :: ('n, 'z) world_scheme. rr (net w)) rfc_values (\<lambda>_. True) (rfc_owner E at self soa f) v False
    (rfc_cleanup E self f v)"
  unfolding rfc_cleanup_def
proof (intro edits_pure)
  fix u u' :: unit
  assume "validate_fqdn f = Inr u"
  then have f: "validate_fqdn f = Inr ()" by simp
  show "edits (online up (\<lambda>_. True)) (\<lambda>w :: ('n, 'z) world_scheme. rr (net w)) rfc_values (\<lambda>_. True) (rfc_owner E at self soa f) v False
      (attempt (rfc_names E self f) (\<lambda>names.
       attempt (get_state (\<lambda>w. build_cleanup_message E (fst names) (snd names) v (net w))) (\<lambda>message. send_update E self message)))"
    by (rule rfc_edits [OF assms f, where change = "\<lambda>k s. s(k := s k - {v})" and build = "\<lambda>z name. build_cleanup_message E z name v"])
      (simp_all add: rfc_api_messages(2) [OF assms(1)])
qed

text \<open>C24: the RFC 2136 provider keeps the provider contract on a server with the documented behaviour, which may apply an
  update without the provider learning of it.\<close>

theorem rfc_contract:
  assumes "rfc_api E at means fresh asked sized up rr" "quiet_dns (rfc_dns E) up rr soa"
  shows "dns_provider (rfc_provider E self) (\<lambda>w. rfc_values (rr (net w))) (rfc_owner E at self soa) (online up (\<lambda>_. True))"
  by (rule dns_providerI [where st = "\<lambda>w. rr (net w)" and T = rfc_values])
    (simp_all add: rfc_present_edits [OF assms] rfc_cleanup_edits [OF assms])

section \<open>A server\<close>

text \<open>
  A server for the zone \<open>a.org\<close> with a wire format of its own: the kind of the change, the name behind its length in
  unary, and the value. It applies a request when it has read it and answers \<open>k\<close>.
\<close>

record rfc_net =
  rn_values :: "(string \<times> string) list"
  rn_out :: string

type_synonym rfc_change = "bool \<times> string \<times> string"

definition rfc_encode :: "rfc_change \<Rightarrow> string" where
  "rfc_encode m = (case m of (add, name, v) \<Rightarrow> (if add then CHR ''+'' else CHR ''-'') # replicate (length name) CHR ''n'' @ CHR ''|'' # name @ v)"

definition rfc_decode :: "string \<Rightarrow> rfc_change" where
  "rfc_decode p =
     (let k = length (takeWhile (\<lambda>c. c = CHR ''n'') (tl p)); rest = drop (k + 2) p in (hd p = CHR ''+'', take k rest, drop k rest))"

definition rfc_net_rr :: "rfc_net \<Rightarrow> string \<Rightarrow> string set" where
  "rfc_net_rr n name = set (map snd (filter (\<lambda>x. fst x = name) (rn_values n)))"

definition rfc_means :: "string \<Rightarrow> (string \<Rightarrow> string set) \<Rightarrow> string \<Rightarrow> string set" where
  "rfc_means p s = (case rfc_decode p of (add, name, v) \<Rightarrow> s(name := if add then insert v (s name) else s name - {v}))"

definition rfc_take :: "string \<Rightarrow> (string \<times> string) list \<Rightarrow> (string \<times> string) list" where
  "rfc_take p d = (case rfc_decode p of (add, name, v) \<Rightarrow> if add then d @ [(name, v)] else filter (\<lambda>x. x \<noteq> (name, v)) d)"

definition demo_rfc :: "(string, rfc_change, unit, unit, unit, rfc_net) rfc_env" where
  "demo_rfc = \<lparr>rfc_dns = still_dns (\<lambda>c. c = ''a.org''), rfc_env_var = (\<lambda>_. None), socket_addr_parse = (\<lambda>_. None), ip_parse = (\<lambda>_. None),
     rfc_debug_str = (\<lambda>s. s), rfc_debug_duration = show_nat, name_from_ascii = Inr, name_set_fqdn = (\<lambda>s. s),
     name_zone_of = (\<lambda>z name. name = z \<or> strip_suffix (DOT # z) name \<noteq> None), name_display = (\<lambda>s. s), base64_decode = Some,
     update_append = (\<lambda>set _ _ _ _. (True, tx_name set, concat (tx_values set))),
     update_delete_by_rdata = (\<lambda>set _ _ _. (False, tx_name set, concat (tx_values set))), message_id = (\<lambda>_. 7),
     tsigner_new = (\<lambda>_ _ _ _. Inr ()), message_finalize = (\<lambda>m _ _. Inr (m, Some ())), message_to_vec = (\<lambda>m. Inr (rfc_encode m)),
     message_from_vec = (\<lambda>_. Inr \<lparr>rm_id = 7, rm_is_response = True, rm_is_update = True, rm_code = NoError, rm_signature = Some None\<rparr>),
     tsig_verify = (\<lambda>_ bytes. if bytes = ''k'' then Inr () else Inl ''bad''), rcode_display = (\<lambda>_. []), rfc_unix_time = (\<lambda>_. Some 0),
     tcp_connect = (\<lambda>_ _ _ n. (Inr (), n\<lparr>rn_out := []\<rparr>)),
     tcp_write_all = (\<lambda>_ _ bytes n. (Inr (), n\<lparr>rn_values := rfc_take (drop 2 bytes) (rn_values n), rn_out := framed ''k''\<rparr>)),
     tcp_read_exact = (\<lambda>_ _ k n. if k \<le> length (rn_out n) then (Inr (take k (rn_out n)), n\<lparr>rn_out := drop k (rn_out n)\<rparr>)
       else (Inl (IoError ''closed''), n))\<rparr>"

definition demo_rfc_provider :: "string Rfc2136Provider" where
  "demo_rfc_provider = \<lparr>rfc_config = \<lparr>rfc_nameserver = ''ns.a.org'', rfc_key_name = ''key'', rfc_secret = ''s'', rfc_algorithm = HmacSha256,
     rfc_zone_override = None, rfc_ttl = 2, rfc_timeout = 1\<rparr>, rfc_server = \<lparr>ns_host = ''ns.a.org'', ns_port = 53\<rparr>, rfc_key = ''key''\<rparr>"

definition demo_rfc_world :: "rfc_net world" where
  "demo_rfc_world = \<lparr>RESOLVER = None, net = \<lparr>rn_values = [(''_acme-challenge.a.org'', ''other'')], rn_out = []\<rparr>\<rparr>"

lemma demo_rfc_run:
  "fst (rfc_present demo_rfc demo_rfc_provider ''_acme-challenge.a.org'' ''v'' demo_rfc_world) = Inr ()"
  "fst (rfc_cleanup demo_rfc demo_rfc_provider ''_acme-challenge.a.org'' ''v''
     (snd (rfc_present demo_rfc demo_rfc_provider ''_acme-challenge.a.org'' ''v'' demo_rfc_world))) = Inr ()"
  by code_simp+

lemma rfc_decode_encode [simp]: "rfc_decode (rfc_encode m) = m"
proof -
  obtain add name v where m: "m = (add, name, v)" by (cases m)
  have "takeWhile (\<lambda>c. c = CHR ''n'') (replicate k CHR ''n'' @ CHR ''|'' # rest) = replicate k CHR ''n''" for k rest
    by (induction k) simp_all
  then show ?thesis by (simp add: m rfc_decode_def rfc_encode_def)
qed

lemma rfc_take_means: "rfc_net_rr (n\<lparr>rn_values := rfc_take p (rn_values n)\<rparr>) = rfc_means p (rfc_net_rr n)"
  by (cases "rfc_decode p") (force simp: rfc_net_rr_def rfc_take_def rfc_means_def fun_eq_iff)

lemma rfc_net_rr_out [simp]: "rfc_net_rr (n\<lparr>rn_out := x\<rparr>) = rfc_net_rr n"
  by (simp add: rfc_net_rr_def fun_eq_iff)

lemma demo_rfc_api:
  "rfc_api demo_rfc (\<lambda>_ name. name) rfc_means (\<lambda>_ _. True) (\<lambda>_ p s n. rn_out n = framed ''k'' \<and> rfc_net_rr n = rfc_means p s)
     (\<lambda>_ p s k n. k = 1 \<and> rn_out n = ''k'' \<and> rfc_net_rr n = rfc_means p s) (\<lambda>_. True) rfc_net_rr"
proof -
  have frame: "drop 2 (framed p) = p" "take 2 (framed ''k'') = u16_to_be 1" "length (framed ''k'') = 3" for p
    by (simp_all add: framed_def u16_to_be_def)
  have "u16_from_be (u16_to_be 1) = 1" by (rule u16_be_roundtrip) simp
  with frame show ?thesis
    unfolding rfc_api_def by (auto simp: demo_rfc_def rfc_take_means txt_rrset_def rfc_means_def [of "rfc_encode _"] split: if_splits)
qed

theorem rfc_contract_witness:
  "\<exists>w1 w2. present (rfc_provider demo_rfc demo_rfc_provider) ''_acme-challenge.a.org'' ''v'' demo_rfc_world = (Inr (), w1)
     \<and> ''v'' \<in> rfc_values (rfc_net_rr (net w1)) (rfc_owner demo_rfc (\<lambda>_ name. name) demo_rfc_provider (\<lambda>c. c = ''a.org'') ''_acme-challenge.a.org'')
     \<and> cleanup (rfc_provider demo_rfc demo_rfc_provider) ''_acme-challenge.a.org'' ''v'' w1 = (Inr (), w2)
     \<and> rfc_values (rfc_net_rr (net w2)) = rfc_values (rfc_net_rr (net demo_rfc_world))"
proof -
  have "quiet_dns (rfc_dns demo_rfc) (\<lambda>_. True) rfc_net_rr (\<lambda>c. c = ''a.org'')" by (simp add: demo_rfc_def quiet_still_dns)
  note contract = rfc_contract [OF demo_rfc_api this]
  have "''v'' \<notin> rfc_values (rfc_net_rr (net demo_rfc_world)) k" for k
    by (auto simp: rfc_values_def rfc_net_rr_def demo_rfc_world_def split: option.splits)
  then show ?thesis
    by (intro dns_provider.round_trip [OF contract]) (simp_all add: demo_rfc_run online_def)
qed



end
